(* ===== verification/Prelude.thy ===== *)
theory Prelude
  imports Main "HOL-Library.Word" "HOL-Library.State_Monad" "HOL-Library.Multiset"
begin

text \<open>
  Shared material of the development.  It holds the collections of rewrite rules the
  components fill (\<open>run_simps\<close> for the running of stateful operations, \<open>keeps_intros\<close>
  for invariants), the type synonyms for Go's machine types, the result type of fallible Go
  functions with the combinators that translate its error-checking idioms, and generic
  lemmas on lists and on \<^typ>\<open>('s, 'a) state\<close>.
\<close>

named_theorems run_simps
named_theorems keeps_intros
named_theorems stores_intros

text \<open>
  Go's \<open>byte\<close>, \<open>[]byte\<close>, \<open>int\<close> and \<open>time.Time\<close>.  An instant is the number of
  nanoseconds since the Unix epoch (every time of the program is in UTC); a Go string is a
  sequence of bytes, which is what \<^typ>\<open>string\<close> is.
\<close>

type_synonym byte = "8 word"
type_synonym bytes = "byte list"
type_synonym goint = "64 word"
type_synonym time = int

text \<open>
  A Go function with results \<open>(T, error)\<close> returns the zero value with a non-nil error or
  the value with a nil error: a sum.  A method that touches the outside world is a state
  transformer that returns such a sum.
\<close>

type_synonym ('e, 'w, 'a) fallible = "('w, 'e + 'a) state"

definition on_err :: "('e \<Rightarrow> 'f) \<Rightarrow> 'e + 'a \<Rightarrow> 'f + 'a" where
  "on_err f r = (case r of Inl e \<Rightarrow> Inl (f e) | Inr x \<Rightarrow> Inr x)"

text \<open>\<open>x, err := m; if err != nil { return err }; f(x)\<close>.\<close>

definition and_then :: "'e + 'a \<Rightarrow> ('a \<Rightarrow> 'e + 'b) \<Rightarrow> 'e + 'b" where
  "and_then r f = (case r of Inl e \<Rightarrow> Inl e | Inr x \<Rightarrow> f x)"

text \<open>The same for an operation, with the error converted by \<open>g\<close> before it is returned.\<close>

definition try_or :: "('e \<Rightarrow> 'f) \<Rightarrow> ('e, 'w, 'a) fallible \<Rightarrow> ('a \<Rightarrow> ('f, 'w, 'b) fallible) \<Rightarrow> ('f, 'w, 'b) fallible" where
  "try_or g m k = do {
     r \<leftarrow> m;
     case r of Inl e \<Rightarrow> State_Monad.return (Inl (g e)) | Inr x \<Rightarrow> k x }"

text \<open>
  The loop \<open>for _, x := range xs { y, err := f(x); if err != nil { return nil, err };
  ys = append(ys, y) }\<close>.
\<close>

fun traverse :: "('a \<Rightarrow> 'e + 'b) \<Rightarrow> 'a list \<Rightarrow> 'e + 'b list" where
  "traverse f [] = Inr []"
| "traverse f (x # xs) =
     (case f x of
        Inl e \<Rightarrow> Inl e
      | Inr y \<Rightarrow> (case traverse f xs of Inl e \<Rightarrow> Inl e | Inr ys \<Rightarrow> Inr (y # ys)))"

text \<open>
  An operation keeps a predicate on the state when it ends in a state that satisfies it
  whenever it starts in one.
\<close>

definition keeps :: "('w \<Rightarrow> bool) \<Rightarrow> ('w, 'a) state \<Rightarrow> bool" where
  "keeps I m \<longleftrightarrow> (\<forall>w. I w \<longrightarrow> I (snd (run_state m w)))"

section \<open>Running state transformers\<close>

lemma run_state_if [simp]:
  "run_state (if b then m else n) w = (if b then run_state m w else run_state n w)"
  by simp

lemma run_state_case_sum [simp]:
  "run_state (case r of Inl e \<Rightarrow> f e | Inr x \<Rightarrow> g x) w =
     (case r of Inl e \<Rightarrow> run_state (f e) w | Inr x \<Rightarrow> run_state (g x) w)"
  by (cases r) simp_all

lemma run_state_case_option [simp]:
  "run_state (case r of None \<Rightarrow> m | Some x \<Rightarrow> f x) w =
     (case r of None \<Rightarrow> run_state m w | Some x \<Rightarrow> run_state (f x) w)"
  by (cases r) simp_all

lemma run_state_let [simp]:
  "run_state (let x = a in f x) w = (let x = a in run_state (f x) w)"
  by (simp add: Let_def)

lemma on_err_simps [simp]:
  "on_err f (Inl e) = Inl (f e)"
  "on_err f (Inr x) = Inr x"
  by (simp_all add: on_err_def)

lemma on_err_eq_Inr [simp]: "on_err f r = Inr x \<longleftrightarrow> r = Inr x"
  by (cases r) simp_all

lemma on_err_eq_Inl [simp]: "on_err f r = Inl e' \<longleftrightarrow> (\<exists>e. r = Inl e \<and> e' = f e)"
  by (cases r) auto

lemma and_then_simps [simp]:
  "and_then (Inl e) f = Inl e"
  "and_then (Inr x) f = f x"
  by (simp_all add: and_then_def)

lemma and_then_eq_Inr [simp]: "and_then r f = Inr y \<longleftrightarrow> (\<exists>x. r = Inr x \<and> f x = Inr y)"
  by (cases r) simp_all

lemma and_then_eq_Inl: "and_then r f = Inl e \<longleftrightarrow> r = Inl e \<or> (\<exists>x. r = Inr x \<and> f x = Inl e)"
  by (cases r) simp_all

lemma try_or_cases:
  assumes "run_state (try_or g m k) w = (r, w')"
  obtains (err) e where "run_state m w = (Inl e, w')" "r = Inl (g e)"
  | (ok) x v where "run_state m w = (Inr x, v)" "run_state (k x) v = (r, w')"
proof -
  obtain y v where "run_state m w = (y, v)" by fastforce
  with assms that show thesis by (cases y) (auto simp: try_or_def)
qed

lemma bind_cases:
  assumes "run_state (m \<bind> k) w = (r, w')"
  obtains x v where "run_state m w = (x, v)" "run_state (k x) v = (r, w')"
proof -
  obtain x v where "run_state m w = (x, v)" by fastforce
  with assms that show thesis by simp
qed

section \<open>Invariants of state transformers\<close>

lemma keepsI:
  assumes "\<And>w x w'. I w \<Longrightarrow> run_state m w = (x, w') \<Longrightarrow> I w'"
  shows "keeps I m"
  using assms unfolding keeps_def by (metis prod.collapse)

lemma keepsD: "keeps I m \<Longrightarrow> I w \<Longrightarrow> run_state m w = (x, w') \<Longrightarrow> I w'"
  unfolding keeps_def by (metis snd_conv)

lemma keeps_return [keeps_intros]: "keeps I (State_Monad.return x)"
  by (simp add: keeps_def)

lemma keeps_bind [keeps_intros]:
  assumes "keeps I m" and "\<And>x. keeps I (f x)"
  shows "keeps I (m \<bind> f)"
proof (rule keepsI)
  fix w x w'
  assume "I w" and run: "run_state (m \<bind> f) w = (x, w')"
  obtain y v where y: "run_state m w = (y, v)" by fastforce
  with \<open>I w\<close> assms(1) have "I v" by (blast dest: keepsD)
  moreover from run y have "run_state (f y) v = (x, w')" by simp
  ultimately show "I w'" using assms(2) by (blast dest: keepsD)
qed

lemma keeps_if [keeps_intros]:
  "keeps I m \<Longrightarrow> keeps I n \<Longrightarrow> keeps I (if b then m else n)"
  by simp

lemma keeps_case_sum [keeps_intros]:
  "(\<And>e. keeps I (f e)) \<Longrightarrow> (\<And>x. keeps I (g x)) \<Longrightarrow>
     keeps I (case r of Inl e \<Rightarrow> f e | Inr x \<Rightarrow> g x)"
  by (cases r) simp_all

lemma keeps_case_option [keeps_intros]:
  "keeps I m \<Longrightarrow> (\<And>x. keeps I (f x)) \<Longrightarrow>
     keeps I (case r of None \<Rightarrow> m | Some x \<Rightarrow> f x)"
  by (cases r) simp_all

lemma keeps_let [keeps_intros]:
  "(\<And>x. keeps I (f x)) \<Longrightarrow> keeps I (let x = a in f x)"
  by simp

lemma keeps_conj:
  "keeps I m \<Longrightarrow> keeps J m \<Longrightarrow> keeps (\<lambda>w. I w \<and> J w) m"
  by (simp add: keeps_def)

section \<open>The collecting loop\<close>

lemma traverse_Inr_iff:
  "traverse f xs = Inr ys \<longleftrightarrow> list_all2 (\<lambda>x y. f x = Inr y) xs ys"
proof (induction xs arbitrary: ys)
  case Nil
  then show ?case by auto
next
  case (Cons x xs)
  show ?case
    by (cases ys) (auto simp flip: Cons.IH split: sum.splits)
qed

lemma traverse_map:
  assumes "\<And>x. x \<in> set xs \<Longrightarrow> f x = Inr (g x)"
  shows "traverse f xs = Inr (map g xs)"
  using assms by (induction xs) auto

lemma traverse_map_map:
  assumes "\<And>x. f (h x) = Inr (g x)"
  shows "traverse f (map h xs) = Inr (map g xs)"
  using assms by (induction xs) auto

lemma traverse_map_filter:
  assumes "\<And>x y. p x = Some y \<Longrightarrow> f (h x) = Inr y"
  shows "traverse f (map h (filter (\<lambda>x. p x \<noteq> None) xs)) = Inr (List.map_filter p xs)"
  using assms by (induction xs) (auto simp: map_filter_simps split: option.splits)

lemma traverse_Inl:
  assumes "traverse f xs = Inl e"
  shows "\<exists>x \<in> set xs. f x = Inl e"
  using assms by (induction xs) (auto split: sum.splits)

section \<open>Lists\<close>

lemma filter_singleton:
  assumes "distinct (map f xs)" and "x \<in> set xs"
  shows "filter (\<lambda>y. f y = f x) xs = [x]"
  using assms
proof (induction xs)
  case Nil
  then show ?case by simp
next
  case (Cons a xs)
  show ?case
  proof (cases "a = x")
    case True
    with Cons.prems have "f x \<notin> f ` set xs" by simp
    then have "\<forall>y \<in> set xs. f y \<noteq> f x" by (metis imageI)
    with True show ?thesis by (simp add: filter_False)
  next
    case False
    with Cons.prems have "x \<in> set xs" and "f a \<noteq> f x" by force+
    with Cons show ?thesis by simp
  qed
qed

lemma mset_single_eq: "mset xs = {#x#} \<longleftrightarrow> xs = [x]"
  by (metis mset.simps mset_single_iff_right)

lemma image_list: "(\<And>x. x \<in> set xs \<Longrightarrow> \<exists>y. x = f y) \<Longrightarrow> \<exists>ys. xs = map f ys"
  by (induction xs) (auto simp: Cons_eq_map_conv)

lemma insort_key_map: "insort_key f (g x) (map g xs) = map g (insort_key (f \<circ> g) x xs)"
  by (induction xs) simp_all

lemma sort_key_map: "sort_key f (map g xs) = map g (sort_key (f \<circ> g) xs)"
  by (induction xs) (simp_all add: insort_key_map [unfolded o_def] o_def)

lemma sorted_desc_sort_key:
  fixes f :: "'a \<Rightarrow> int"
  shows "sorted_wrt (\<lambda>x y. f y \<le> f x) (sort_key (\<lambda>x. - f x) xs)"
  using sorted_sort_key [of "\<lambda>x. - f x" xs] by (simp add: sorted_map)

lemma map_filter_None: "(\<And>x. x \<in> set xs \<Longrightarrow> f x = None) \<Longrightarrow> List.map_filter f xs = []"
  by (induction xs) (auto simp: map_filter_simps)

end
