(* ===== verification/Go_Base.thy ===== *)
theory Go_Base
  imports Prelude "HOL-Library.Sublist"
begin

text \<open>
  The parts of the Go language and its standard library that the program uses: error values
  with wrapping (\<open>errors.Is\<close>, \<open>errors.As\<close>, \<open>fmt.Errorf\<close> with \<open>%w\<close>), string
  functions, \<open>%d\<close>, the calendar date of an instant, and the array type behind
  \<open>uuid.UUID\<close>.  The sentinel errors are those of \<open>internal/domain/errors.go\<close>, of
  \<open>internal/storage/redis/taskcache.go\<close> and of the libraries the storages compare with.
\<close>

section \<open>Errors\<close>

text \<open>
  A sentinel error is a package variable compared by identity.  \<open>DriverErr\<close> is an error of
  a client library that the code never inspects (a lost connection, a cancelled context),
  \<open>MySQLError\<close> a server error with its number, \<open>ErrorString\<close> an \<open>errors.New\<close> or
  \<open>fmt.Errorf\<close> without \<open>%w\<close>, and \<open>Wrapped pre e post\<close> is \<open>fmt.Errorf(pre + "%w" + post, e)\<close>.
\<close>

datatype sentinel =
    ErrNotFound
  | ErrForbidden
  | ErrConflict
  | ErrUnauthorized
  | ErrCacheMiss
  | ErrNoRows
  | RedisNil

datatype err =
    Sentinel sentinel
  | DriverErr string
  | MySQLError nat string
  | ErrorString string
  | Wrapped string err string

type_synonym ('w, 'a) op = "(err, 'w, 'a) fallible"

definition errorf :: "string \<Rightarrow> err \<Rightarrow> err" where
  "errorf pre e = Wrapped pre e ''''"

fun errors_Is :: "err \<Rightarrow> sentinel \<Rightarrow> bool" where
  "errors_Is (Sentinel s) t \<longleftrightarrow> s = t"
| "errors_Is (Wrapped _ e _) t \<longleftrightarrow> errors_Is e t"
| "errors_Is _ t \<longleftrightarrow> False"

fun errors_As_mysql :: "err \<Rightarrow> nat option" where
  "errors_As_mysql (MySQLError n _) = Some n"
| "errors_As_mysql (Wrapped _ e _) = errors_As_mysql e"
| "errors_As_mysql _ = None"

fun sentinel_text :: "sentinel \<Rightarrow> string" where
  "sentinel_text ErrNotFound = ''not found''"
| "sentinel_text ErrForbidden = ''forbidden''"
| "sentinel_text ErrConflict = ''conflict''"
| "sentinel_text ErrUnauthorized = ''unauthorized''"
| "sentinel_text ErrCacheMiss = ''cache miss''"
| "sentinel_text ErrNoRows = ''sql: no rows in result set''"
| "sentinel_text RedisNil = ''redis: nil''"

section \<open>Strings\<close>

text \<open>\<open>strings.HasPrefix\<close>, \<open>strings.HasSuffix\<close>, \<open>strings.CutPrefix\<close>, \<open>strings.Join\<close>.\<close>

definition HasPrefix :: "string \<Rightarrow> string \<Rightarrow> bool" where
  "HasPrefix s p \<longleftrightarrow> take (length p) s = p"

definition HasSuffix :: "string \<Rightarrow> string \<Rightarrow> bool" where
  "HasSuffix s p \<longleftrightarrow> length p \<le> length s \<and> drop (length s - length p) s = p"

definition CutPrefix :: "string \<Rightarrow> string \<Rightarrow> string \<times> bool" where
  "CutPrefix s p = (if HasPrefix s p then (drop (length p) s, True) else (s, False))"

fun Join :: "string list \<Rightarrow> string \<Rightarrow> string" where
  "Join [] sep = ''''"
| "Join [x] sep = x"
| "Join (x # y # xs) sep = x @ sep @ Join (y # xs) sep"

text \<open>
  The verb \<open>%q\<close> on text: quotation marks around it, with quotation marks, backslashes and
  line ends escaped (the other control characters, which Go escapes too, occur in no text the
  program quotes).
\<close>

definition Quote :: "string \<Rightarrow> string" where
  "Quote s = ''\"'' @ concat (map (\<lambda>c.
     if c = CHR 0x22 \<or> c = CHR 0x5C then [CHR 0x5C, c]
     else if c = CHR 0x0A then [CHR 0x5C, CHR ''n''] else [c]) s) @ ''\"''"

text \<open>The verb \<open>%d\<close>, and its zero-padded form with at least \<open>w\<close> digits.\<close>

definition digit_char :: "nat \<Rightarrow> char" where
  "digit_char d = char_of (48 + d)"

fun dec_nat :: "nat \<Rightarrow> string" where
  "dec_nat n = (if n < 10 then [digit_char n] else dec_nat (n div 10) @ [digit_char (n mod 10)])"

declare dec_nat.simps [simp del]

definition fmt_d :: "int \<Rightarrow> string" where
  "fmt_d i = (if i < 0 then ''-'' @ dec_nat (nat (- i)) else dec_nat (nat i))"

definition pad0 :: "nat \<Rightarrow> string \<Rightarrow> string" where
  "pad0 w s = replicate (w - length s) (CHR ''0'') @ s"

fun Error :: "err \<Rightarrow> string" where
  "Error (Sentinel s) = sentinel_text s"
| "Error (DriverErr m) = m"
| "Error (MySQLError n m) = ''Error '' @ fmt_d (int n) @ '': '' @ m"
| "Error (ErrorString m) = m"
| "Error (Wrapped p e q) = p @ Error e @ q"

text \<open>
  The civil date of an instant in the proleptic Gregorian calendar, as \<open>time.Time.Date\<close>
  gives it, and the layout \<open>2006-01-02\<close>.  The era arithmetic counts years from 1 March, so
  that the leap day is the last day of a year.
\<close>

definition ns_per_day :: int where
  "ns_per_day = 86400 * 1000000000"

definition civil_of_days :: "int \<Rightarrow> int \<times> int \<times> int" where
  "civil_of_days d =
     (let z = d + 719468;
          era = z div 146097;
          doe = z mod 146097;
          yoe = (doe - doe div 1460 + doe div 36524 - doe div 146096) div 365;
          doy = doe - (365 * yoe + yoe div 4 - yoe div 100);
          mp = (5 * doy + 2) div 153;
          day = doy - (153 * mp + 2) div 5 + 1;
          m = (if mp < 10 then mp + 3 else mp - 9);
          y = yoe + era * 400 + (if m \<le> 2 then 1 else 0)
      in (y, m, day))"

definition Format_date :: "time \<Rightarrow> string" where
  "Format_date t =
     (case civil_of_days (t div ns_per_day) of (y, m, d) \<Rightarrow>
        (if y < 0 then ''-'' else '''') @ pad0 4 (fmt_d \<bar>y\<bar>) @ ''-'' @ pad0 2 (fmt_d m) @ ''-'' @ pad0 2 (fmt_d d))"

text \<open>The zero value of \<open>time.Time\<close>: 1 January of the year 1.\<close>

definition zero_time :: time where
  "zero_time = - 719162 * ns_per_day"

section \<open>UUIDs\<close>

text \<open>\<open>uuid.UUID\<close> is an array of sixteen bytes.\<close>

typedef uuid = "{bs :: bytes. length bs = 16}"
  morphisms uuid_bytes Uuid
  by (rule exI [of _ "replicate 16 0"]) simp

declare uuid_bytes_inverse [code abstype]

instantiation uuid :: equal
begin

definition equal_uuid :: "uuid \<Rightarrow> uuid \<Rightarrow> bool" where
  "equal_uuid u v \<longleftrightarrow> uuid_bytes u = uuid_bytes v"

instance
  by standard (simp add: equal_uuid_def uuid_bytes_inject)

end

text \<open>\<open>copy(id[:], b)\<close> into a zeroed array.\<close>

definition uuid_copy :: "bytes \<Rightarrow> uuid" where
  "uuid_copy b = Uuid (take 16 b @ drop (length b) (replicate 16 0))"

text \<open>
  What the program relies on of the text form of an identifier, which the package
  \<open>google/uuid\<close> documents: 36 characters, hexadecimal digits and hyphens, and different
  identifiers have different texts.
\<close>

definition uuid_chars :: string where
  "uuid_chars = ''0123456789abcdef-''"

definition uuid_text :: "(uuid \<Rightarrow> string) \<Rightarrow> bool" where
  "uuid_text str \<longleftrightarrow>
     inj str \<and> (\<forall>u. length (str u) = 36 \<and> set (str u) \<subseteq> set uuid_chars)"

text \<open>The canonical form itself: groups of 8, 4, 4, 4 and 12 lower-case digits.\<close>

definition hex_char :: "nat \<Rightarrow> char" where
  "hex_char d = ''0123456789abcdef'' ! d"

definition hex_byte :: "byte \<Rightarrow> string" where
  "hex_byte b = [hex_char (unat b div 16), hex_char (unat b mod 16)]"

definition hex_bytes :: "bytes \<Rightarrow> string" where
  "hex_bytes bs = concat (map hex_byte bs)"

definition canonical_uuid :: "uuid \<Rightarrow> string" where
  "canonical_uuid u =
     (let h = hex_bytes (uuid_bytes u)
      in take 8 h @ ''-'' @ take 4 (drop 8 h) @ ''-'' @ take 4 (drop 12 h) @ ''-'' @
         take 4 (drop 16 h) @ ''-'' @ drop 20 h)"

section \<open>Lemmas on errors and strings\<close>

lemma errors_Is_errorf [simp]: "errors_Is (errorf p e) s = errors_Is e s"
  by (simp add: errorf_def)

lemma errors_As_errorf [simp]: "errors_As_mysql (errorf p e) = errors_As_mysql e"
  by (simp add: errorf_def)

lemma HasPrefix_append [simp]: "HasPrefix (p @ s) p"
  by (simp add: HasPrefix_def)

lemma HasPrefix_prefix: "HasPrefix s p \<longleftrightarrow> prefix p s"
  unfolding HasPrefix_def by (metis append_eq_conv_conj prefix_def append_take_drop_id)

lemma HasSuffix_append [simp]: "HasSuffix (s @ p) p"
  by (simp add: HasSuffix_def)

lemma CutPrefix_append [simp]: "CutPrefix (p @ s) p = (s, True)"
  by (simp add: CutPrefix_def)

lemma dec_nat_digits: "set (dec_nat n) \<subseteq> digit_char ` {..<10}"
proof (induction n rule: dec_nat.induct)
  case (1 n)
  then show ?case
    by (subst dec_nat.simps) (auto simp: subset_iff)
qed

definition char_digit :: "char \<Rightarrow> nat" where
  "char_digit c = of_char c - 48"

lemma char_digit_char: "d < 10 \<Longrightarrow> char_digit (digit_char d) = d"
  by (simp add: char_digit_def digit_char_def)

lemma dec_nat_value: "foldl (\<lambda>a c. 10 * a + char_digit c) 0 (dec_nat n) = n"
proof (induction n rule: dec_nat.induct)
  case (1 n)
  then show ?case
    by (subst dec_nat.simps) (simp add: char_digit_char)
qed

lemma dec_nat_inject [simp]: "dec_nat m = dec_nat n \<longleftrightarrow> m = n"
  by (metis dec_nat_value)

lemma digit_char_range: "d < 10 \<Longrightarrow> of_char (digit_char d) = 48 + d"
  by (simp add: digit_char_def)

lemma dec_nat_chars: "c \<in> set (dec_nat n) \<Longrightarrow> 48 \<le> (of_char c :: nat) \<and> (of_char c :: nat) \<le> 57"
  using dec_nat_digits [of n] digit_char_range by fastforce

lemma fmt_d_chars:
  "c \<in> set (fmt_d i) \<Longrightarrow> c = CHR ''-'' \<or> 48 \<le> (of_char c :: nat) \<and> (of_char c :: nat) \<le> 57"
  by (auto simp: fmt_d_def dest: dec_nat_chars split: if_splits)

lemma minus_notin_dec_nat: "dec_nat n \<noteq> CHR ''-'' # s"
proof
  assume "dec_nat n = CHR ''-'' # s"
  then have "CHR ''-'' \<in> set (dec_nat n)" by simp
  then have "48 \<le> (of_char (CHR ''-'') :: nat)" by (blast dest: dec_nat_chars)
  then show False by simp
qed

lemma fmt_d_inject [simp]: "fmt_d i = fmt_d j \<longleftrightarrow> i = j"
  using minus_notin_dec_nat
  by (auto simp: fmt_d_def minus_notin_dec_nat minus_notin_dec_nat [symmetric] split: if_splits)

lemma colon_notin_fmt_d [simp]: "CHR '':'' \<notin> set (fmt_d i)"
proof
  assume "CHR '':'' \<in> set (fmt_d i)"
  then show False by (auto dest: fmt_d_chars)
qed

lemma split_at_colon:
  assumes "a @ CHR '':'' # b = c @ CHR '':'' # d"
    and "CHR '':'' \<notin> set a" and "CHR '':'' \<notin> set c"
  shows "a = c \<and> b = d"
  using assms
proof (induction a arbitrary: c)
  case Nil
  then show ?case by (cases c) auto
next
  case (Cons x a)
  then show ?case by (cases c) auto
qed

lemma split_at_last_colon:
  assumes "a @ CHR '':'' # b = c @ CHR '':'' # d"
    and "CHR '':'' \<notin> set b" and "CHR '':'' \<notin> set d"
  shows "a = c \<and> b = d"
proof -
  from assms(1) have "rev b @ CHR '':'' # rev a = rev d @ CHR '':'' # rev c"
    by (metis append.assoc append_Cons append_Nil rev.simps(2) rev_append)
  then have "rev b = rev d \<and> rev a = rev c"
    by (rule split_at_colon) (simp_all add: assms)
  then show ?thesis by simp
qed

section \<open>Lemmas on identifiers\<close>

lemma length_uuid_bytes [simp]: "length (uuid_bytes u) = 16"
  using uuid_bytes [of u] by simp

lemma uuid_bytes_uuid_copy [code abstract]:
  "uuid_bytes (uuid_copy b) = take 16 b @ drop (length b) (replicate 16 0)"
  by (simp add: uuid_copy_def Uuid_inverse)

lemma uuid_bytes_copy: "length b = 16 \<Longrightarrow> uuid_bytes (uuid_copy b) = b"
  by (simp add: uuid_bytes_uuid_copy)

lemma uuid_copy_bytes [simp]: "uuid_copy (uuid_bytes u) = u"
  by (simp add: uuid_copy_def uuid_bytes_inverse)

declare uuid_bytes_inject [simp]

lemma hex_char_inject: "i < 16 \<Longrightarrow> j < 16 \<Longrightarrow> hex_char i = hex_char j \<longleftrightarrow> i = j"
proof -
  assume *: "i < 16" "j < 16"
  have "distinct ''0123456789abcdef''" by simp
  with * show ?thesis
    unfolding hex_char_def by (subst nth_eq_iff_index_eq) simp_all
qed

lemma hex_char_set: "i < 16 \<Longrightarrow> hex_char i \<in> set ''0123456789abcdef''"
  unfolding hex_char_def by (rule nth_mem) simp

lemma unat_byte_less: "unat (b :: byte) < 256"
  using unsigned_less [of b, where ?'a = nat] by simp

lemma hex_byte_inject: "hex_byte a = hex_byte b \<longleftrightarrow> a = b"
proof
  assume "hex_byte a = hex_byte b"
  then have "unat a div 16 = unat b div 16" and "unat a mod 16 = unat b mod 16"
    using unat_byte_less [of a] unat_byte_less [of b]
    by (auto simp: hex_byte_def hex_char_inject less_mult_imp_div_less)
  then have "unat a = unat b" by (metis div_mult_mod_eq)
  then show "a = b" by (rule unsigned_word_eqI)
qed simp

lemma length_hex_bytes [simp]: "length (hex_bytes bs) = 2 * length bs"
  by (induction bs) (simp_all add: hex_bytes_def hex_byte_def)

lemma hex_bytes_inject: "hex_bytes as = hex_bytes bs \<longleftrightarrow> as = bs"
proof (induction as arbitrary: bs)
  case Nil
  then show ?case by (cases bs) (simp_all add: hex_bytes_def hex_byte_def)
next
  case (Cons a as)
  show ?case
  proof (cases bs)
    case Nil
    then show ?thesis by (simp add: hex_bytes_def hex_byte_def)
  next
    case (Cons b bs')
    have "hex_bytes (a # as) = hex_bytes (b # bs') \<longleftrightarrow> hex_byte a = hex_byte b \<and> hex_bytes as = hex_bytes bs'"
      by (simp add: hex_bytes_def hex_byte_def)
    with Cons Cons.IH show ?thesis by (simp add: hex_byte_inject)
  qed
qed

lemma hex_bytes_set: "set (hex_bytes bs) \<subseteq> set ''0123456789abcdef''"
proof (induction bs)
  case Nil
  then show ?case by (simp add: hex_bytes_def)
next
  case (Cons b bs)
  have "unat b div 16 < 16" using unat_byte_less [of b] by simp
  with Cons show ?case
    using hex_char_set [of "unat b div 16"] hex_char_set [of "unat b mod 16"]
    by (simp add: hex_bytes_def hex_byte_def)
qed

lemma split_8_4_4_4:
  "s = take 8 s @ take 4 (drop 8 s) @ take 4 (drop 12 s) @ take 4 (drop 16 s) @ drop 20 s"
proof -
  have "drop 8 s = take 4 (drop 8 s) @ drop 12 s"
    using append_take_drop_id [of 4 "drop 8 s"] by simp
  moreover have "drop 12 s = take 4 (drop 12 s) @ drop 16 s"
    using append_take_drop_id [of 4 "drop 12 s"] by simp
  moreover have "drop 16 s = take 4 (drop 16 s) @ drop 20 s"
    using append_take_drop_id [of 4 "drop 16 s"] by simp
  ultimately show ?thesis by (metis append_take_drop_id)
qed

lemma hex_uuid_chars: "set ''0123456789abcdef'' \<subseteq> set uuid_chars" "CHR ''-'' \<in> set uuid_chars"
  by (simp_all add: uuid_chars_def)

lemma canonical_uuid_text: "uuid_text canonical_uuid"
proof -
  have "inj canonical_uuid"
  proof (rule injI)
    fix u v
    assume eq: "canonical_uuid u = canonical_uuid v"
    let ?h = "hex_bytes (uuid_bytes u)" and ?k = "hex_bytes (uuid_bytes v)"
    from eq have "take 8 ?h = take 8 ?k" and "take 4 (drop 8 ?h) = take 4 (drop 8 ?k)"
      and "take 4 (drop 12 ?h) = take 4 (drop 12 ?k)"
      and "take 4 (drop 16 ?h) = take 4 (drop 16 ?k)" and "drop 20 ?h = drop 20 ?k"
      by (auto simp: canonical_uuid_def Let_def append_eq_append_conv)
    then have "?h = ?k"
      using split_8_4_4_4 [of ?h] split_8_4_4_4 [of ?k] by metis
    then show "u = v" by (simp add: hex_bytes_inject)
  qed
  moreover have "set (canonical_uuid u) \<subseteq> set uuid_chars" for u
  proof -
    let ?h = "hex_bytes (uuid_bytes u)"
    have "set (canonical_uuid u) \<subseteq> insert (CHR ''-'') (set ?h)"
      by (auto simp: canonical_uuid_def Let_def dest: in_set_takeD in_set_dropD)
    also have "\<dots> \<subseteq> set uuid_chars"
      using subset_trans [OF hex_bytes_set hex_uuid_chars(1)] hex_uuid_chars(2) by simp
    finally show ?thesis .
  qed
  ultimately show ?thesis
    by (simp add: uuid_text_def canonical_uuid_def Let_def)
qed

lemma uuid_text_notin: "uuid_text str \<Longrightarrow> c \<notin> set uuid_chars \<Longrightarrow> c \<notin> set (str u)"
  unfolding uuid_text_def by blast

lemma uuid_text_no_colon: "uuid_text str \<Longrightarrow> CHR '':'' \<notin> set (str u)"
  by (erule uuid_text_notin) (simp add: uuid_chars_def)

lemma uuid_text_inject: "uuid_text str \<Longrightarrow> str u = str v \<longleftrightarrow> u = v"
  unfolding uuid_text_def by (auto dest: injD)

end
