(* ===== verification/Domain.thy ===== *)
theory Domain
  imports Go_Base
begin

text \<open>
  The package \<open>internal/domain\<close>: the data the services exchange.  A pointer field is an
  \<^typ>\<open>'a option\<close>; \<open>TaskStatus\<close>, \<open>TaskPriority\<close> and \<open>Role\<close> are Go string types, so
  any string inhabits them and the constants are just the values the program writes.
\<close>

section \<open>Tasks\<close>

type_synonym TaskStatus = string
type_synonym TaskPriority = string
type_synonym Role = string

definition StatusTodo :: TaskStatus where "StatusTodo = ''todo''"
definition StatusInProgress :: TaskStatus where "StatusInProgress = ''in_progress''"
definition StatusDone :: TaskStatus where "StatusDone = ''done''"

definition PriorityLow :: TaskPriority where "PriorityLow = ''low''"
definition PriorityMedium :: TaskPriority where "PriorityMedium = ''medium''"
definition PriorityHigh :: TaskPriority where "PriorityHigh = ''high''"

record Task =
  task_ID :: uuid
  task_TeamID :: uuid
  task_CreatedBy :: uuid
  task_AssigneeID :: "uuid option"
  task_Title :: string
  task_Description :: "string option"
  task_Status :: TaskStatus
  task_Priority :: TaskPriority
  task_DueDate :: "time option"
  task_CreatedAt :: time
  task_UpdatedAt :: time

record CreateTaskInput =
  cti_TeamID :: uuid
  cti_Title :: string
  cti_Description :: "string option"
  cti_AssigneeID :: "uuid option"
  cti_DueDate :: "time option"
  cti_Priority :: TaskPriority

record UpdateTaskInput =
  uti_Title :: "string option"
  uti_Description :: "string option"
  uti_Status :: "TaskStatus option"
  uti_AssigneeID :: "uuid option"
  uti_DueDate :: "time option"
  uti_Priority :: "TaskPriority option"

record TaskFilter =
  tf_TeamID :: "uuid option"
  tf_Status :: "TaskStatus option"
  tf_AssigneeID :: "uuid option"
  tf_Page :: goint
  tf_Limit :: goint

record TaskHistory =
  th_ID :: int
  th_TaskID :: uuid
  th_ChangedBy :: uuid
  th_Field :: string
  th_OldValue :: "string option"
  th_NewValue :: "string option"
  th_ChangedAt :: time

section \<open>Teams, users, comments\<close>

definition RoleOwner :: Role where "RoleOwner = ''owner''"
definition RoleAdmin :: Role where "RoleAdmin = ''admin''"
definition RoleMember :: Role where "RoleMember = ''member''"

record Team =
  team_ID :: uuid
  team_Name :: string
  team_CreatedBy :: uuid
  team_CreatedAt :: time

record User =
  user_ID :: uuid
  user_Email :: string
  user_Name :: string
  user_Password :: string
  user_CreatedAt :: time

record Comment =
  comment_ID :: int
  comment_TaskID :: uuid
  comment_UserID :: uuid
  comment_Body :: string
  comment_CreatedAt :: time

section \<open>Analytics\<close>

record TeamSummary =
  ts_TeamID :: uuid
  ts_Name :: string
  ts_MemberCount :: nat
  ts_DoneLast7Days :: nat

record TopContributor =
  tc_TeamID :: uuid
  tc_UserID :: uuid
  tc_TaskCount :: nat
  tc_RankInTeam :: nat

record OrphanTask =
  ot_ID :: uuid
  ot_Title :: string
  ot_TeamID :: uuid
  ot_AssigneeID :: uuid

lemmas domain_constants =
  StatusTodo_def StatusInProgress_def StatusDone_def
  PriorityLow_def PriorityMedium_def PriorityHigh_def
  RoleOwner_def RoleAdmin_def RoleMember_def

end
