(* ===== verification/Database.thy ===== *)
theory Database
  imports Domain
begin

text \<open>
  The MySQL schema of \<open>migrations/*.up.sql\<close> and the meaning of the SQL statements that
  \<open>internal/storage/mysql\<close> sends, as functions on a record of tables.

  The server itself is not part of the repository.  Whatever it decides and the statements
  do not is a field of the parameter \<open>server\<close>: lost connections and timeouts
  (\<open>srv_fault\<close>), the order in which it visits rows (\<open>srv_order\<close>), its clock, its
  AUTO_INCREMENT values, how it converts strings, enums, dates and timestamps on assignment,
  its collation, and its error texts.  The fields that vary from call to call take the number
  of the call.
\<close>

section \<open>Rows and tables\<close>

record userRow =
  ur_ID :: bytes
  ur_Email :: string
  ur_Name :: string
  ur_Password :: string
  ur_CreatedAt :: time

record teamRow =
  tr_ID :: bytes
  tr_Name :: string
  tr_CreatedBy :: bytes
  tr_CreatedAt :: time

record memberRow =
  mr_TeamID :: bytes
  mr_UserID :: bytes
  mr_Role :: string
  mr_JoinedAt :: time

record taskRow =
  tk_ID :: bytes
  tk_TeamID :: bytes
  tk_CreatedBy :: bytes
  tk_AssigneeID :: "bytes option"
  tk_Title :: string
  tk_Description :: "string option"
  tk_Status :: string
  tk_Priority :: string
  tk_DueDate :: "time option"
  tk_CreatedAt :: time
  tk_UpdatedAt :: time

record historyRow =
  hr_ID :: int
  hr_TaskID :: bytes
  hr_ChangedBy :: bytes
  hr_Field :: string
  hr_OldValue :: "string option"
  hr_NewValue :: "string option"
  hr_ChangedAt :: time

record commentRow =
  cr_ID :: int
  cr_TaskID :: bytes
  cr_UserID :: bytes
  cr_Body :: string
  cr_CreatedAt :: time

record database =
  users :: "userRow list"
  teams :: "teamRow list"
  team_members :: "memberRow list"
  tasks :: "taskRow list"
  task_history :: "historyRow list"
  task_comments :: "commentRow list"

definition empty_database :: database where
  "empty_database =
     \<lparr>users = [], teams = [], team_members = [], tasks = [], task_history = [], task_comments = []\<rparr>"

section \<open>The server\<close>

datatype fault = NoFault | LostBefore string | LostAfter string

datatype coltype = Varchar nat | TextCol

record server =
  srv_fault :: "nat \<Rightarrow> fault"
  srv_order :: "nat \<Rightarrow> nat \<Rightarrow> nat"
  srv_now :: "nat \<Rightarrow> time"
  srv_autoinc :: "nat \<Rightarrow> int"
  srv_text :: "coltype \<Rightarrow> string \<Rightarrow> string option"
  srv_enum :: "string list \<Rightarrow> string \<Rightarrow> nat option"
  srv_datetime :: "time \<Rightarrow> time"
  srv_date :: "time \<Rightarrow> time"
  srv_collate :: "string \<Rightarrow> string"
  srv_message :: "nat \<Rightarrow> string"
  srv_limit_errno :: nat

definition mysql_error :: "server \<Rightarrow> nat \<Rightarrow> err" where
  "mysql_error srv n = MySQLError n (srv_message srv n)"

text \<open>The rows of a table in the order in which call \<open>k\<close> visits them: some permutation.\<close>

definition visit :: "server \<Rightarrow> nat \<Rightarrow> 'a list \<Rightarrow> 'a list" where
  "visit srv k xs = map ((!) xs) (sort_key (srv_order srv k) [0..<length xs])"

text \<open>
  Assignment to a column.  A string that does not fit fails with number 1406, a value that
  is no member of an ENUM with 1265 (strict mode), a BINARY(16) value is padded with zeros.
\<close>

definition col_text :: "server \<Rightarrow> coltype \<Rightarrow> string \<Rightarrow> err + string" where
  "col_text srv t s = (case srv_text srv t s of None \<Rightarrow> Inl (mysql_error srv 1406) | Some v \<Rightarrow> Inr v)"

definition col_text_null :: "server \<Rightarrow> coltype \<Rightarrow> string option \<Rightarrow> err + string option" where
  "col_text_null srv t v = (case v of None \<Rightarrow> Inr None | Some s \<Rightarrow> and_then (col_text srv t s) (\<lambda>x. Inr (Some x)))"

definition col_enum :: "server \<Rightarrow> string list \<Rightarrow> string \<Rightarrow> err + string" where
  "col_enum srv vs s =
     (case srv_enum srv vs s of
        Some i \<Rightarrow> if i < length vs then Inr (vs ! i) else Inl (mysql_error srv 1265)
      | None \<Rightarrow> Inl (mysql_error srv 1265))"

definition col_binary16 :: "server \<Rightarrow> bytes \<Rightarrow> err + bytes" where
  "col_binary16 srv b =
     (if length b \<le> 16 then Inr (b @ replicate (16 - length b) 0) else Inl (mysql_error srv 1406))"

definition roles :: "string list" where
  "roles = [''owner'', ''admin'', ''member'']"

definition task_statuses :: "string list" where
  "task_statuses = [''todo'', ''in_progress'', ''done'']"

definition task_priorities :: "string list" where
  "task_priorities = [''low'', ''medium'', ''high'']"

section \<open>Inserts and updates\<close>

text \<open>Duplicate keys are error 1062, a missing foreign-key parent is error 1452.\<close>

definition insert_users :: "server \<Rightarrow> userRow \<Rightarrow> database \<Rightarrow> err + database" where
  "insert_users srv r d =
     and_then (col_binary16 srv (ur_ID r)) (\<lambda>i.
     and_then (col_text srv (Varchar 255) (ur_Email r)) (\<lambda>email.
     and_then (col_text srv (Varchar 255) (ur_Name r)) (\<lambda>name.
     and_then (col_text srv (Varchar 255) (ur_Password r)) (\<lambda>pw.
       if i \<in> ur_ID ` set (users d)
          \<or> srv_collate srv email \<in> (srv_collate srv \<circ> ur_Email) ` set (users d)
       then Inl (mysql_error srv 1062)
       else Inr (d\<lparr>users := users d @
              [\<lparr>ur_ID = i, ur_Email = email, ur_Name = name, ur_Password = pw,
                ur_CreatedAt = srv_datetime srv (ur_CreatedAt r)\<rparr>]\<rparr>)))))"

definition insert_teams :: "server \<Rightarrow> teamRow \<Rightarrow> database \<Rightarrow> err + database" where
  "insert_teams srv r d =
     and_then (col_binary16 srv (tr_ID r)) (\<lambda>i.
     and_then (col_text srv (Varchar 255) (tr_Name r)) (\<lambda>name.
       if i \<in> tr_ID ` set (teams d) then Inl (mysql_error srv 1062)
       else if tr_CreatedBy r \<notin> ur_ID ` set (users d) then Inl (mysql_error srv 1452)
       else Inr (d\<lparr>teams := teams d @
              [\<lparr>tr_ID = i, tr_Name = name, tr_CreatedBy = tr_CreatedBy r,
                tr_CreatedAt = srv_datetime srv (tr_CreatedAt r)\<rparr>]\<rparr>)))"

definition member_parents :: "database \<Rightarrow> bytes \<Rightarrow> bytes \<Rightarrow> bool" where
  "member_parents d t u \<longleftrightarrow> t \<in> tr_ID ` set (teams d) \<and> u \<in> ur_ID ` set (users d)"

definition insert_team_members :: "server \<Rightarrow> nat \<Rightarrow> bytes \<Rightarrow> bytes \<Rightarrow> string \<Rightarrow> database \<Rightarrow> err + database" where
  "insert_team_members srv k t u role d =
     and_then (col_enum srv roles role) (\<lambda>v.
       if (\<exists>r \<in> set (team_members d). mr_TeamID r = t \<and> mr_UserID r = u) then Inl (mysql_error srv 1062)
       else if \<not> member_parents d t u then Inl (mysql_error srv 1452)
       else Inr (d\<lparr>team_members := team_members d @
              [\<lparr>mr_TeamID = t, mr_UserID = u, mr_Role = v, mr_JoinedAt = srv_datetime srv (srv_now srv k)\<rparr>]\<rparr>))"

text \<open>\<open>ON DUPLICATE KEY UPDATE role = VALUES(role)\<close>.\<close>

definition upsert_team_members :: "server \<Rightarrow> nat \<Rightarrow> bytes \<Rightarrow> bytes \<Rightarrow> string \<Rightarrow> database \<Rightarrow> err + database" where
  "upsert_team_members srv k t u role d =
     and_then (col_enum srv roles role) (\<lambda>v.
       if (\<exists>r \<in> set (team_members d). mr_TeamID r = t \<and> mr_UserID r = u)
       then Inr (d\<lparr>team_members :=
              map (\<lambda>r. if mr_TeamID r = t \<and> mr_UserID r = u then r\<lparr>mr_Role := v\<rparr> else r) (team_members d)\<rparr>)
       else if \<not> member_parents d t u then Inl (mysql_error srv 1452)
       else Inr (d\<lparr>team_members := team_members d @
              [\<lparr>mr_TeamID = t, mr_UserID = u, mr_Role = v, mr_JoinedAt = srv_datetime srv (srv_now srv k)\<rparr>]\<rparr>))"

text \<open>The columns that INSERT and UPDATE of \<open>tasks\<close> both convert.\<close>

definition task_columns :: "server \<Rightarrow> taskRow \<Rightarrow> err + taskRow" where
  "task_columns srv r =
     and_then (col_text srv (Varchar 500) (tk_Title r)) (\<lambda>title.
     and_then (col_text_null srv TextCol (tk_Description r)) (\<lambda>descr.
     and_then (col_enum srv task_statuses (tk_Status r)) (\<lambda>st.
     and_then (col_enum srv task_priorities (tk_Priority r)) (\<lambda>pr.
       Inr (r\<lparr>tk_Title := title, tk_Description := descr, tk_Status := st, tk_Priority := pr,
              tk_DueDate := map_option (srv_date srv) (tk_DueDate r),
              tk_CreatedAt := srv_datetime srv (tk_CreatedAt r),
              tk_UpdatedAt := srv_datetime srv (tk_UpdatedAt r)\<rparr>)))))"

definition assignee_parent :: "database \<Rightarrow> bytes option \<Rightarrow> bool" where
  "assignee_parent d a \<longleftrightarrow> (case a of None \<Rightarrow> True | Some u \<Rightarrow> u \<in> ur_ID ` set (users d))"

definition insert_tasks :: "server \<Rightarrow> taskRow \<Rightarrow> database \<Rightarrow> err + database" where
  "insert_tasks srv r d =
     and_then (col_binary16 srv (tk_ID r)) (\<lambda>i.
     and_then (task_columns srv r) (\<lambda>v.
       if i \<in> tk_ID ` set (tasks d) then Inl (mysql_error srv 1062)
       else if \<not> (member_parents d (tk_TeamID r) (tk_CreatedBy r) \<and> assignee_parent d (tk_AssigneeID r))
       then Inl (mysql_error srv 1452)
       else Inr (d\<lparr>tasks := tasks d @ [v\<lparr>tk_ID := i\<rparr>]\<rparr>)))"

definition set_task_columns :: "taskRow \<Rightarrow> taskRow \<Rightarrow> taskRow" where
  "set_task_columns v x =
     x\<lparr>tk_AssigneeID := tk_AssigneeID v, tk_Title := tk_Title v, tk_Description := tk_Description v,
       tk_Status := tk_Status v, tk_Priority := tk_Priority v, tk_DueDate := tk_DueDate v,
       tk_UpdatedAt := tk_UpdatedAt v\<rparr>"

definition update_tasks :: "server \<Rightarrow> taskRow \<Rightarrow> database \<Rightarrow> err + database" where
  "update_tasks srv r d =
     and_then (task_columns srv r) (\<lambda>v.
       if (\<exists>x \<in> set (tasks d). tk_ID x = tk_ID r) \<and> \<not> assignee_parent d (tk_AssigneeID r)
       then Inl (mysql_error srv 1452)
       else Inr (d\<lparr>tasks := map (\<lambda>x. if tk_ID x = tk_ID r then set_task_columns v x else x) (tasks d)\<rparr>))"

definition insert_task_history :: "server \<Rightarrow> nat \<Rightarrow> historyRow \<Rightarrow> database \<Rightarrow> err + database" where
  "insert_task_history srv k r d =
     and_then (col_text srv (Varchar 100) (hr_Field r)) (\<lambda>field.
     and_then (col_text_null srv TextCol (hr_OldValue r)) (\<lambda>old.
     and_then (col_text_null srv TextCol (hr_NewValue r)) (\<lambda>nw.
       if hr_TaskID r \<notin> tk_ID ` set (tasks d) \<or> hr_ChangedBy r \<notin> ur_ID ` set (users d)
       then Inl (mysql_error srv 1452)
       else Inr (d\<lparr>task_history := task_history d @
              [\<lparr>hr_ID = srv_autoinc srv k, hr_TaskID = hr_TaskID r, hr_ChangedBy = hr_ChangedBy r,
                hr_Field = field, hr_OldValue = old, hr_NewValue = nw,
                hr_ChangedAt = srv_datetime srv (hr_ChangedAt r)\<rparr>]\<rparr>))))"

definition insert_task_comments :: "server \<Rightarrow> nat \<Rightarrow> bytes \<Rightarrow> bytes \<Rightarrow> string \<Rightarrow> database \<Rightarrow> err + database" where
  "insert_task_comments srv k t u body d =
     and_then (col_text srv TextCol body) (\<lambda>b.
       if t \<notin> tk_ID ` set (tasks d) \<or> u \<notin> ur_ID ` set (users d) then Inl (mysql_error srv 1452)
       else Inr (d\<lparr>task_comments := task_comments d @
              [\<lparr>cr_ID = srv_autoinc srv k, cr_TaskID = t, cr_UserID = u, cr_Body = b,
                cr_CreatedAt = srv_datetime srv (srv_now srv k)\<rparr>]\<rparr>))"

section \<open>Integrity of the stored data\<close>

text \<open>
  What the keys, foreign keys and column types of the schema promise of every table.  Row
  identifiers assigned by AUTO_INCREMENT before call \<open>n\<close> are values of calls below \<open>n\<close>.
\<close>

definition users_ok :: "server \<Rightarrow> database \<Rightarrow> bool" where
  "users_ok srv d \<longleftrightarrow>
     distinct (map ur_ID (users d)) \<and>
     distinct (map (srv_collate srv \<circ> ur_Email) (users d)) \<and>
     (\<forall>r \<in> set (users d). length (ur_ID r) = 16)"

definition teams_ok :: "database \<Rightarrow> bool" where
  "teams_ok d \<longleftrightarrow>
     distinct (map tr_ID (teams d)) \<and>
     (\<forall>r \<in> set (teams d). length (tr_ID r) = 16 \<and> tr_CreatedBy r \<in> ur_ID ` set (users d))"

definition members_ok :: "database \<Rightarrow> bool" where
  "members_ok d \<longleftrightarrow>
     distinct (map (\<lambda>r. (mr_TeamID r, mr_UserID r)) (team_members d)) \<and>
     (\<forall>r \<in> set (team_members d). member_parents d (mr_TeamID r) (mr_UserID r) \<and> mr_Role r \<in> set roles)"

definition task_row_ok :: "database \<Rightarrow> taskRow \<Rightarrow> bool" where
  "task_row_ok d r \<longleftrightarrow>
     length (tk_ID r) = 16 \<and> member_parents d (tk_TeamID r) (tk_CreatedBy r) \<and>
     assignee_parent d (tk_AssigneeID r) \<and>
     tk_Status r \<in> set task_statuses \<and> tk_Priority r \<in> set task_priorities"

definition tasks_ok :: "database \<Rightarrow> bool" where
  "tasks_ok d \<longleftrightarrow> distinct (map tk_ID (tasks d)) \<and> (\<forall>r \<in> set (tasks d). task_row_ok d r)"

definition history_ok :: "server \<Rightarrow> nat \<Rightarrow> database \<Rightarrow> bool" where
  "history_ok srv n d \<longleftrightarrow>
     distinct (map hr_ID (task_history d)) \<and>
     (\<forall>r \<in> set (task_history d). hr_ID r \<in> srv_autoinc srv ` {..<n} \<and>
        hr_TaskID r \<in> tk_ID ` set (tasks d) \<and> hr_ChangedBy r \<in> ur_ID ` set (users d))"

definition comments_ok :: "server \<Rightarrow> nat \<Rightarrow> database \<Rightarrow> bool" where
  "comments_ok srv n d \<longleftrightarrow>
     distinct (map cr_ID (task_comments d)) \<and>
     (\<forall>r \<in> set (task_comments d). cr_ID r \<in> srv_autoinc srv ` {..<n} \<and>
        cr_TaskID r \<in> tk_ID ` set (tasks d) \<and> cr_UserID r \<in> ur_ID ` set (users d))"

definition db_ok :: "server \<Rightarrow> nat \<Rightarrow> database \<Rightarrow> bool" where
  "db_ok srv n d \<longleftrightarrow>
     users_ok srv d \<and> teams_ok d \<and> members_ok d \<and> tasks_ok d \<and> history_ok srv n d \<and> comments_ok srv n d"

text \<open>
  What the program relies on of the server.  Documented of AUTO_INCREMENT: a later row gets a
  larger value; of ENUM columns: a string that is a member of the type denotes that member; of
  VARCHAR columns: a string that fits is stored as it is.
\<close>

definition autoinc_grows :: "server \<Rightarrow> bool" where
  "autoinc_grows srv \<longleftrightarrow> strict_mono (srv_autoinc srv)"

definition enum_exact :: "server \<Rightarrow> bool" where
  "enum_exact srv \<longleftrightarrow>
     (\<forall>vs \<in> set [roles, task_statuses, task_priorities]. \<forall>i < length vs. srv_enum srv vs (vs ! i) = Some i)"

definition text_kept :: "server \<Rightarrow> bool" where
  "text_kept srv \<longleftrightarrow> (\<forall>n s v. length s \<le> n \<longrightarrow> srv_text srv (Varchar n) s = Some v \<longrightarrow> v = s)"

definition server_laws :: "server \<Rightarrow> bool" where
  "server_laws srv \<longleftrightarrow> autoinc_grows srv \<and> enum_exact srv \<and> text_kept srv"

text \<open>
  A server that loses no connection, visits rows in storage order, and converts nothing but
  refuses what does not fit.
\<close>

fun enum_index :: "string list \<Rightarrow> string \<Rightarrow> nat option" where
  "enum_index [] s = None"
| "enum_index (v # vs) s = (if v = s then Some 0 else map_option Suc (enum_index vs s))"

definition plain_server :: server where
  "plain_server =
     \<lparr>srv_fault = (\<lambda>_. NoFault), srv_order = (\<lambda>_ i. i), srv_now = int, srv_autoinc = (\<lambda>n. int n + 1),
      srv_text = (\<lambda>t s. (case t of Varchar n \<Rightarrow> if length s \<le> n then Some s else None
        | TextCol \<Rightarrow> if int (length s) \<le> 65535 then Some s else None)),
      srv_enum = enum_index, srv_datetime = (\<lambda>t. t), srv_date = (\<lambda>t. t), srv_collate = (\<lambda>s. s),
      srv_message = (\<lambda>_. ''error''), srv_limit_errno = 1064\<rparr>"

lemmas row_ok_defs = users_ok_def teams_ok_def members_ok_def tasks_ok_def task_row_ok_def
  history_ok_def comments_ok_def member_parents_def

section \<open>Columns and row order\<close>

lemma mset_visit [simp]: "mset (visit srv k xs) = mset xs"
proof -
  have "mset (visit srv k xs) = image_mset ((!) xs) (mset [0..<length xs])"
    by (simp add: visit_def)
  also have "\<dots> = mset (map ((!) xs) [0..<length xs])" by simp
  finally show ?thesis by (simp add: map_nth)
qed

lemma set_visit [simp]: "set (visit srv k xs) = set xs"
  by (metis mset_visit set_mset_mset)

lemma length_visit [simp]: "length (visit srv k xs) = length xs"
  by (metis mset_visit size_mset)

lemma visit_map: "visit srv k (map f xs) = map f (visit srv k xs)"
  by (auto simp: visit_def)

lemma mset_filter_visit: "mset (filter P (visit srv k xs)) = mset (filter P xs)"
  by simp

lemma filter_visit_singleton:
  assumes "distinct (map f xs)" and "x \<in> set xs"
  shows "filter (\<lambda>y. f y = f x) (visit srv k xs) = [x]"
proof -
  have "mset (filter (\<lambda>y. f y = f x) (visit srv k xs)) = {#x#}"
    unfolding mset_filter_visit filter_singleton [OF assms] by simp
  then show ?thesis unfolding mset_single_eq .
qed

lemma filter_visit_Nil [simp]: "filter P (visit srv k xs) = [] \<longleftrightarrow> (\<forall>x \<in> set xs. \<not> P x)"
  by (simp add: filter_empty_conv)

lemma filter_visit_Cons:
  assumes "filter P (visit srv k xs) = r # rs"
  shows "r \<in> set xs" and "P r"
proof -
  have "r \<in> set (filter P (visit srv k xs))" using assms by simp
  then show "r \<in> set xs" and "P r" by simp_all
qed

lemma col_enum_set: "col_enum srv vs s = Inr v \<Longrightarrow> v \<in> set vs"
  by (auto simp: col_enum_def split: option.splits if_splits)

lemma col_binary16_length: "col_binary16 srv b = Inr i \<Longrightarrow> length i = 16"
  by (auto simp: col_binary16_def split: if_splits)

lemma col_binary16_uuid [simp]: "col_binary16 srv (uuid_bytes u) = Inr (uuid_bytes u)"
  by (simp add: col_binary16_def)

lemma col_enum_exact: "enum_exact srv \<Longrightarrow> vs \<in> {roles, task_statuses, task_priorities} \<Longrightarrow> s \<in> set vs \<Longrightarrow>
  col_enum srv vs s = Inr s"
  unfolding enum_exact_def col_enum_def in_set_conv_nth by (auto split: option.splits)

lemma server_laws_plain: "server_laws plain_server"
proof -
  have "\<forall>i < length vs. srv_enum plain_server vs (vs ! i) = Some i"
    if "vs \<in> set [roles, task_statuses, task_priorities]" for vs
    using that by (auto simp: plain_server_def roles_def task_statuses_def task_priorities_def less_Suc_eq)
  then show ?thesis
    by (simp add: server_laws_def autoinc_grows_def enum_exact_def text_kept_def plain_server_def strict_mono_def)
qed

lemma task_columns_ids:
  assumes "task_columns srv r = Inr v"
  shows "tk_ID v = tk_ID r" and "tk_TeamID v = tk_TeamID r" and "tk_CreatedBy v = tk_CreatedBy r"
    and "tk_AssigneeID v = tk_AssigneeID r"
    and "tk_Status v \<in> set task_statuses" and "tk_Priority v \<in> set task_priorities"
  using assms by (auto simp: task_columns_def dest: col_enum_set)

section \<open>Every statement keeps the integrity\<close>

lemma db_ok_mono:
  assumes "db_ok srv n d" and "n \<le> m"
  shows "db_ok srv m d"
proof -
  have "srv_autoinc srv ` {..<n} \<subseteq> srv_autoinc srv ` {..<m}" using assms(2) by auto
  with assms(1) show ?thesis unfolding db_ok_def history_ok_def comments_ok_def by blast
qed

lemma db_ok_Suc: "db_ok srv n d \<Longrightarrow> db_ok srv (Suc n) d"
  by (erule db_ok_mono) simp

lemma autoinc_fresh: "autoinc_grows srv \<Longrightarrow> srv_autoinc srv n \<notin> srv_autoinc srv ` {..<n}"
  unfolding autoinc_grows_def by (auto dest: strict_monoD)

lemma autoinc_Suc: "x \<in> srv_autoinc srv ` {..<n} \<Longrightarrow> x \<in> srv_autoinc srv ` {..<Suc n}"
  by auto

lemma member_parents_frame [simp]:
  "member_parents (d\<lparr>team_members := ms\<rparr>) = member_parents d"
  "member_parents (d\<lparr>tasks := ts\<rparr>) = member_parents d"
  "member_parents (d\<lparr>task_history := hs\<rparr>) = member_parents d"
  "member_parents (d\<lparr>task_comments := cs\<rparr>) = member_parents d"
  by (simp_all add: member_parents_def fun_eq_iff)

lemma assignee_parent_frame [simp]:
  "assignee_parent (d\<lparr>teams := ts\<rparr>) = assignee_parent d"
  "assignee_parent (d\<lparr>team_members := ms\<rparr>) = assignee_parent d"
  "assignee_parent (d\<lparr>tasks := ks\<rparr>) = assignee_parent d"
  "assignee_parent (d\<lparr>task_history := hs\<rparr>) = assignee_parent d"
  "assignee_parent (d\<lparr>task_comments := cs\<rparr>) = assignee_parent d"
  by (simp_all add: assignee_parent_def fun_eq_iff split: option.split)

lemma task_row_ok_frame [simp]:
  "task_row_ok (d\<lparr>team_members := ms\<rparr>) = task_row_ok d"
  "task_row_ok (d\<lparr>tasks := ks\<rparr>) = task_row_ok d"
  "task_row_ok (d\<lparr>task_history := hs\<rparr>) = task_row_ok d"
  "task_row_ok (d\<lparr>task_comments := cs\<rparr>) = task_row_ok d"
  by (simp_all add: task_row_ok_def fun_eq_iff)

lemma table_frame [simp]:
  "users_ok srv (d\<lparr>teams := ts\<rparr>) = users_ok srv d"
  "users_ok srv (d\<lparr>team_members := ms\<rparr>) = users_ok srv d"
  "users_ok srv (d\<lparr>tasks := ks\<rparr>) = users_ok srv d"
  "users_ok srv (d\<lparr>task_history := hs\<rparr>) = users_ok srv d"
  "users_ok srv (d\<lparr>task_comments := cs\<rparr>) = users_ok srv d"
  "teams_ok (d\<lparr>team_members := ms\<rparr>) = teams_ok d"
  "teams_ok (d\<lparr>tasks := ks\<rparr>) = teams_ok d"
  "teams_ok (d\<lparr>task_history := hs\<rparr>) = teams_ok d"
  "teams_ok (d\<lparr>task_comments := cs\<rparr>) = teams_ok d"
  "members_ok (d\<lparr>tasks := ks\<rparr>) = members_ok d"
  "members_ok (d\<lparr>task_history := hs\<rparr>) = members_ok d"
  "members_ok (d\<lparr>task_comments := cs\<rparr>) = members_ok d"
  "tasks_ok (d\<lparr>team_members := ms\<rparr>) = tasks_ok d"
  "tasks_ok (d\<lparr>task_history := hs\<rparr>) = tasks_ok d"
  "tasks_ok (d\<lparr>task_comments := cs\<rparr>) = tasks_ok d"
  "history_ok srv n (d\<lparr>teams := ts\<rparr>) = history_ok srv n d"
  "history_ok srv n (d\<lparr>team_members := ms\<rparr>) = history_ok srv n d"
  "history_ok srv n (d\<lparr>task_comments := cs\<rparr>) = history_ok srv n d"
  "comments_ok srv n (d\<lparr>teams := ts\<rparr>) = comments_ok srv n d"
  "comments_ok srv n (d\<lparr>team_members := ms\<rparr>) = comments_ok srv n d"
  "comments_ok srv n (d\<lparr>task_history := hs\<rparr>) = comments_ok srv n d"
  by (simp_all add: users_ok_def teams_ok_def members_ok_def tasks_ok_def history_ok_def comments_ok_def)

lemma db_ok_empty: "db_ok srv n empty_database"
  by (simp add: db_ok_def row_ok_defs empty_database_def)

lemma db_ok_append_user:
  assumes "db_ok srv n d" and "length (ur_ID v) = 16" and "ur_ID v \<notin> ur_ID ` set (users d)"
    and "srv_collate srv (ur_Email v) \<notin> (srv_collate srv \<circ> ur_Email) ` set (users d)"
  shows "db_ok srv n (d\<lparr>users := users d @ [v]\<rparr>)" (is "db_ok srv n ?d")
proof -
  have parents: "member_parents d t u \<Longrightarrow> member_parents ?d t u" for t u
    by (simp add: member_parents_def)
  have assignee: "assignee_parent d a \<Longrightarrow> assignee_parent ?d a" for a
    by (simp add: assignee_parent_def split: option.splits)
  have "users_ok srv ?d" using assms by (simp add: db_ok_def users_ok_def)
  moreover have "teams_ok ?d" using assms(1) by (simp add: db_ok_def teams_ok_def)
  moreover have "members_ok ?d" using assms(1) parents by (simp add: db_ok_def members_ok_def)
  moreover have "tasks_ok ?d" using assms(1) parents assignee
    by (simp add: db_ok_def tasks_ok_def task_row_ok_def)
  moreover have "history_ok srv n ?d" using assms(1) by (simp add: db_ok_def history_ok_def)
  moreover have "comments_ok srv n ?d" using assms(1) by (simp add: db_ok_def comments_ok_def)
  ultimately show ?thesis by (simp add: db_ok_def)
qed

lemma db_ok_append_team:
  assumes "db_ok srv n d" and "length (tr_ID v) = 16" and "tr_ID v \<notin> tr_ID ` set (teams d)"
    and "tr_CreatedBy v \<in> ur_ID ` set (users d)"
  shows "db_ok srv n (d\<lparr>teams := teams d @ [v]\<rparr>)" (is "db_ok srv n ?d")
proof -
  have parents: "member_parents d t u \<Longrightarrow> member_parents ?d t u" for t u
    by (simp add: member_parents_def)
  have "teams_ok ?d" using assms by (simp add: db_ok_def teams_ok_def)
  moreover have "members_ok ?d" using assms(1) parents by (simp add: db_ok_def members_ok_def)
  moreover have "tasks_ok ?d" using assms(1) parents by (simp add: db_ok_def tasks_ok_def task_row_ok_def)
  ultimately show ?thesis using assms(1) by (simp add: db_ok_def)
qed

lemma db_ok_append_task:
  assumes "db_ok srv n d" and "task_row_ok d v" and "tk_ID v \<notin> tk_ID ` set (tasks d)"
  shows "db_ok srv n (d\<lparr>tasks := tasks d @ [v]\<rparr>)"
  using assms by (simp add: db_ok_def tasks_ok_def history_ok_def comments_ok_def)

lemma db_ok_lengths:
  assumes "db_ok srv n d"
  shows "u \<in> ur_ID ` set (users d) \<Longrightarrow> length u = 16"
    and "t \<in> tr_ID ` set (teams d) \<Longrightarrow> length t = 16"
    and "k \<in> tk_ID ` set (tasks d) \<Longrightarrow> length k = 16"
    and "assignee_parent d (Some a) \<Longrightarrow> length a = 16"
  using assms
  by (auto simp: db_ok_def users_ok_def teams_ok_def tasks_ok_def task_row_ok_def assignee_parent_def)

lemma insert_users_ok:
  assumes "db_ok srv n d" and "insert_users srv r d = Inr d'"
  shows "db_ok srv n d'"
  using assms unfolding insert_users_def
  by (auto simp del: image_comp split: if_splits dest: col_binary16_length intro!: db_ok_append_user)

lemma insert_teams_ok:
  assumes "db_ok srv n d" and "insert_teams srv r d = Inr d'"
  shows "db_ok srv n d'"
  using assms unfolding insert_teams_def
  by (auto split: if_splits dest: col_binary16_length intro!: db_ok_append_team)

lemma insert_team_members_ok:
  assumes "db_ok srv n d" and "insert_team_members srv k t u role d = Inr d'"
  shows "db_ok srv n d'"
proof -
  from assms(2) obtain v where "col_enum srv roles role = Inr v" and parents: "member_parents d t u"
    and fresh: "\<forall>r \<in> set (team_members d). \<not> (mr_TeamID r = t \<and> mr_UserID r = u)"
    and d': "d' = d\<lparr>team_members := team_members d @
      [\<lparr>mr_TeamID = t, mr_UserID = u, mr_Role = v, mr_JoinedAt = srv_datetime srv (srv_now srv k)\<rparr>]\<rparr>"
    unfolding insert_team_members_def by (auto split: if_splits)
  then have "v \<in> set roles" by (blast dest: col_enum_set)
  with assms(1) parents fresh show ?thesis
    unfolding d' db_ok_def by (auto simp: members_ok_def)
qed

lemma upsert_team_members_ok:
  assumes ok: "db_ok srv n d" and up: "upsert_team_members srv k t u role d = Inr d'"
  shows "db_ok srv n d'"
proof (cases "\<exists>r \<in> set (team_members d). mr_TeamID r = t \<and> mr_UserID r = u")
  case True
  let ?f = "\<lambda>v r. if mr_TeamID r = t \<and> mr_UserID r = u then r\<lparr>mr_Role := v\<rparr> else r"
  from up True obtain v where "col_enum srv roles role = Inr v"
    and d': "d' = d\<lparr>team_members := map (?f v) (team_members d)\<rparr>"
    unfolding upsert_team_members_def by (auto simp del: map_eq_conv)
  then have v: "v \<in> set roles" by (blast dest: col_enum_set)
  have keys: "(\<lambda>r. (mr_TeamID r, mr_UserID r)) \<circ> ?f v = (\<lambda>r. (mr_TeamID r, mr_UserID r))"
    by (simp add: fun_eq_iff)
  from ok have "members_ok d'"
    unfolding d' db_ok_def members_ok_def by (auto simp: keys v)
  with ok show ?thesis unfolding d' db_ok_def by simp
next
  case False
  with up have "insert_team_members srv k t u role d = Inr d'"
    by (simp add: upsert_team_members_def insert_team_members_def)
  with ok show ?thesis by (rule insert_team_members_ok)
qed

lemma insert_tasks_ok:
  assumes ok: "db_ok srv n d" and ins: "insert_tasks srv r d = Inr d'"
  shows "db_ok srv n d'"
proof -
  from ins obtain i v where i: "col_binary16 srv (tk_ID r) = Inr i" and v: "task_columns srv r = Inr v"
    and fresh: "i \<notin> tk_ID ` set (tasks d)"
    and parents: "member_parents d (tk_TeamID r) (tk_CreatedBy r)" "assignee_parent d (tk_AssigneeID r)"
    and d': "d' = d\<lparr>tasks := tasks d @ [v\<lparr>tk_ID := i\<rparr>]\<rparr>"
    unfolding insert_tasks_def by (auto split: if_splits)
  have "task_row_ok d (v\<lparr>tk_ID := i\<rparr>)"
    using parents task_columns_ids [OF v] col_binary16_length [OF i] by (simp add: task_row_ok_def)
  with ok fresh show ?thesis unfolding d' by (simp add: db_ok_append_task)
qed

lemma update_tasks_ok:
  assumes ok: "db_ok srv n d" and up: "update_tasks srv r d = Inr d'"
  shows "db_ok srv n d'"
proof -
  let ?f = "\<lambda>v x. if tk_ID x = tk_ID r then set_task_columns v x else x"
  from up obtain v where v: "task_columns srv r = Inr v"
    and parent: "(\<exists>x \<in> set (tasks d). tk_ID x = tk_ID r) \<longrightarrow> assignee_parent d (tk_AssigneeID r)"
    and d': "d' = d\<lparr>tasks := map (?f v) (tasks d)\<rparr>"
    unfolding update_tasks_def by (auto simp del: map_eq_conv split: if_splits)
  have ids: "tk_ID \<circ> ?f v = tk_ID" by (simp add: fun_eq_iff set_task_columns_def)
  then have "map tk_ID (tasks d') = map tk_ID (tasks d)" unfolding d' by simp
  then have img: "tk_ID ` set (tasks d') = tk_ID ` set (tasks d)" by (metis set_map)
  have "task_row_ok d (set_task_columns v x)"
    if "task_row_ok d x" and "x \<in> set (tasks d)" and "tk_ID x = tk_ID r" for x
    using that parent task_columns_ids [OF v] by (auto simp: task_row_ok_def set_task_columns_def)
  with ok have "tasks_ok d'"
    unfolding d' db_ok_def tasks_ok_def by (auto simp: ids)
  moreover from ok img have "history_ok srv n d'" "comments_ok srv n d'"
    unfolding db_ok_def history_ok_def comments_ok_def by (simp_all add: d')
  ultimately show ?thesis using ok unfolding db_ok_def by (simp add: d')
qed

lemma insert_task_history_ok:
  assumes "autoinc_grows srv" and "db_ok srv n d" and "insert_task_history srv n r d = Inr d'"
  shows "db_ok srv (Suc n) d'"
proof -
  have fresh: "srv_autoinc srv n \<notin> hr_ID ` set (task_history d)"
    using assms(2) autoinc_fresh [OF assms(1), of n] unfolding db_ok_def history_ok_def by fastforce
  have ok: "db_ok srv (Suc n) d" using assms(2) by (rule db_ok_mono) simp
  from assms(3) fresh ok show ?thesis
    unfolding insert_task_history_def db_ok_def
    by (auto simp: history_ok_def split: if_splits)
qed

lemma insert_task_comments_ok:
  assumes "autoinc_grows srv" and "db_ok srv n d" and "insert_task_comments srv n t u b d = Inr d'"
  shows "db_ok srv (Suc n) d'"
proof -
  have fresh: "srv_autoinc srv n \<notin> cr_ID ` set (task_comments d)"
    using assms(2) autoinc_fresh [OF assms(1), of n] unfolding db_ok_def comments_ok_def by fastforce
  have ok: "db_ok srv (Suc n) d" using assms(2) by (rule db_ok_mono) simp
  from assms(3) fresh ok show ?thesis
    unfolding insert_task_comments_def db_ok_def
    by (auto simp: comments_ok_def split: if_splits)
qed

end
