(* ===== verification/World.thy ===== *)
theory World
  imports Database
begin

text \<open>
  The state the running service shares with the outside: the database, the transaction that
  is open on it, the Redis key space, the requests sent to the e-mail service, and the number
  of external calls made so far.  Every call to a library that talks to the outside
  advances that number, and the parameters that describe the outside are indexed by it.

  This theory also gives the meaning of the \<open>database/sql\<close> calls of the storages:
  \<open>ExecContext\<close>, \<open>SelectContext\<close>, \<open>GetContext\<close> on the pool, and \<open>BeginTxx\<close>,
  \<open>ExecContext\<close>, \<open>Commit\<close> and \<open>Rollback\<close> of a transaction.  A call may lose its
  connection before or after the server has acted.
\<close>

record email =
  mail_url :: string
  mail_to :: string
  mail_team :: string

record world =
  db :: database
  tx :: "database option"
  redis :: "(string \<times> bytes \<times> time option) list"
  outbox :: "email list"
  tick :: nat

definition advance :: "world \<Rightarrow> world" where
  "advance w = w\<lparr>tick := Suc (tick w)\<rparr>"

section \<open>Calls on the connection pool\<close>

definition db_Exec :: "server \<Rightarrow> (nat \<Rightarrow> database \<Rightarrow> err + database) \<Rightarrow> (world, unit) op" where
  "db_Exec srv stmt = State (\<lambda>w.
     let w' = advance w; r = stmt (tick w) (db w) in
     case srv_fault srv (tick w) of
       NoFault \<Rightarrow> (case r of Inl e \<Rightarrow> (Inl e, w') | Inr d \<Rightarrow> (Inr (), w'\<lparr>db := d\<rparr>))
     | LostBefore m \<Rightarrow> (Inl (DriverErr m), w')
     | LostAfter m \<Rightarrow> (Inl (DriverErr m), case r of Inl e \<Rightarrow> w' | Inr d \<Rightarrow> w'\<lparr>db := d\<rparr>))"

text \<open>The result of a statement that also reports the row's AUTO_INCREMENT value.\<close>

definition db_Exec_id :: "server \<Rightarrow> (nat \<Rightarrow> database \<Rightarrow> err + database) \<Rightarrow> (world, int) op" where
  "db_Exec_id srv stmt = do {
     w \<leftarrow> State_Monad.get;
     r \<leftarrow> db_Exec srv stmt;
     State_Monad.return (case r of Inl e \<Rightarrow> Inl e | Inr _ \<Rightarrow> Inr (srv_autoinc srv (tick w))) }"

definition db_Select :: "server \<Rightarrow> (nat \<Rightarrow> database \<Rightarrow> err + 'a list) \<Rightarrow> (world, 'a list) op" where
  "db_Select srv query = State (\<lambda>w.
     case srv_fault srv (tick w) of
       NoFault \<Rightarrow> (query (tick w) (db w), advance w)
     | LostBefore m \<Rightarrow> (Inl (DriverErr m), advance w)
     | LostAfter m \<Rightarrow> (Inl (DriverErr m), advance w))"

definition db_Get :: "server \<Rightarrow> (nat \<Rightarrow> database \<Rightarrow> err + 'a list) \<Rightarrow> (world, 'a) op" where
  "db_Get srv query = do {
     r \<leftarrow> db_Select srv query;
     State_Monad.return (case r of
         Inl e \<Rightarrow> Inl e
       | Inr [] \<Rightarrow> Inl (Sentinel ErrNoRows)
       | Inr (x # _) \<Rightarrow> Inr x) }"

section \<open>Transactions\<close>

text \<open>
  An open transaction works on its own copy of the tables; \<open>Commit\<close> publishes the copy and
  \<open>Rollback\<close> drops it (after \<open>Commit\<close> it only reports \<open>sql.ErrTxDone\<close>, which the
  callers ignore).
\<close>

definition db_Begin :: "server \<Rightarrow> (world, unit) op" where
  "db_Begin srv = State (\<lambda>w.
     case srv_fault srv (tick w) of
       NoFault \<Rightarrow> (Inr (), (advance w)\<lparr>tx := Some (db w)\<rparr>)
     | LostBefore m \<Rightarrow> (Inl (DriverErr m), advance w)
     | LostAfter m \<Rightarrow> (Inl (DriverErr m), advance w))"

definition tx_Exec :: "server \<Rightarrow> (nat \<Rightarrow> database \<Rightarrow> err + database) \<Rightarrow> (world, unit) op" where
  "tx_Exec srv stmt = State (\<lambda>w.
     case tx w of
       None \<Rightarrow> (Inl (ErrorString ''sql: transaction has already been committed or rolled back''), w)
     | Some t \<Rightarrow>
         (case srv_fault srv (tick w) of
            NoFault \<Rightarrow>
              (case stmt (tick w) t of
                 Inl e \<Rightarrow> (Inl e, advance w)
               | Inr d \<Rightarrow> (Inr (), (advance w)\<lparr>tx := Some d\<rparr>))
          | LostBefore m \<Rightarrow> (Inl (DriverErr m), advance w)
          | LostAfter m \<Rightarrow> (Inl (DriverErr m), advance w)))"

definition tx_Commit :: "server \<Rightarrow> (world, unit) op" where
  "tx_Commit srv = State (\<lambda>w.
     case tx w of
       None \<Rightarrow> (Inl (ErrorString ''sql: transaction has already been committed or rolled back''), w)
     | Some t \<Rightarrow>
         (case srv_fault srv (tick w) of
            NoFault \<Rightarrow> (Inr (), (advance w)\<lparr>db := t, tx := None\<rparr>)
          | LostBefore m \<Rightarrow> (Inl (DriverErr m), (advance w)\<lparr>tx := None\<rparr>)
          | LostAfter m \<Rightarrow> (Inl (DriverErr m), (advance w)\<lparr>db := t, tx := None\<rparr>)))"

definition tx_Rollback :: "(world, unit) state" where
  "tx_Rollback = State (\<lambda>w. ((), w\<lparr>tx := None\<rparr>))"

text \<open>\<open>tx, err := db.BeginTxx(ctx, nil); ...; defer func() { _ = tx.Rollback() }()\<close>.\<close>

definition with_tx :: "server \<Rightarrow> (world, 'a) op \<Rightarrow> (world, 'a) op" where
  "with_tx srv body = do {
     b \<leftarrow> db_Begin srv;
     case b of
       Inl e \<Rightarrow> State_Monad.return (Inl (errorf ''mysql: begin tx: '' e))
     | Inr _ \<Rightarrow> do {
         r \<leftarrow> body;
         _ \<leftarrow> tx_Rollback;
         State_Monad.return r } }"

section \<open>What a call leaves alone\<close>

text \<open>
  \<open>reads m\<close>: the operation only advances the call number; \<open>db_only m\<close>: of the shared
  state it touches at most the tables.
\<close>

definition reads :: "(world, 'a) state \<Rightarrow> bool" where
  "reads m \<longleftrightarrow> (\<forall>w x w'. run_state m w = (x, w') \<longrightarrow>
     db w' = db w \<and> tx w' = tx w \<and> redis w' = redis w \<and> outbox w' = outbox w \<and> tick w \<le> tick w')"

definition db_only :: "(world, 'a) state \<Rightarrow> bool" where
  "db_only m \<longleftrightarrow> (\<forall>w x w'. run_state m w = (x, w') \<longrightarrow>
     redis w' = redis w \<and> outbox w' = outbox w \<and> tick w \<le> tick w')"

text \<open>The invariant of the shared state: the tables, and an open transaction's copy, are in order.\<close>

definition world_ok :: "server \<Rightarrow> world \<Rightarrow> bool" where
  "world_ok srv w \<longleftrightarrow> db_ok srv (tick w) (db w) \<and> (case tx w of None \<Rightarrow> True | Some d \<Rightarrow> db_ok srv (tick w) d)"

definition init_world :: world where
  "init_world = \<lparr>db = empty_database, tx = None, redis = [], outbox = [], tick = 0\<rparr>"

section \<open>Lemmas\<close>

lemma advance_simps [simp]:
  "db (advance w) = db w" "tx (advance w) = tx w" "redis (advance w) = redis w"
  "outbox (advance w) = outbox w" "tick (advance w) = Suc (tick w)"
  by (simp_all add: advance_def)

lemma reads_return [keeps_intros]: "reads (State_Monad.return x)"
  by (simp add: reads_def)

lemma reads_bind [keeps_intros]:
  assumes "reads m" and "\<And>x. reads (f x)"
  shows "reads (m \<bind> f)"
  unfolding reads_def
proof (intro allI impI)
  fix w x w'
  assume run: "run_state (m \<bind> f) w = (x, w')"
  obtain y v where y: "run_state m w = (y, v)" by fastforce
  with run have "run_state (f y) v = (x, w')" by simp
  with y assms show "db w' = db w \<and> tx w' = tx w \<and> redis w' = redis w \<and> outbox w' = outbox w \<and> tick w \<le> tick w'"
    unfolding reads_def by (metis le_trans)
qed

lemma db_only_return [keeps_intros]: "db_only (State_Monad.return x)"
  by (simp add: db_only_def)

lemma db_only_bind [keeps_intros]:
  assumes "db_only m" and "\<And>x. db_only (f x)"
  shows "db_only (m \<bind> f)"
  unfolding db_only_def
proof (intro allI impI)
  fix w x w'
  assume run: "run_state (m \<bind> f) w = (x, w')"
  obtain y v where y: "run_state m w = (y, v)" by fastforce
  with run have "run_state (f y) v = (x, w')" by simp
  with y assms show "redis w' = redis w \<and> outbox w' = outbox w \<and> tick w \<le> tick w'"
    unfolding db_only_def by (metis le_trans)
qed

lemma reads_case_sum [keeps_intros]:
  "(\<And>e. reads (f e)) \<Longrightarrow> (\<And>x. reads (g x)) \<Longrightarrow> reads (case r of Inl e \<Rightarrow> f e | Inr x \<Rightarrow> g x)"
  by (cases r) simp_all

lemma db_only_case_sum [keeps_intros]:
  "(\<And>e. db_only (f e)) \<Longrightarrow> (\<And>x. db_only (g x)) \<Longrightarrow> db_only (case r of Inl e \<Rightarrow> f e | Inr x \<Rightarrow> g x)"
  by (cases r) simp_all

lemma reads_if [keeps_intros]: "reads m \<Longrightarrow> reads n \<Longrightarrow> reads (if b then m else n)"
  by simp

lemma db_only_if [keeps_intros]: "db_only m \<Longrightarrow> db_only n \<Longrightarrow> db_only (if b then m else n)"
  by simp

lemma reads_let [keeps_intros]: "(\<And>x. reads (f x)) \<Longrightarrow> reads (let x = a in f x)"
  by simp

lemma db_only_let [keeps_intros]: "(\<And>x. db_only (f x)) \<Longrightarrow> db_only (let x = a in f x)"
  by simp

lemma reads_get [keeps_intros]: "reads State_Monad.get"
  by (simp add: reads_def)

lemma reads_db_only: "reads m \<Longrightarrow> db_only m"
  by (simp add: reads_def db_only_def)

lemma reads_Select [keeps_intros]: "reads (db_Select srv q)"
  by (auto simp: reads_def db_Select_def split: fault.splits)

lemma reads_Get [keeps_intros]: "reads (db_Get srv q)"
  unfolding db_Get_def by (intro keeps_intros)

lemma db_only_Exec [keeps_intros]: "db_only (db_Exec srv stmt)"
  by (auto simp: db_only_def db_Exec_def Let_def split: fault.splits sum.splits)

lemma db_only_Exec_id [keeps_intros]: "db_only (db_Exec_id srv stmt)"
  unfolding db_Exec_id_def by (intro keeps_intros reads_get [THEN reads_db_only])

lemma db_only_tx [keeps_intros]:
  "db_only (db_Begin srv)" "db_only (tx_Exec srv stmt)" "db_only (tx_Commit srv)" "db_only tx_Rollback"
  by (auto simp: db_only_def db_Begin_def tx_Exec_def tx_Commit_def tx_Rollback_def
      split: fault.splits sum.splits option.splits)

lemma db_only_with_tx [keeps_intros]: "db_only body \<Longrightarrow> db_only (with_tx srv body)"
  unfolding with_tx_def by (intro keeps_intros)

lemma reads_world_ok: "reads m \<Longrightarrow> keeps (world_ok srv) m"
  unfolding reads_def
  by (rule keepsI) (auto simp: world_ok_def split: option.splits intro: db_ok_mono)

text \<open>The possible outcomes of a statement, a query and a transaction.\<close>

lemma db_Exec_cases:
  assumes "run_state (db_Exec srv stmt) w = (r, w')"
  obtains (ok) d where "r = Inr ()" "stmt (tick w) (db w) = Inr d" "w' = (advance w)\<lparr>db := d\<rparr>"
  | (refused) e where "r = Inl e" "stmt (tick w) (db w) = Inl e" "w' = advance w"
  | (lost) m where "r = Inl (DriverErr m)" "w' = advance w"
  | (lost_after) m d where "r = Inl (DriverErr m)" "stmt (tick w) (db w) = Inr d" "w' = (advance w)\<lparr>db := d\<rparr>"
  using assms unfolding db_Exec_def by (auto simp: Let_def split: fault.splits sum.splits)

lemma db_Select_cases:
  assumes "run_state (db_Select srv q) w = (r, w')"
  obtains (ok) "r = q (tick w) (db w)" "w' = advance w"
  | (lost) m where "r = Inl (DriverErr m)" "w' = advance w"
  using assms unfolding db_Select_def by (auto split: fault.splits)

lemma db_Get_cases:
  assumes "run_state (db_Get srv q) w = (r, w')"
  obtains (ok) x xs where "r = Inr x" "q (tick w) (db w) = Inr (x # xs)" "w' = advance w"
  | (none) "r = Inl (Sentinel ErrNoRows)" "q (tick w) (db w) = Inr []" "w' = advance w"
  | (refused) e where "r = Inl e" "q (tick w) (db w) = Inl e" "w' = advance w"
  | (lost) m where "r = Inl (DriverErr m)" "w' = advance w"
  using assms unfolding db_Get_def db_Select_def
  by (auto split: fault.splits sum.splits list.splits)

lemma keeps_Exec:
  assumes "\<And>n d d'. db_ok srv n d \<Longrightarrow> stmt n d = Inr d' \<Longrightarrow> db_ok srv (Suc n) d'"
  shows "keeps (world_ok srv) (db_Exec srv stmt)"
proof (rule keepsI)
  fix w x w'
  assume ok: "world_ok srv w" and run: "run_state (db_Exec srv stmt) w = (x, w')"
  from ok have "db_ok srv (Suc (tick w)) (db w)" "\<And>d. tx w = Some d \<Longrightarrow> db_ok srv (Suc (tick w)) d"
    by (auto simp: world_ok_def intro: db_ok_mono [OF _ le_SucI [OF order_refl]])
  moreover from ok have "stmt (tick w) (db w) = Inr d \<Longrightarrow> db_ok srv (Suc (tick w)) d" for d
    using assms by (auto simp: world_ok_def)
  ultimately show "world_ok srv w'" using run
    by (elim db_Exec_cases) (auto simp: world_ok_def split: option.splits)
qed

lemma keeps_Begin: "keeps (world_ok srv) (db_Begin srv)"
  by (rule keepsI) (auto simp: world_ok_def db_Begin_def
      intro: db_ok_mono [OF _ le_SucI [OF order_refl]] split: fault.splits option.splits)

lemma keeps_Commit: "keeps (world_ok srv) (tx_Commit srv)"
  by (rule keepsI) (auto simp: world_ok_def tx_Commit_def
      intro: db_ok_mono [OF _ le_SucI [OF order_refl]] split: fault.splits option.splits)

lemma keeps_Rollback: "keeps (world_ok srv) tx_Rollback"
  by (rule keepsI) (auto simp: world_ok_def tx_Rollback_def)

lemma keeps_tx_Exec:
  assumes "\<And>n d d'. db_ok srv n d \<Longrightarrow> stmt n d = Inr d' \<Longrightarrow> db_ok srv (Suc n) d'"
  shows "keeps (world_ok srv) (tx_Exec srv stmt)"
  using assms
  by (intro keepsI) (auto simp: world_ok_def tx_Exec_def
      intro: db_ok_mono [OF _ le_SucI [OF order_refl]] split: fault.splits option.splits sum.splits)

lemma keeps_with_tx: "keeps (world_ok srv) body \<Longrightarrow> keeps (world_ok srv) (with_tx srv body)"
  unfolding with_tx_def by (intro keeps_intros keeps_Begin keeps_Rollback)

lemma with_tx_closed:
  assumes "tx w = None" and "run_state (with_tx srv body) w = (r, w')"
  shows "tx w' = None"
  using assms unfolding with_tx_def db_Begin_def tx_Rollback_def
  by (auto split: fault.splits sum.splits prod.splits)

lemma world_ok_init: "world_ok srv init_world"
  by (simp add: world_ok_def init_world_def db_ok_empty)

end
