(* ===== verification/Interfaces.thy ===== *)
theory Interfaces
  imports Domain
begin

text \<open>
  The Go interfaces through which the services reach the storages, as contracts.  A provider
  has a state with an invariant \<open>good\<close>, stored \<open>data\<close>, and a \<open>rest\<close> that the storage
  calls must leave alone (the cache and the outgoing mail).  Each locale fixes the operations
  of an interface and abstract views of the stored data and assumes what the operations
  return and leave behind, whether or not the outside fails; the lemmas shared by the
  services are proved from these assumptions once.
\<close>

definition quiet :: "('w \<Rightarrow> bool) \<Rightarrow> ('w \<Rightarrow> 'd) \<Rightarrow> ('w \<Rightarrow> 'r) \<Rightarrow> ('w, 'a) state \<Rightarrow> bool" where
  "quiet good data rest m \<longleftrightarrow>
     (\<forall>w x w'. good w \<longrightarrow> run_state m w = (x, w') \<longrightarrow> good w' \<and> data w' = data w \<and> rest w' = rest w)"

definition stores :: "('w \<Rightarrow> bool) \<Rightarrow> ('w \<Rightarrow> 'r) \<Rightarrow> ('w, 'a) state \<Rightarrow> bool" where
  "stores good rest m \<longleftrightarrow>
     (\<forall>w x w'. good w \<longrightarrow> run_state m w = (x, w') \<longrightarrow> good w' \<and> rest w' = rest w)"

lemma quietD:
  "quiet good data rest m \<Longrightarrow> good w \<Longrightarrow> run_state m w = (x, w') \<Longrightarrow> good w' \<and> data w' = data w \<and> rest w' = rest w"
  by (simp add: quiet_def)

lemma storesD: "stores good rest m \<Longrightarrow> good w \<Longrightarrow> run_state m w = (x, w') \<Longrightarrow> good w' \<and> rest w' = rest w"
  by (simp add: stores_def)

lemma quiet_stores: "quiet good data rest m \<Longrightarrow> stores good rest m"
  by (auto simp: quiet_def stores_def)

lemma stores_return [stores_intros]: "stores good rest (State_Monad.return x)"
  by (simp add: stores_def)

lemma stores_bind [stores_intros]:
  assumes "stores good rest m" and "\<And>x. stores good rest (f x)"
  shows "stores good rest (m \<bind> f)"
  unfolding stores_def
proof (intro allI impI)
  fix w x w'
  assume w: "good w" and run: "run_state (m \<bind> f) w = (x, w')"
  obtain y v where y: "run_state m w = (y, v)" by fastforce
  with run have "run_state (f y) v = (x, w')" by simp
  moreover from assms(1) w y have "good v \<and> rest v = rest w" by (rule storesD)
  ultimately show "good w' \<and> rest w' = rest w" using assms(2) [of y] by (auto dest: storesD)
qed

lemma stores_case_sum [stores_intros]:
  "(\<And>e. stores good rest (f e)) \<Longrightarrow> (\<And>x. stores good rest (g x)) \<Longrightarrow>
     stores good rest (case r of Inl e \<Rightarrow> f e | Inr x \<Rightarrow> g x)"
  by (cases r) simp_all

text \<open>The steps of an operation that starts with a quiet one.\<close>

lemma quiet_try_or:
  assumes "quiet good data rest m" and "good w" and "run_state (try_or g m k) w = (r, w')"
  obtains (err) e where "run_state m w = (Inl e, w')" "r = Inl (g e)" "good w'" "data w' = data w" "rest w' = rest w"
  | (ok) x v where "run_state m w = (Inr x, v)" "good v" "data v = data w" "rest v = rest w" "run_state (k x) v = (r, w')"
  using assms(3) by (rule try_or_cases) (use that quietD [OF assms(1,2)] in blast)+

lemma quiet_bind_step:
  assumes "quiet good data rest m" and "good w" and "run_state (m \<bind> k) w = (r, w')"
  obtains x v where "run_state m w = (x, v)" "good v" "data v = data w" "rest v = rest w" "run_state (k x) v = (r, w')"
  using assms(3) by (rule bind_cases) (use that quietD [OF assms(1,2)] in blast)

lemma quiet_return: "quiet good data rest (State_Monad.return x)"
  by (simp add: quiet_def)

lemma quiet_try_orI:
  assumes "quiet good data rest m" and "\<And>x. quiet good data rest (k x)"
  shows "quiet good data rest (try_or g m k)"
  unfolding quiet_def
proof (intro allI impI)
  fix w r w'
  assume w: "good w" and run: "run_state (try_or g m k) w = (r, w')"
  from assms(1) w run show "good w' \<and> data w' = data w \<and> rest w' = rest w"
    by (cases rule: quiet_try_or) (use quietD [OF assms(2)] in auto)
qed

section \<open>Membership\<close>

text \<open>
  \<open>MemberChecker\<close> of the task and comment services and \<open>TeamGetter.GetMemberRole\<close> of the
  team service: the role on success, \<open>ErrNotFound\<close> only for someone who is no member.
\<close>

locale member_checker =
  fixes good :: "'w \<Rightarrow> bool" and data :: "'w \<Rightarrow> 'd" and rest :: "'w \<Rightarrow> 'r"
    and GetMemberRole :: "uuid \<Rightarrow> uuid \<Rightarrow> ('w, Role) op"
    and role_of :: "'d \<Rightarrow> uuid \<Rightarrow> uuid \<Rightarrow> Role option"
  assumes role_quiet: "quiet good data rest (GetMemberRole t u)"
    and role_found: "good w \<Longrightarrow> run_state (GetMemberRole t u) w = (Inr x, w') \<Longrightarrow> role_of (data w) t u = Some x"
    and role_missing: "good w \<Longrightarrow> run_state (GetMemberRole t u) w = (Inl e, w') \<Longrightarrow> errors_Is e ErrNotFound \<Longrightarrow>
      role_of (data w) t u = None"
    and role_failed: "run_state (GetMemberRole t u) w = (Inl e, w') \<Longrightarrow> \<not> errors_Is e ErrForbidden"

text \<open>
  Every caller treats \<open>errors.Is(err, domain.ErrNotFound)\<close> of a membership check as
  \<open>ErrForbidden\<close> and wraps any other error.
\<close>

definition forbidden_or :: "string \<Rightarrow> err \<Rightarrow> err" where
  "forbidden_or pre e = (if errors_Is e ErrNotFound then Sentinel ErrForbidden else errorf pre e)"

context member_checker
begin

lemma check_member:
  assumes w: "good w"
    and run: "run_state (try_or (forbidden_or pre) (GetMemberRole T u) k) w = (r, w')"
  obtains (denied) e where "r = Inl e" "errors_Is e ErrForbidden \<Longrightarrow> role_of (data w) T u = None" "\<not> errors_Is e ErrNotFound"
      "good w'" "data w' = data w" "rest w' = rest w"
  | (passed) x v where "role_of (data w) T u = Some x" "good v" "data v = data w" "rest v = rest w" "run_state (k x) v = (r, w')"
  using role_quiet w run
proof (cases rule: quiet_try_or)
  case (err e)
  have "role_of (data w) T u = None" if "errors_Is (forbidden_or pre e) ErrForbidden"
    using that role_missing [OF w err(1)] role_failed [OF err(1)] by (auto simp: forbidden_or_def split: if_splits)
  moreover have "\<not> errors_Is (forbidden_or pre e) ErrNotFound" by (simp add: forbidden_or_def)
  ultimately show thesis using err that(1) by blast
next
  case (ok x v)
  with role_found [OF w ok(1)] that(2) show thesis by auto
qed

end

section \<open>Reading tasks\<close>

locale task_getter =
  fixes good :: "'w \<Rightarrow> bool" and data :: "'w \<Rightarrow> 'd" and rest :: "'w \<Rightarrow> 'r"
    and GetTaskByID :: "uuid \<Rightarrow> ('w, Task) op"
    and task_of :: "'d \<Rightarrow> uuid \<Rightarrow> Task option"
  assumes task_quiet: "quiet good data rest (GetTaskByID i)"
    and task_found: "good w \<Longrightarrow> run_state (GetTaskByID i) w = (Inr t, w') \<Longrightarrow> task_of (data w) i = Some t"
    and task_missing: "good w \<Longrightarrow> run_state (GetTaskByID i) w = (Inl e, w') \<Longrightarrow> errors_Is e ErrNotFound \<Longrightarrow>
      task_of (data w) i = None"
    and task_failed: "run_state (GetTaskByID i) w = (Inl e, w') \<Longrightarrow> \<not> errors_Is e ErrForbidden"
    and task_of_ID: "task_of d i = Some t \<Longrightarrow> task_ID t = i"

section \<open>Storing tasks and their history\<close>

text \<open>
  The task storage as the task service sees it.  \<open>norm\<close> is the form in which a task is
  stored (the server may round times or trim text), \<open>same_entry\<close> relates a history entry to
  its stored form, \<open>keep_columns new old\<close> is the old task with the columns of the new one that
  an update writes, and \<open>page_of\<close> says which pages a list query may answer.  A write either
  happens completely or leaves the data as it was, and an error may hide a write that
  happened.
\<close>

definition task_saved ::
  "('d \<Rightarrow> uuid \<Rightarrow> Task option) \<Rightarrow> ('d \<Rightarrow> 'v) \<Rightarrow> (Task \<Rightarrow> Task option) \<Rightarrow> Task \<Rightarrow> 'd \<Rightarrow> 'd \<Rightarrow> bool" where
  "task_saved task_of others norm t d d' \<longleftrightarrow>
     (\<exists>s. norm t = Some s \<and> task_of d (task_ID t) = None \<and> task_of d' = (task_of d)(task_ID t \<mapsto> s) \<and> others d' = others d)"

definition task_changed ::
  "('d \<Rightarrow> uuid \<Rightarrow> Task option) \<Rightarrow> ('d \<Rightarrow> uuid \<Rightarrow> TaskHistory list) \<Rightarrow> ('d \<Rightarrow> 'v) \<Rightarrow> (Task \<Rightarrow> Task option) \<Rightarrow>
   (TaskHistory \<Rightarrow> TaskHistory \<Rightarrow> bool) \<Rightarrow> (Task \<Rightarrow> Task \<Rightarrow> Task) \<Rightarrow> Task \<Rightarrow> TaskHistory list \<Rightarrow> 'd \<Rightarrow> 'd \<Rightarrow> bool" where
  "task_changed task_of hist_of others norm same_entry keep_columns t es d d' \<longleftrightarrow>
     (\<exists>s. norm t = Some s \<and>
        (\<forall>i. task_of d' i = (if i = task_ID t then map_option (keep_columns s) (task_of d i) else task_of d i)) \<and>
        (\<forall>i. \<exists>ss. list_all2 same_entry (filter (\<lambda>e. th_TaskID e = i) es) ss \<and> hist_of d' i = hist_of d i @ ss) \<and>
        others d' = others d)"

locale task_store = task_getter good data rest GetTaskByID task_of
  for good :: "'w \<Rightarrow> bool" and data :: "'w \<Rightarrow> 'd" and rest :: "'w \<Rightarrow> 'r"
    and GetTaskByID :: "uuid \<Rightarrow> ('w, Task) op" and task_of :: "'d \<Rightarrow> uuid \<Rightarrow> Task option" +
  fixes SaveTask :: "Task \<Rightarrow> ('w, unit) op"
    and UpdateTaskWithHistory :: "Task \<Rightarrow> TaskHistory list \<Rightarrow> ('w, unit) op"
    and ListTasks :: "TaskFilter \<Rightarrow> ('w, Task list \<times> nat) op"
    and ListHistory :: "uuid \<Rightarrow> ('w, TaskHistory list) op"
    and hist_of :: "'d \<Rightarrow> uuid \<Rightarrow> TaskHistory list"
    and members_of :: "'d \<Rightarrow> 'v" and others_of :: "'d \<Rightarrow> 'u"
    and norm :: "Task \<Rightarrow> Task option"
    and same_entry :: "TaskHistory \<Rightarrow> TaskHistory \<Rightarrow> bool"
    and keep_columns :: "Task \<Rightarrow> Task \<Rightarrow> Task"
    and page_of :: "'d \<Rightarrow> TaskFilter \<Rightarrow> Task list \<Rightarrow> nat \<Rightarrow> bool"
  assumes save_stores: "stores good rest (SaveTask t)"
    and save_run: "good w \<Longrightarrow> run_state (SaveTask t) w = (x, w') \<Longrightarrow>
      (case x of
         Inr _ \<Rightarrow> task_saved task_of (\<lambda>d. (hist_of d, members_of d, others_of d)) norm t (data w) (data w')
       | Inl e \<Rightarrow> (data w' = data w \<or> task_saved task_of (\<lambda>d. (hist_of d, members_of d, others_of d)) norm t (data w) (data w'))
                \<and> (\<forall>s. \<not> errors_Is e s))"
    and update_stores: "stores good rest (UpdateTaskWithHistory t es)"
    and update_run: "good w \<Longrightarrow> run_state (UpdateTaskWithHistory t es) w = (x, w') \<Longrightarrow>
      (case x of
         Inr _ \<Rightarrow> task_changed task_of hist_of (\<lambda>d. (members_of d, others_of d)) norm same_entry keep_columns t es (data w) (data w')
       | Inl e \<Rightarrow> (data w' = data w \<or>
           task_changed task_of hist_of (\<lambda>d. (members_of d, others_of d)) norm same_entry keep_columns t es (data w) (data w'))
                \<and> (\<forall>s. \<not> errors_Is e s))"
    and list_quiet: "quiet good data rest (ListTasks f)"
    and list_found: "good w \<Longrightarrow> run_state (ListTasks f) w = (Inr (ts, n), w') \<Longrightarrow> page_of (data w) f ts n"
    and list_failed: "run_state (ListTasks f) w = (Inl e, w') \<Longrightarrow> \<not> errors_Is e g"
    and history_quiet: "quiet good data rest (ListHistory i)"
    and history_found: "good w \<Longrightarrow> run_state (ListHistory i) w = (Inr hs, w') \<Longrightarrow>
      mset hs = mset (hist_of (data w) i) \<and> sorted_wrt (\<lambda>g h. th_ChangedAt g \<le> th_ChangedAt h) hs"
    and history_failed: "run_state (ListHistory i) w = (Inl e, w') \<Longrightarrow> \<not> errors_Is e g"
    and page_local: "good w \<Longrightarrow> good w' \<Longrightarrow> tf_TeamID f = Some T \<Longrightarrow>
      (\<And>i t. task_TeamID t = T \<Longrightarrow> task_of (data w) i = Some t \<longleftrightarrow> task_of (data w') i = Some t) \<Longrightarrow>
      page_of (data w) f ts n \<Longrightarrow> page_of (data w') f ts n"
    and norm_ids: "norm t = Some s \<Longrightarrow> task_ID s = task_ID t \<and> task_TeamID s = task_TeamID t \<and>
      task_CreatedBy s = task_CreatedBy t \<and> task_AssigneeID s = task_AssigneeID t"
    and keep_ids: "task_ID (keep_columns s t) = task_ID t \<and> task_TeamID (keep_columns s t) = task_TeamID t \<and>
      task_CreatedBy (keep_columns s t) = task_CreatedBy t \<and> task_CreatedAt (keep_columns s t) = task_CreatedAt t \<and>
      task_AssigneeID (keep_columns s t) = task_AssigneeID s"

section \<open>The cache\<close>

text \<open>
  \<open>Cache\<close> of the task service.  A hit returns stored bytes; only \<open>Set\<close> adds an entry; a
  successful \<open>Invalidate\<close> of a prefix leaves no entry whose key starts with it.
\<close>

locale cache_store =
  fixes good :: "'w \<Rightarrow> bool" and data :: "'w \<Rightarrow> 'd" and rest :: "'w \<Rightarrow> 'r"
    and Get :: "string \<Rightarrow> ('w, bytes) op"
    and Set :: "string \<Rightarrow> bytes \<Rightarrow> time \<Rightarrow> ('w, unit) op"
    and Invalidate :: "string \<Rightarrow> ('w, unit) op"
    and stored :: "'r \<Rightarrow> (string \<times> bytes) set"
  assumes cache_keeps:
      "good w \<Longrightarrow> run_state (Get k) w = (b, w') \<Longrightarrow> good w' \<and> data w' = data w"
      "good w \<Longrightarrow> run_state (Set k v ttl) w = (u, w') \<Longrightarrow> good w' \<and> data w' = data w"
      "good w \<Longrightarrow> run_state (Invalidate p) w = (u, w') \<Longrightarrow> good w' \<and> data w' = data w"
    and get_stored: "run_state (Get k) w = (b, w') \<Longrightarrow> stored (rest w') \<subseteq> stored (rest w)"
    and get_found: "run_state (Get k) w = (Inr v, w') \<Longrightarrow> (k, v) \<in> stored (rest w)"
    and set_stored: "run_state (Set k v ttl) w = (u, w') \<Longrightarrow> stored (rest w') \<subseteq> insert (k, v) (stored (rest w))"
    and inval_stored: "good w \<Longrightarrow> run_state (Invalidate p) w = (u, w') \<Longrightarrow> stored (rest w') \<subseteq> stored (rest w)"
    and inval_prefix: "good w \<Longrightarrow> run_state (Invalidate (p @ ''*'')) w = (Inr (), w') \<Longrightarrow>
      set p \<inter> insert (CHR 0x5C) (set ''*?[]^'') = {} \<Longrightarrow> (k, v) \<in> stored (rest w') \<Longrightarrow> \<not> HasPrefix k p"

section \<open>Teams and users\<close>

text \<open>
  The interfaces of the team service: \<open>TeamSaver\<close>, \<open>TeamGetter\<close>, \<open>UserGetter\<close>.
  \<open>others_of\<close> is the part of the data that no team operation may touch.
\<close>

definition set_role :: "(uuid \<Rightarrow> uuid \<Rightarrow> Role option) \<Rightarrow> uuid \<Rightarrow> uuid \<Rightarrow> Role \<Rightarrow> uuid \<Rightarrow> uuid \<Rightarrow> Role option" where
  "set_role f t u v = (\<lambda>t' u'. if t' = t \<and> u' = u then Some v else f t' u')"

definition member_saved ::
  "('d \<Rightarrow> uuid \<Rightarrow> uuid \<Rightarrow> Role option) \<Rightarrow> ('d \<Rightarrow> uuid \<Rightarrow> Team option) \<Rightarrow> ('d \<Rightarrow> 'v) \<Rightarrow> uuid \<Rightarrow> uuid \<Rightarrow> Role \<Rightarrow> 'd \<Rightarrow> 'd \<Rightarrow> bool" where
  "member_saved role_of team_of others_of t u role d d' \<longleftrightarrow>
     role_of d' = set_role (role_of d) t u role \<and> team_of d' = team_of d \<and> others_of d' = others_of d"

definition team_added ::
  "('d \<Rightarrow> uuid \<Rightarrow> uuid \<Rightarrow> Role option) \<Rightarrow> ('d \<Rightarrow> uuid \<Rightarrow> Team option) \<Rightarrow> ('d \<Rightarrow> 'v) \<Rightarrow> (Team \<Rightarrow> Team option) \<Rightarrow>
   Team \<Rightarrow> uuid \<Rightarrow> 'd \<Rightarrow> 'd \<Rightarrow> bool" where
  "team_added role_of team_of others_of norm team owner d d' \<longleftrightarrow>
     (\<exists>s. norm team = Some s \<and> team_of d (team_ID team) = None \<and> team_of d' = (team_of d)(team_ID team \<mapsto> s)) \<and>
     (\<forall>u. role_of d (team_ID team) u = None) \<and>
     role_of d' = set_role (role_of d) (team_ID team) owner RoleOwner \<and> others_of d' = others_of d"

locale team_store = member_checker good data rest GetMemberRole role_of
  for good :: "'w \<Rightarrow> bool" and data :: "'w \<Rightarrow> 'd" and rest :: "'w \<Rightarrow> 'r"
    and GetMemberRole :: "uuid \<Rightarrow> uuid \<Rightarrow> ('w, Role) op" and role_of :: "'d \<Rightarrow> uuid \<Rightarrow> uuid \<Rightarrow> Role option" +
  fixes CreateTeamWithOwner :: "Team \<Rightarrow> uuid \<Rightarrow> ('w, unit) op"
    and SaveMember :: "uuid \<Rightarrow> uuid \<Rightarrow> Role \<Rightarrow> ('w, unit) op"
    and GetTeamsByUser :: "uuid \<Rightarrow> ('w, Team list) op"
    and GetTeamByID :: "uuid \<Rightarrow> ('w, Team) op"
    and GetUserByID :: "uuid \<Rightarrow> ('w, User) op"
    and team_of :: "'d \<Rightarrow> uuid \<Rightarrow> Team option" and user_of :: "'d \<Rightarrow> uuid \<Rightarrow> User option"
    and teams_of :: "'d \<Rightarrow> Team list" and others_of :: "'d \<Rightarrow> 'v" and norm_team :: "Team \<Rightarrow> Team option"
  assumes create_stores: "stores good rest (CreateTeamWithOwner team u)"
    and create_run: "good w \<Longrightarrow> run_state (CreateTeamWithOwner team u) w = (x, w') \<Longrightarrow>
      (case x of
         Inr _ \<Rightarrow> team_added role_of team_of others_of norm_team team u (data w) (data w')
       | Inl e \<Rightarrow> (data w' = data w \<or> team_added role_of team_of others_of norm_team team u (data w) (data w'))
                \<and> (\<forall>g. \<not> errors_Is e g))"
    and member_stores: "stores good rest (SaveMember t u role)"
    and member_run: "good w \<Longrightarrow> run_state (SaveMember t u RoleMember) w = (x, w') \<Longrightarrow>
      (case x of
         Inr _ \<Rightarrow> member_saved role_of team_of others_of t u RoleMember (data w) (data w')
       | Inl e \<Rightarrow> (data w' = data w \<or> member_saved role_of team_of others_of t u RoleMember (data w) (data w'))
                \<and> (\<forall>g. \<not> errors_Is e g))"
    and teams_quiet: "quiet good data rest (GetTeamsByUser u)"
    and teams_found: "good w \<Longrightarrow> run_state (GetTeamsByUser u) w = (Inr ts, w') \<Longrightarrow>
      mset ts = mset (filter (\<lambda>t. role_of (data w) (team_ID t) u \<noteq> None) (teams_of (data w)))"
    and team_quiet: "quiet good data rest (GetTeamByID t)"
    and team_found: "good w \<Longrightarrow> run_state (GetTeamByID t) w = (Inr team, w') \<Longrightarrow> team_of (data w) t = Some team"
    and team_missing: "good w \<Longrightarrow> run_state (GetTeamByID t) w = (Inl e, w') \<Longrightarrow> errors_Is e ErrNotFound \<Longrightarrow>
      team_of (data w) t = None"
    and team_failed: "run_state (GetTeamByID t) w = (Inl e, w') \<Longrightarrow> \<not> errors_Is e ErrForbidden"
    and user_quiet: "quiet good data rest (GetUserByID u)"
    and user_found: "good w \<Longrightarrow> run_state (GetUserByID u) w = (Inr usr, w') \<Longrightarrow> user_of (data w) u = Some usr"
    and user_missing: "good w \<Longrightarrow> run_state (GetUserByID u) w = (Inl e, w') \<Longrightarrow> errors_Is e ErrNotFound \<Longrightarrow>
      user_of (data w) u = None"
    and user_failed: "run_state (GetUserByID u) w = (Inl e, w') \<Longrightarrow> \<not> errors_Is e ErrForbidden"

section \<open>Notifications\<close>

text \<open>\<open>Notifier\<close> of the team service: sending touches nothing but the record of what was sent.\<close>

locale notifier =
  fixes good :: "'w \<Rightarrow> bool" and data :: "'w \<Rightarrow> 'd" and rest :: "'w \<Rightarrow> 'r"
    and SendInvite :: "string \<Rightarrow> string \<Rightarrow> ('w, unit) op"
    and mailed :: "string \<Rightarrow> string \<Rightarrow> 'r \<Rightarrow> 'r"
  assumes send_run: "good w \<Longrightarrow> run_state (SendInvite addr name) w = (x, w') \<Longrightarrow>
      good w' \<and> data w' = data w \<and> (rest w' = rest w \<or> rest w' = mailed addr name (rest w))"

section \<open>Comments\<close>

locale comment_store =
  fixes good :: "'w \<Rightarrow> bool" and data :: "'w \<Rightarrow> 'd" and rest :: "'w \<Rightarrow> 'r"
    and SaveComment :: "Comment \<Rightarrow> ('w, Comment) op"
    and ListComments :: "uuid \<Rightarrow> ('w, Comment list) op"
    and comments_of :: "'d \<Rightarrow> uuid \<Rightarrow> Comment list" and others_of :: "'d \<Rightarrow> 'v"
    and same_comment :: "Comment \<Rightarrow> Comment \<Rightarrow> bool"
  assumes comment_stores: "stores good rest (SaveComment c)"
    and comment_run: "good w \<Longrightarrow> run_state (SaveComment c) w = (x, w') \<Longrightarrow>
      (\<exists>s. same_comment c s \<and> comments_of (data w') = (comments_of (data w))(comment_TaskID c := comments_of (data w) (comment_TaskID c) @ [s]) \<and>
           others_of (data w') = others_of (data w) \<and>
           (case x of Inr c' \<Rightarrow> c' = c\<lparr>comment_ID := comment_ID s\<rparr> | Inl e \<Rightarrow> \<forall>g. \<not> errors_Is e g)) \<or>
      data w' = data w \<and> (\<exists>e. x = Inl e \<and> (\<forall>g. \<not> errors_Is e g))"
    and comments_quiet: "quiet good data rest (ListComments i)"
    and comments_found: "good w \<Longrightarrow> run_state (ListComments i) w = (Inr cs, w') \<Longrightarrow>
      mset cs = mset (comments_of (data w) i) \<and> sorted_wrt (\<lambda>a b. comment_CreatedAt a \<le> comment_CreatedAt b) cs"
    and comments_failed: "run_state (ListComments i) w = (Inl e, w') \<Longrightarrow> \<not> errors_Is e g"

section \<open>Accounts\<close>

text \<open>
  The interfaces of the auth service.  \<open>same_email\<close> is equality of addresses as the storage
  sees it; \<open>account_of\<close> finds the user of an address.
\<close>

locale user_store =
  fixes good :: "'w \<Rightarrow> bool" and data :: "'w \<Rightarrow> 'd" and rest :: "'w \<Rightarrow> 'r"
    and SaveUser :: "User \<Rightarrow> ('w, unit) op"
    and GetByEmail :: "string \<Rightarrow> ('w, User) op"
    and account_of :: "'d \<Rightarrow> string \<Rightarrow> User option" and others_of :: "'d \<Rightarrow> 'v"
    and same_email :: "string \<Rightarrow> string \<Rightarrow> bool" and norm_user :: "User \<Rightarrow> User option"
  assumes account_quiet: "quiet good data rest (GetByEmail m)"
    and account_found: "good w \<Longrightarrow> run_state (GetByEmail m) w = (Inr usr, w') \<Longrightarrow> account_of (data w) m = Some usr"
    and account_missing: "good w \<Longrightarrow> run_state (GetByEmail m) w = (Inl e, w') \<Longrightarrow> errors_Is e g \<Longrightarrow>
      g = ErrNotFound \<and> account_of (data w) m = None"
    and user_stores: "stores good rest (SaveUser usr)"
    and user_saved: "good w \<Longrightarrow> run_state (SaveUser usr) w = (x, w') \<Longrightarrow>
      (\<exists>s. norm_user usr = Some s \<and> account_of (data w) (user_Email s) = None \<and>
           (\<forall>m. account_of (data w') m = (if same_email m (user_Email s) then Some s else account_of (data w) m)) \<and>
           others_of (data w') = others_of (data w) \<and> (case x of Inr _ \<Rightarrow> True | Inl e \<Rightarrow> \<forall>g. \<not> errors_Is e g)) \<or>
      data w' = data w \<and> (\<exists>e. x = Inl e \<and> (\<forall>g. errors_Is e g \<longrightarrow> g = ErrConflict))"

end
