(* ===== verification/MySQL_Helpers.thy ===== *)
theory MySQL_Helpers
  imports World Interfaces
begin

text \<open>
  \<open>internal/storage/mysql/helpers.go\<close>: identifiers as BINARY(16) values and back, and the
  recognition of duplicate-key errors.
\<close>

definition uuidToBytes :: "uuid \<Rightarrow> bytes" where
  "uuidToBytes u = uuid_bytes u"

definition bytesToUUID :: "bytes \<Rightarrow> err + uuid" where
  "bytesToUUID b =
     (if length b \<noteq> 16 then Inl (ErrorString (''expected 16 bytes, got '' @ fmt_d (int (length b))))
      else Inr (uuid_copy b))"

text \<open>The nil slice is \<^const>\<open>None\<close>; its length is 0.\<close>

definition bytesToUUIDPtr :: "bytes option \<Rightarrow> err + uuid option" where
  "bytesToUUIDPtr b =
     (case b of
        None \<Rightarrow> Inr None
      | Some s \<Rightarrow> if length s = 0 then Inr None else and_then (bytesToUUID s) (\<lambda>u. Inr (Some u)))"

definition isDuplicateEntry :: "err \<Rightarrow> bool" where
  "isDuplicateEntry e \<longleftrightarrow> errors_As_mysql e = Some 1062"

text \<open>The state a storage of this package runs in, and what its calls must not touch.\<close>

definition store_inv :: "server \<Rightarrow> world \<Rightarrow> bool" where
  "store_inv srv w \<longleftrightarrow> server_laws srv \<and> world_ok srv w"

text \<open>
  The same with a standing assumption about the other parameters of the program, so that the
  contracts of all its parts can share one invariant.
\<close>

definition base_inv :: "bool \<Rightarrow> server \<Rightarrow> world \<Rightarrow> bool" where
  "base_inv P srv w \<longleftrightarrow> P \<and> store_inv srv w"

definition outside :: "world \<Rightarrow> (string \<times> bytes \<times> time option) list \<times> email list" where
  "outside w = (redis w, outbox w)"

lemma bytesToUUID_Inr_iff: "bytesToUUID b = Inr u \<longleftrightarrow> uuidToBytes u = b"
  by (auto simp: bytesToUUID_def uuidToBytes_def uuid_bytes_copy)

lemma bytesToUUID_uuidToBytes [simp]: "bytesToUUID (uuidToBytes u) = Inr u"
  by (simp add: bytesToUUID_Inr_iff)

lemma bytesToUUID_length: "length b = 16 \<Longrightarrow> \<exists>u. bytesToUUID b = Inr u \<and> b = uuidToBytes u"
  by (simp add: bytesToUUID_def uuidToBytes_def uuid_bytes_copy)

lemma length_uuidToBytes [simp]: "length (uuidToBytes u) = 16"
  by (simp add: uuidToBytes_def)

lemma uuidToBytes_inject [simp]: "uuidToBytes u = uuidToBytes v \<longleftrightarrow> u = v"
  by (simp add: uuidToBytes_def)

lemma bytesToUUIDPtr_None [simp]: "bytesToUUIDPtr None = Inr None"
  by (simp add: bytesToUUIDPtr_def)

lemma bytesToUUIDPtr_map [simp]: "bytesToUUIDPtr (map_option uuidToBytes u) = Inr u"
  by (cases u) (simp_all add: bytesToUUIDPtr_def flip: length_0_conv)

lemma col_binary16_uuidToBytes [simp]: "col_binary16 srv (uuidToBytes u) = Inr (uuidToBytes u)"
  by (simp add: uuidToBytes_def)

text \<open>How the facts about single calls give the contracts' frame conditions.\<close>

lemma quiet_reads: "reads m \<Longrightarrow> quiet (store_inv srv) db outside m"
  unfolding quiet_def
  by (metis reads_world_ok keepsD store_inv_def outside_def reads_def)

lemma stores_db_only:
  assumes "db_only m" and "autoinc_grows srv \<Longrightarrow> keeps (world_ok srv) m"
  shows "stores (store_inv srv) outside m"
  using assms unfolding stores_def store_inv_def server_laws_def outside_def db_only_def by (blast dest: keepsD)

lemma stores_Exec:
  assumes "\<And>n d d'. autoinc_grows srv \<Longrightarrow> db_ok srv n d \<Longrightarrow> stmt n d = Inr d' \<Longrightarrow> db_ok srv (Suc n) d'"
  shows "stores (store_inv srv) outside (db_Exec srv stmt)"
  using assms by (blast intro: stores_db_only db_only_Exec keeps_Exec)

lemma stores_tx_Exec:
  assumes "\<And>n d d'. autoinc_grows srv \<Longrightarrow> db_ok srv n d \<Longrightarrow> stmt n d = Inr d' \<Longrightarrow> db_ok srv (Suc n) d'"
  shows "stores (store_inv srv) outside (tx_Exec srv stmt)"
  using assms by (blast intro: stores_db_only db_only_tx keeps_tx_Exec)

lemma stores_Commit [stores_intros]: "stores (store_inv srv) outside (tx_Commit srv)"
  by (blast intro: stores_db_only db_only_tx keeps_Commit)

lemma stores_with_tx [stores_intros]:
  "stores (store_inv srv) outside body \<Longrightarrow> stores (store_inv srv) outside (with_tx srv body)"
  unfolding with_tx_def
  by (intro stores_intros)
    (blast intro: stores_db_only db_only_tx keeps_Begin keeps_Rollback)+

lemma quiet_base: "reads m \<Longrightarrow> quiet (base_inv P srv) db outside m"
  using quiet_reads unfolding quiet_def base_inv_def by blast

lemma stores_base: "stores (store_inv srv) outside m \<Longrightarrow> stores (base_inv P srv) outside m"
  unfolding stores_def base_inv_def by blast

lemma base_inv_db: "base_inv P srv w \<Longrightarrow> db_ok srv (tick w) (db w)"
  by (simp add: base_inv_def store_inv_def world_ok_def)

lemma base_inv_enum: "base_inv P srv w \<Longrightarrow> enum_exact srv"
  by (simp add: base_inv_def store_inv_def server_laws_def)

lemma base_inv_frame:
  assumes "base_inv P srv w" and "db w' = db w" and "tx w' = tx w" and "tick w \<le> tick w'"
  shows "base_inv P srv w'"
  using assms by (auto simp: base_inv_def store_inv_def world_ok_def split: option.splits intro: db_ok_mono)

lemma store_inv_db: "store_inv srv w \<Longrightarrow> db_ok srv (tick w) (db w)"
  by (simp add: store_inv_def world_ok_def)

text \<open>
  The idiom of the storages' single-row reads: \<open>GetContext\<close>, \<open>sql.ErrNoRows\<close> turned into
  \<open>ErrNotFound\<close>, any other error wrapped, the row converted.
\<close>

lemma read_row_cases:
  assumes "run_state (do {
     row \<leftarrow> db_Get srv (\<lambda>k d. Inr (filter P (visit srv k (tab d))));
     State_Monad.return (case row of
         Inl e \<Rightarrow> if errors_Is e ErrNoRows then Inl (Sentinel ErrNotFound) else Inl (errorf pre e)
       | Inr r \<Rightarrow> conv r) }) w = (x, w')"
  obtains (found) r where "r \<in> set (tab (db w))" "P r" "x = conv r" "w' = advance w"
  | (missing) "\<forall>r \<in> set (tab (db w)). \<not> P r" "x = Inl (Sentinel ErrNotFound)" "w' = advance w"
  | (lost) m where "x = Inl (errorf pre (DriverErr m))" "w' = advance w"
proof -
  let ?q = "\<lambda>k d. Inr (filter P (visit srv k (tab d)))"
  obtain row v where row: "run_state (db_Get srv ?q) w = (row, v)" by fastforce
  with assms have x: "x = (case row of
         Inl e \<Rightarrow> if errors_Is e ErrNoRows then Inl (Sentinel ErrNotFound) else Inl (errorf pre e)
       | Inr r \<Rightarrow> conv r)" and w': "w' = v" by simp_all
  from row show thesis
  proof (cases rule: db_Get_cases)
    case (ok r rs)
    then have "filter P (visit srv (tick w) (tab (db w))) = r # rs" by simp
    from filter_visit_Cons [OF this] ok x w' that(1) show thesis by simp
  qed (use x w' that(2,3) in auto)
qed

text \<open>Identifiers survive the trip through a BINARY(16) column: \<open>bytesToUUID\<close> accepts exactly
  the sixteen-byte values, it inverts \<open>uuidToBytes\<close> and \<open>uuidToBytes\<close> inverts it, and every
  other length is an error.\<close>

theorem uuid_column_roundtrip:
  "bytesToUUID (uuidToBytes u) = Inr u \<and>
   (bytesToUUID b = Inr u \<longleftrightarrow> b = uuidToBytes u) \<and>
   ((\<exists>e. bytesToUUID b = Inl e) \<longleftrightarrow> length b \<noteq> 16) \<and>
   bytesToUUIDPtr (map_option uuidToBytes p) = Inr p"
proof -
  have "(\<exists>e. bytesToUUID b = Inl e) \<longleftrightarrow> length b \<noteq> 16"
    by (simp add: bytesToUUID_def)
  then show ?thesis by (auto simp: bytesToUUID_Inr_iff)
qed

end
