(* ===== verification/MySQL_Team.thy ===== *)
theory MySQL_Team
  imports MySQL_Helpers
begin

text \<open>
  \<open>internal/storage/mysql/team.go\<close>: teams and memberships.  Creating a team and its owner is
  one transaction; saving a member is an upsert.
\<close>

section \<open>Operations\<close>

definition team_args :: "Team \<Rightarrow> teamRow" where
  "team_args t =
     \<lparr>tr_ID = uuidToBytes (team_ID t), tr_Name = team_Name t, tr_CreatedBy = uuidToBytes (team_CreatedBy t),
      tr_CreatedAt = team_CreatedAt t\<rparr>"

definition toTeam :: "teamRow \<Rightarrow> err + Team" where
  "toTeam r =
     and_then (on_err (errorf ''mysql: parse team id: '') (bytesToUUID (tr_ID r))) (\<lambda>i.
     and_then (on_err (errorf ''mysql: parse team created_by: '') (bytesToUUID (tr_CreatedBy r))) (\<lambda>createdBy.
       Inr \<lparr>team_ID = i, team_Name = tr_Name r, team_CreatedBy = createdBy, team_CreatedAt = tr_CreatedAt r\<rparr>))"

definition create_in_tx :: "server \<Rightarrow> Team \<Rightarrow> uuid \<Rightarrow> (world, unit) op" where
  "create_in_tx srv team ownerID = do {
     t \<leftarrow> tx_Exec srv (\<lambda>k. insert_teams srv (team_args team));
     case t of
       Inl e \<Rightarrow> State_Monad.return (Inl (errorf ''mysql: insert team: '' e))
     | Inr _ \<Rightarrow> do {
         m \<leftarrow> tx_Exec srv (\<lambda>k. insert_team_members srv k (uuidToBytes (team_ID team)) (uuidToBytes ownerID) RoleOwner);
         case m of
           Inl e \<Rightarrow> State_Monad.return (Inl (errorf ''mysql: insert owner member: '' e))
         | Inr _ \<Rightarrow> do {
             c \<leftarrow> tx_Commit srv;
             State_Monad.return (on_err (errorf ''mysql: commit: '') c) } } }"

definition CreateTeamWithOwner :: "server \<Rightarrow> Team \<Rightarrow> uuid \<Rightarrow> (world, unit) op" where
  "CreateTeamWithOwner srv team ownerID = with_tx srv (create_in_tx srv team ownerID)"

text \<open>The inner join: one row per pair of a team and a membership of the user in it.\<close>

definition select_user_teams :: "server \<Rightarrow> bytes \<Rightarrow> nat \<Rightarrow> database \<Rightarrow> teamRow list" where
  "select_user_teams srv u k d =
     visit srv k (concat (map (\<lambda>t. map (\<lambda>_. t)
       (filter (\<lambda>m. mr_TeamID m = tr_ID t \<and> mr_UserID m = u) (team_members d))) (teams d)))"

definition GetTeamsByUser :: "server \<Rightarrow> uuid \<Rightarrow> (world, Team list) op" where
  "GetTeamsByUser srv userID = do {
     rows \<leftarrow> db_Select srv (\<lambda>k d. Inr (select_user_teams srv (uuidToBytes userID) k d));
     State_Monad.return (case rows of
         Inl e \<Rightarrow> Inl (errorf ''mysql: get teams by user: '' e)
       | Inr rs \<Rightarrow> traverse toTeam rs) }"

definition GetTeamByID :: "server \<Rightarrow> uuid \<Rightarrow> (world, Team) op" where
  "GetTeamByID srv i = do {
     row \<leftarrow> db_Get srv (\<lambda>k d. Inr (filter (\<lambda>r. tr_ID r = uuidToBytes i) (visit srv k (teams d))));
     State_Monad.return (case row of
         Inl e \<Rightarrow> if errors_Is e ErrNoRows then Inl (Sentinel ErrNotFound)
                  else Inl (errorf ''mysql: get team by id: '' e)
       | Inr r \<Rightarrow> toTeam r) }"

definition SaveMember :: "server \<Rightarrow> uuid \<Rightarrow> uuid \<Rightarrow> Role \<Rightarrow> (world, unit) op" where
  "SaveMember srv teamID userID role = do {
     r \<leftarrow> db_Exec srv (\<lambda>k. upsert_team_members srv k (uuidToBytes teamID) (uuidToBytes userID) role);
     State_Monad.return (on_err (errorf ''mysql: save member: '') r) }"

definition GetMemberRole :: "server \<Rightarrow> uuid \<Rightarrow> uuid \<Rightarrow> (world, Role) op" where
  "GetMemberRole srv teamID userID = do {
     row \<leftarrow> db_Get srv (\<lambda>k d. Inr (filter (\<lambda>r. mr_TeamID r = uuidToBytes teamID \<and> mr_UserID r = uuidToBytes userID)
              (visit srv k (team_members d))));
     State_Monad.return (case row of
         Inl e \<Rightarrow> if errors_Is e ErrNoRows then Inl (Sentinel ErrNotFound)
                  else Inl (errorf ''mysql: get member role: '' e)
       | Inr r \<Rightarrow> Inr (mr_Role r)) }"

section \<open>Views of the stored data\<close>

definition role_view :: "database \<Rightarrow> uuid \<Rightarrow> uuid \<Rightarrow> Role option" where
  "role_view d t u =
     map_option mr_Role (find (\<lambda>r. mr_TeamID r = uuidToBytes t \<and> mr_UserID r = uuidToBytes u) (team_members d))"

definition team_view :: "database \<Rightarrow> uuid \<Rightarrow> Team option" where
  "team_view d i =
     (case find (\<lambda>r. tr_ID r = uuidToBytes i) (teams d) of
        None \<Rightarrow> None
      | Some r \<Rightarrow> (case toTeam r of Inl _ \<Rightarrow> None | Inr t \<Rightarrow> Some t))"

text \<open>The stored form of a team.\<close>

definition stored_team :: "server \<Rightarrow> Team \<Rightarrow> Team option" where
  "stored_team srv t =
     (case col_text srv (Varchar 255) (team_Name t) of
        Inl _ \<Rightarrow> None
      | Inr n \<Rightarrow> Some (t\<lparr>team_Name := n, team_CreatedAt := srv_datetime srv (team_CreatedAt t)\<rparr>))"

text \<open>The tables after a successful creation.\<close>

definition team_created :: "server \<Rightarrow> nat \<Rightarrow> Team \<Rightarrow> uuid \<Rightarrow> database \<Rightarrow> err + database" where
  "team_created srv k team owner d =
     and_then (insert_teams srv (team_args team) d)
       (insert_team_members srv (Suc k) (uuidToBytes (team_ID team)) (uuidToBytes owner) RoleOwner)"

section \<open>Reading\<close>

lemma find_unique:
  assumes "distinct (map f xs)" and "x \<in> set xs" and "\<And>y. P y \<longleftrightarrow> f y = f x"
  shows "find P xs = Some x"
  using assms
proof (induction xs)
  case (Cons a xs)
  then show ?case by (cases "a = x") (auto simp: image_iff)
qed simp

lemma reads_GetMemberRole: "reads (GetMemberRole srv t u)"
  unfolding GetMemberRole_def by (intro keeps_intros)

lemma reads_GetTeamByID: "reads (GetTeamByID srv i)"
  unfolding GetTeamByID_def by (intro keeps_intros)

lemma reads_GetTeamsByUser: "reads (GetTeamsByUser srv u)"
  unfolding GetTeamsByUser_def by (intro keeps_intros)

lemma GetMemberRole_cases:
  assumes "run_state (GetMemberRole srv t u) w = (x, w')"
  obtains (found) r where "r \<in> set (team_members (db w))" "mr_TeamID r = uuidToBytes t" "mr_UserID r = uuidToBytes u"
      "x = Inr (mr_Role r)" "w' = advance w"
  | (missing) "\<forall>r \<in> set (team_members (db w)). \<not> (mr_TeamID r = uuidToBytes t \<and> mr_UserID r = uuidToBytes u)"
      "x = Inl (Sentinel ErrNotFound)" "w' = advance w"
  | (lost) m where "x = Inl (errorf ''mysql: get member role: '' (DriverErr m))" "w' = advance w"
  using assms unfolding GetMemberRole_def by (rule read_row_cases) (auto intro: that)

lemma GetMemberRole_Inr:
  assumes ok: "db_ok srv n (db w)" and run: "run_state (GetMemberRole srv t u) w = (Inr x, w')"
  shows "role_view (db w) t u = Some x"
  using run
proof (cases rule: GetMemberRole_cases)
  case (found r)
  have "distinct (map (\<lambda>r. (mr_TeamID r, mr_UserID r)) (team_members (db w)))"
    using ok by (simp add: db_ok_def members_ok_def)
  from find_unique [OF this found(1), of "\<lambda>r. mr_TeamID r = uuidToBytes t \<and> mr_UserID r = uuidToBytes u"] found
  show ?thesis by (auto simp: role_view_def)
qed simp_all

lemma GetMemberRole_Inl:
  assumes run: "run_state (GetMemberRole srv t u) w = (Inl e, w')" and nf: "errors_Is e ErrNotFound"
  shows "role_view (db w) t u = None"
  using run
proof (cases rule: GetMemberRole_cases)
  case missing
  then have "find (\<lambda>r. mr_TeamID r = uuidToBytes t \<and> mr_UserID r = uuidToBytes u) (team_members (db w)) = None"
    by (simp add: find_None_iff)
  then show ?thesis by (simp add: role_view_def)
qed (use nf in simp_all)

lemma GetMemberRole_not_forbidden:
  "run_state (GetMemberRole srv t u) w = (Inl e, w') \<Longrightarrow> \<not> errors_Is e ErrForbidden"
  by (erule GetMemberRole_cases) auto

interpretation mysql_members: member_checker "base_inv P srv" db outside "GetMemberRole srv" role_view
  for P srv
  by unfold_locales
    (auto intro: quiet_base reads_GetMemberRole GetMemberRole_Inr GetMemberRole_Inl
      dest: GetMemberRole_not_forbidden base_inv_db)

lemma toTeam_args [simp]: "toTeam (team_args t) = Inr t"
  by (simp add: toTeam_def team_args_def)

lemma toTeam_Inr_args: "toTeam r = Inr t \<Longrightarrow> r = team_args t"
  by (cases r) (auto simp: toTeam_def team_args_def bytesToUUID_Inr_iff)

lemma toTeam_no_sentinel: "toTeam r = Inl e \<Longrightarrow> \<not> errors_Is e s"
  by (auto simp: toTeam_def bytesToUUID_def and_then_eq_Inl split: if_splits)

lemma tr_ID_team_args [simp]: "tr_ID (team_args t) = uuidToBytes (team_ID t)"
  by (simp add: team_args_def)

lemma team_row_args:
  assumes "db_ok srv n d" and "r \<in> set (teams d)"
  shows "\<exists>t. r = team_args t"
proof -
  from assms have "length (tr_ID r) = 16" "tr_CreatedBy r \<in> ur_ID ` set (users d)"
    by (auto simp: db_ok_def teams_ok_def)
  then have "length (tr_ID r) = 16" "length (tr_CreatedBy r) = 16"
    using db_ok_lengths(1) [OF assms(1)] by blast+
  then have "\<exists>t. toTeam r = Inr t" by (auto simp: toTeam_def bytesToUUID_def)
  then show ?thesis by (blast dest: toTeam_Inr_args)
qed

lemma team_view_args:
  assumes ok: "db_ok srv n d" and t: "team_args t \<in> set (teams d)"
  shows "team_view d (team_ID t) = Some t"
proof -
  have "distinct (map tr_ID (teams d))" using ok by (simp add: db_ok_def teams_ok_def)
  from find_unique [OF this t, of "\<lambda>r. tr_ID r = uuidToBytes (team_ID t)"]
  show ?thesis by (simp add: team_view_def)
qed

lemma GetTeamByID_cases:
  assumes "run_state (GetTeamByID srv i) w = (x, w')"
  obtains (found) r where "r \<in> set (teams (db w))" "tr_ID r = uuidToBytes i" "x = toTeam r" "w' = advance w"
  | (missing) "\<forall>r \<in> set (teams (db w)). tr_ID r \<noteq> uuidToBytes i" "x = Inl (Sentinel ErrNotFound)" "w' = advance w"
  | (lost) m where "x = Inl (errorf ''mysql: get team by id: '' (DriverErr m))" "w' = advance w"
  using assms unfolding GetTeamByID_def by (rule read_row_cases) (auto intro: that)

lemma GetTeamByID_Inr:
  assumes ok: "db_ok srv n (db w)" and run: "run_state (GetTeamByID srv i) w = (Inr t, w')"
  shows "team_view (db w) i = Some t"
  using run
proof (cases rule: GetTeamByID_cases)
  case (found r)
  then have "r = team_args t" by (auto dest: toTeam_Inr_args [OF sym])
  with found team_view_args [OF ok] show ?thesis by auto
qed simp_all

lemma GetTeamByID_Inl:
  assumes run: "run_state (GetTeamByID srv i) w = (Inl e, w')" and nf: "errors_Is e ErrNotFound"
  shows "team_view (db w) i = None"
  using run
proof (cases rule: GetTeamByID_cases)
  case missing
  then have "find (\<lambda>r. tr_ID r = uuidToBytes i) (teams (db w)) = None" by (simp add: find_None_iff)
  then show ?thesis by (simp add: team_view_def)
next
  case (found r)
  with nf show ?thesis by (metis toTeam_no_sentinel)
qed (use nf in simp_all)

lemma GetTeamByID_not_forbidden:
  "run_state (GetTeamByID srv i) w = (Inl e, w') \<Longrightarrow> \<not> errors_Is e ErrForbidden"
  by (erule GetTeamByID_cases) (auto dest: toTeam_no_sentinel [OF sym])

section \<open>The teams of a user\<close>

definition all_teams :: "database \<Rightarrow> Team list" where
  "all_teams d = (case traverse toTeam (teams d) of Inl _ \<Rightarrow> [] | Inr ts \<Rightarrow> ts)"

lemma traverse_toTeam_args [simp]: "traverse toTeam (map team_args ts) = Inr ts"
  by (induction ts) simp_all

lemma teams_map: "db_ok srv n d \<Longrightarrow> teams d = map team_args (all_teams d)"
proof -
  assume ok: "db_ok srv n d"
  have "\<exists>ts. teams d = map team_args ts" by (rule image_list) (rule team_row_args [OF ok])
  then show ?thesis by (auto simp: all_teams_def)
qed

text \<open>A membership joins a team at most once.\<close>

lemma memberships_of_team:
  assumes ok: "db_ok srv n d"
  shows "map (\<lambda>_. x) (filter (\<lambda>m. mr_TeamID m = uuidToBytes t \<and> mr_UserID m = uuidToBytes u) (team_members d)) =
    (if role_view d t u = None then [] else [x])"
proof (cases "\<exists>m \<in> set (team_members d). mr_TeamID m = uuidToBytes t \<and> mr_UserID m = uuidToBytes u")
  case True
  then obtain m where m: "m \<in> set (team_members d)" "mr_TeamID m = uuidToBytes t" "mr_UserID m = uuidToBytes u"
    by blast
  have "distinct (map (\<lambda>r. (mr_TeamID r, mr_UserID r)) (team_members d))"
    using ok by (simp add: db_ok_def members_ok_def)
  from filter_singleton [OF this m(1)] find_unique [OF this m(1)] m show ?thesis
    by (simp add: role_view_def)
next
  case False
  then have "find (\<lambda>m. mr_TeamID m = uuidToBytes t \<and> mr_UserID m = uuidToBytes u) (team_members d) = None"
    by (simp add: find_None_iff)
  with False show ?thesis by (simp add: role_view_def filter_empty_conv)
qed

lemma select_user_teams_map:
  assumes ok: "db_ok srv n d"
  shows "select_user_teams srv (uuidToBytes u) k d =
    map team_args (visit srv k (filter (\<lambda>t. role_view d (team_ID t) u \<noteq> None) (all_teams d)))"
proof -
  have "concat (map (\<lambda>t. if role_view d (team_ID t) u = None then [] else [team_args t]) ts) =
    map team_args (filter (\<lambda>t. role_view d (team_ID t) u \<noteq> None) ts)" for ts
    by (induction ts) simp_all
  then show ?thesis
    unfolding select_user_teams_def
    by (subst teams_map [OF ok]) (simp add: o_def memberships_of_team [OF ok] visit_map)
qed

lemma GetTeamsByUser_Inr:
  assumes ok: "db_ok srv n (db w)" and run: "run_state (GetTeamsByUser srv u) w = (Inr ts, w')"
  shows "mset ts = mset (filter (\<lambda>t. role_view (db w) (team_ID t) u \<noteq> None) (all_teams (db w)))"
proof -
  from run have "traverse toTeam (select_user_teams srv (uuidToBytes u) (tick w) (db w)) = Inr ts"
    by (auto simp: GetTeamsByUser_def elim!: db_Select_cases split: sum.splits prod.splits)
  then have "ts = visit srv (tick w) (filter (\<lambda>t. role_view (db w) (team_ID t) u \<noteq> None) (all_teams (db w)))"
    by (simp add: select_user_teams_map [OF ok])
  then show ?thesis by simp
qed

section \<open>Saving a member\<close>

lemma find_map_update:
  assumes "\<And>r. P (f r) \<longleftrightarrow> P r"
  shows "find P (map f xs) = map_option f (find P xs)"
  by (induction xs) (simp_all add: assms)

lemma find_append: "find P (xs @ ys) = (case find P xs of None \<Rightarrow> find P ys | Some x \<Rightarrow> Some x)"
  by (induction xs) simp_all

lemma role_view_append:
  assumes "\<forall>r \<in> set (team_members d). \<not> (mr_TeamID r = uuidToBytes t \<and> mr_UserID r = uuidToBytes u)"
  shows "role_view (d\<lparr>team_members := team_members d @
      [\<lparr>mr_TeamID = uuidToBytes t, mr_UserID = uuidToBytes u, mr_Role = v, mr_JoinedAt = j\<rparr>]\<rparr>) =
    set_role (role_view d) t u v"
proof (intro ext)
  fix t' u'
  have "find (\<lambda>r. mr_TeamID r = uuidToBytes t \<and> mr_UserID r = uuidToBytes u) (team_members d) = None"
    using assms by (simp add: find_None_iff)
  then show "role_view (d\<lparr>team_members := team_members d @
      [\<lparr>mr_TeamID = uuidToBytes t, mr_UserID = uuidToBytes u, mr_Role = v, mr_JoinedAt = j\<rparr>]\<rparr>) t' u' =
    set_role (role_view d) t u v t' u'"
    by (auto simp: role_view_def set_role_def find_append split: option.splits)
qed

lemma role_view_update:
  assumes "\<exists>r \<in> set (team_members d). mr_TeamID r = uuidToBytes t \<and> mr_UserID r = uuidToBytes u"
  shows "role_view (d\<lparr>team_members := map (\<lambda>r. if mr_TeamID r = uuidToBytes t \<and> mr_UserID r = uuidToBytes u
      then r\<lparr>mr_Role := v\<rparr> else r) (team_members d)\<rparr>) = set_role (role_view d) t u v" (is "role_view ?d = _")
proof (intro ext)
  fix t' u'
  let ?f = "\<lambda>r. if mr_TeamID r = uuidToBytes t \<and> mr_UserID r = uuidToBytes u then r\<lparr>mr_Role := v\<rparr> else r"
  let ?P = "\<lambda>r. mr_TeamID r = uuidToBytes t' \<and> mr_UserID r = uuidToBytes u'"
  have *: "find ?P (map ?f (team_members d)) = map_option ?f (find ?P (team_members d))"
    by (rule find_map_update) simp
  show "role_view ?d t' u' = set_role (role_view d) t u v t' u'"
  proof (cases "find ?P (team_members d)")
    case None
    with assms have "\<not> (t' = t \<and> u' = u)" by (auto simp: find_None_iff)
    with None * show ?thesis by (auto simp: role_view_def set_role_def)
  next
    case (Some r)
    then have "?P r" by (auto simp: find_Some_iff)
    with Some * show ?thesis by (auto simp: role_view_def set_role_def)
  qed
qed

lemma upsert_role_view:
  assumes "upsert_team_members srv k (uuidToBytes t) (uuidToBytes u) role d = Inr d'"
  shows "\<exists>v. col_enum srv roles role = Inr v \<and> role_view d' = set_role (role_view d) t u v \<and>
    (\<exists>ms. d' = d\<lparr>team_members := ms\<rparr>)"
proof (cases "\<exists>r \<in> set (team_members d). mr_TeamID r = uuidToBytes t \<and> mr_UserID r = uuidToBytes u")
  case True
  with assms role_view_update [OF True] show ?thesis
    by (auto simp: upsert_team_members_def simp del: map_eq_conv)
next
  case False
  with assms role_view_append [of d t u] show ?thesis
    by (auto simp: upsert_team_members_def split: if_splits)
qed

lemma upsert_no_sentinel: "upsert_team_members srv k t u role d = Inl e \<Longrightarrow> \<not> errors_Is e s"
  by (auto simp: upsert_team_members_def and_then_eq_Inl mysql_error_def col_enum_def split: if_splits option.splits)

lemma stores_SaveMember: "stores (store_inv srv) outside (SaveMember srv t u role)"
  unfolding SaveMember_def
  by (intro stores_intros stores_Exec) (blast intro: db_ok_Suc upsert_team_members_ok)

lemma SaveMember_cases:
  assumes "run_state (SaveMember srv t u role) w = (r, w')"
  obtains (ok) v ms where "r = Inr ()" "col_enum srv roles role = Inr v"
      "role_view (db w') = set_role (role_view (db w)) t u v" "db w' = (db w)\<lparr>team_members := ms\<rparr>"
  | (err) e where "r = Inl e" "db w' = db w" "\<And>s. \<not> errors_Is e s"
  | (lost) e v ms where "r = Inl e" "\<And>s. \<not> errors_Is e s" "col_enum srv roles role = Inr v"
      "role_view (db w') = set_role (role_view (db w)) t u v" "db w' = (db w)\<lparr>team_members := ms\<rparr>"
proof -
  let ?stmt = "\<lambda>k. upsert_team_members srv k (uuidToBytes t) (uuidToBytes u) role"
  obtain x v where x: "run_state (db_Exec srv ?stmt) w = (x, v)" by fastforce
  with assms have r: "r = on_err (errorf ''mysql: save member: '') x" and w': "w' = v"
    by (auto simp: SaveMember_def)
  from x show thesis
  proof (cases rule: db_Exec_cases)
    case (ok d)
    with upsert_role_view [OF ok(2)] r w' that(1) show thesis by auto
  next
    case (refused e)
    with r w' that(2) show thesis by (auto dest: upsert_no_sentinel)
  next
    case (lost m)
    with r w' that(2) show thesis by auto
  next
    case (lost_after m d)
    with upsert_role_view [OF lost_after(2)] r w' that(3) show thesis by auto
  qed
qed

section \<open>Creating a team with its owner\<close>

lemma insert_teams_no_sentinel: "insert_teams srv r d = Inl e \<Longrightarrow> \<not> errors_Is e s"
  by (auto simp: insert_teams_def and_then_eq_Inl mysql_error_def col_text_def col_binary16_def
      split: if_splits option.splits)

lemma insert_team_members_no_sentinel: "insert_team_members srv k t u role d = Inl e \<Longrightarrow> \<not> errors_Is e s"
  by (auto simp: insert_team_members_def and_then_eq_Inl mysql_error_def col_enum_def split: if_splits option.splits)

lemma create_in_tx_run:
  assumes tx: "tx w = Some (db w)" and run: "run_state (create_in_tx srv team owner) w = (r, w')"
  shows "case r of
      Inr _ \<Rightarrow> team_created srv (tick w) team owner (db w) = Inr (db w')
    | Inl e \<Rightarrow> (db w' = db w \<or> team_created srv (tick w) team owner (db w) = Inr (db w')) \<and> \<not> errors_Is e s"
  using assms
  by (auto simp: create_in_tx_def tx_Exec_def tx_Commit_def team_created_def
      insert_teams_no_sentinel insert_team_members_no_sentinel split: fault.splits sum.splits)

lemma CreateTeamWithOwner_run:
  assumes "run_state (CreateTeamWithOwner srv team owner) w = (r, w')"
  shows "case r of
      Inr _ \<Rightarrow> team_created srv (Suc (tick w)) team owner (db w) = Inr (db w')
    | Inl e \<Rightarrow> (db w' = db w \<or> team_created srv (Suc (tick w)) team owner (db w) = Inr (db w')) \<and> \<not> errors_Is e s"
proof (cases "srv_fault srv (tick w) = NoFault")
  case True
  let ?w = "(advance w)\<lparr>tx := Some (db w)\<rparr>"
  obtain x v where xv: "run_state (create_in_tx srv team owner) ?w = (x, v)" by fastforce
  with assms True have "r = x" and "w' = v\<lparr>tx := None\<rparr>"
    by (simp_all add: CreateTeamWithOwner_def with_tx_def db_Begin_def tx_Rollback_def)
  with create_in_tx_run [OF _ xv, of s] show ?thesis by (cases x) simp_all
next
  case False
  with assms show ?thesis
    by (auto simp: CreateTeamWithOwner_def with_tx_def db_Begin_def split: fault.splits)
qed

lemma stores_CreateTeamWithOwner: "stores (store_inv srv) outside (CreateTeamWithOwner srv team owner)"
  unfolding CreateTeamWithOwner_def create_in_tx_def
  by (intro stores_intros stores_tx_Exec) (blast intro: db_ok_Suc insert_teams_ok insert_team_members_ok)+

lemma find_team_None: "uuidToBytes i \<notin> tr_ID ` set xs \<Longrightarrow> find (\<lambda>r. tr_ID r = uuidToBytes i) xs = None"
  by (auto simp: find_None_iff image_iff)

lemma insert_teams_args:
  assumes "insert_teams srv (team_args team) d = Inr d'"
  shows "\<exists>s. stored_team srv team = Some s \<and> uuidToBytes (team_ID team) \<notin> tr_ID ` set (teams d) \<and>
    d' = d\<lparr>teams := teams d @ [team_args s]\<rparr>"
  using assms by (auto simp: insert_teams_def stored_team_def team_args_def split: if_splits)

lemma stored_team_ID: "stored_team srv t = Some s \<Longrightarrow> team_ID s = team_ID t \<and> team_CreatedBy s = team_CreatedBy t"
  by (auto simp: stored_team_def split: sum.splits)

lemma team_view_append:
  assumes "uuidToBytes (team_ID s) \<notin> tr_ID ` set (teams d)"
  shows "team_view (d\<lparr>teams := teams d @ [team_args s]\<rparr>) = (team_view d)(team_ID s \<mapsto> s)"
proof
  fix i
  show "team_view (d\<lparr>teams := teams d @ [team_args s]\<rparr>) i = ((team_view d)(team_ID s \<mapsto> s)) i"
    using find_team_None [OF assms]
    by (cases "i = team_ID s") (simp_all add: team_view_def find_append split: option.splits)
qed

lemma role_view_frame [simp]:
  "role_view (d\<lparr>teams := xs\<rparr>) = role_view d"
  "role_view (d\<lparr>users := us\<rparr>) = role_view d"
  "role_view (d\<lparr>tasks := ts\<rparr>) = role_view d"
  "role_view (d\<lparr>task_history := hs\<rparr>) = role_view d"
  "role_view (d\<lparr>task_comments := cs\<rparr>) = role_view d"
  by (simp_all add: role_view_def fun_eq_iff)

lemma team_view_frame [simp]:
  "team_view (d\<lparr>team_members := ms\<rparr>) = team_view d"
  "team_view (d\<lparr>users := us\<rparr>) = team_view d"
  "team_view (d\<lparr>tasks := ts\<rparr>) = team_view d"
  "team_view (d\<lparr>task_history := hs\<rparr>) = team_view d"
  "team_view (d\<lparr>task_comments := cs\<rparr>) = team_view d"
  by (simp_all add: team_view_def fun_eq_iff)

text \<open>Only an existing team has members.\<close>

lemma role_view_Some:
  assumes "role_view d t u = Some v"
  shows "\<exists>r \<in> set (team_members d). mr_TeamID r = uuidToBytes t \<and> mr_UserID r = uuidToBytes u \<and> mr_Role r = v"
  using assms by (auto simp: role_view_def find_Some_iff)

lemma role_view_team:
  assumes ok: "db_ok srv n d" and r: "role_view d t u = Some v"
  shows "uuidToBytes t \<in> tr_ID ` set (teams d)" and "uuidToBytes u \<in> ur_ID ` set (users d)" and "v \<in> set roles"
proof -
  from role_view_Some [OF r] obtain m where m: "m \<in> set (team_members d)" "mr_TeamID m = uuidToBytes t"
    "mr_UserID m = uuidToBytes u" "mr_Role m = v" by blast
  with ok have "member_parents d (uuidToBytes t) (uuidToBytes u) \<and> v \<in> set roles"
    unfolding db_ok_def members_ok_def by metis
  then show "uuidToBytes t \<in> tr_ID ` set (teams d)" and "uuidToBytes u \<in> ur_ID ` set (users d)" and "v \<in> set roles"
    by (simp_all add: member_parents_def)
qed

lemma team_created_views:
  assumes ok: "db_ok srv n d" and enum: "enum_exact srv" and new: "team_created srv k team owner d = Inr d'"
  shows "\<exists>s. stored_team srv team = Some s \<and> team_view d (team_ID team) = None \<and>
    team_view d' = (team_view d)(team_ID team \<mapsto> s) \<and>
    role_view d' = set_role (role_view d) (team_ID team) owner RoleOwner \<and>
    (\<forall>u. role_view d (team_ID team) u = None) \<and>
    users d' = users d \<and> tasks d' = tasks d \<and> task_history d' = task_history d \<and> task_comments d' = task_comments d"
proof -
  from new obtain c where c: "insert_teams srv (team_args team) d = Inr c"
    and m: "insert_team_members srv (Suc k) (uuidToBytes (team_ID team)) (uuidToBytes owner) RoleOwner c = Inr d'"
    by (auto simp: team_created_def)
  from insert_teams_args [OF c] obtain s where s: "stored_team srv team = Some s"
    and fresh: "uuidToBytes (team_ID team) \<notin> tr_ID ` set (teams d)"
    and cd: "c = d\<lparr>teams := teams d @ [team_args s]\<rparr>" by blast
  have id: "team_ID s = team_ID team" using stored_team_ID [OF s] by simp
  have role: "col_enum srv roles RoleOwner = Inr RoleOwner"
    by (rule col_enum_exact [OF enum]) (simp_all add: roles_def domain_constants)
  from m role obtain j where d': "d' = c\<lparr>team_members := team_members c @
      [\<lparr>mr_TeamID = uuidToBytes (team_ID team), mr_UserID = uuidToBytes owner, mr_Role = RoleOwner, mr_JoinedAt = j\<rparr>]\<rparr>"
    and free: "\<forall>r \<in> set (team_members c). \<not> (mr_TeamID r = uuidToBytes (team_ID team) \<and> mr_UserID r = uuidToBytes owner)"
    by (auto simp: insert_team_members_def split: if_splits)
  have "role_view d' = set_role (role_view c) (team_ID team) owner RoleOwner"
    unfolding d' by (rule role_view_append [OF free])
  then have "role_view d' = set_role (role_view d) (team_ID team) owner RoleOwner" by (simp add: cd)
  moreover have "team_view d' = (team_view d)(team_ID team \<mapsto> s)"
    using team_view_append [of s d] fresh id by (simp add: d' cd)
  moreover have "team_view d (team_ID team) = None"
    using find_team_None [OF fresh] by (simp add: team_view_def)
  moreover have "role_view d (team_ID team) u = None" for u
    using fresh role_view_team(1) [OF ok] by (cases "role_view d (team_ID team) u") auto
  ultimately show ?thesis using s by (simp add: d' cd)
qed

section \<open>The contract of the team storage\<close>

definition non_team_tables :: "database \<Rightarrow> userRow list \<times> taskRow list \<times> historyRow list \<times> commentRow list" where
  "non_team_tables d = (users d, tasks d, task_history d, task_comments d)"

lemma CreateTeamWithOwner_added:
  assumes ok: "db_ok srv n (db w)" and enum: "enum_exact srv"
    and run: "run_state (CreateTeamWithOwner srv team owner) w = (x, w')"
  shows "case x of
      Inr _ \<Rightarrow> team_added role_view team_view non_team_tables (stored_team srv) team owner (db w) (db w')
    | Inl e \<Rightarrow> (db w' = db w \<or> team_added role_view team_view non_team_tables (stored_team srv) team owner (db w) (db w'))
        \<and> (\<forall>g. \<not> errors_Is e g)"
proof -
  have "team_added role_view team_view non_team_tables (stored_team srv) team owner (db w) (db w')"
    if "team_created srv (Suc (tick w)) team owner (db w) = Inr (db w')"
    using team_created_views [OF ok enum that] by (auto simp: team_added_def non_team_tables_def)
  moreover note CreateTeamWithOwner_run [OF run]
  ultimately show ?thesis by (cases x) (simp, metis, simp)
qed

lemma col_enum_member: "enum_exact srv \<Longrightarrow> col_enum srv roles RoleMember = Inr RoleMember"
  by (rule col_enum_exact) (simp_all add: roles_def domain_constants)

lemma SaveMember_saved:
  assumes enum: "enum_exact srv" and run: "run_state (SaveMember srv t u RoleMember) w = (x, w')"
  shows "case x of
      Inr _ \<Rightarrow> member_saved role_view team_view non_team_tables t u RoleMember (db w) (db w')
    | Inl e \<Rightarrow> (db w' = db w \<or> member_saved role_view team_view non_team_tables t u RoleMember (db w) (db w'))
        \<and> (\<forall>g. \<not> errors_Is e g)"
  using run
proof (cases rule: SaveMember_cases)
  case (ok v ms)
  with col_enum_member [OF enum] have "v = RoleMember" by simp
  with ok show ?thesis by (simp add: member_saved_def non_team_tables_def)
next
  case (err e)
  then show ?thesis by simp
next
  case (lost e v ms)
  with col_enum_member [OF enum] have "v = RoleMember" by simp
  with lost show ?thesis by (simp add: member_saved_def non_team_tables_def)
qed

end
