(* ===== verification/MySQL_User.thy ===== *)
theory MySQL_User
  imports MySQL_Team
begin

text \<open>
  \<open>internal/storage/mysql/user.go\<close>: users.  The primary key and the unique e-mail column turn
  a second registration into \<open>ErrConflict\<close>.
\<close>

section \<open>Operations\<close>

definition user_args :: "User \<Rightarrow> userRow" where
  "user_args u =
     \<lparr>ur_ID = uuidToBytes (user_ID u), ur_Email = user_Email u, ur_Name = user_Name u,
      ur_Password = user_Password u, ur_CreatedAt = user_CreatedAt u\<rparr>"

definition toUser :: "userRow \<Rightarrow> err + User" where
  "toUser r =
     and_then (on_err (errorf ''mysql: parse user id: '') (bytesToUUID (ur_ID r))) (\<lambda>i.
       Inr \<lparr>user_ID = i, user_Email = ur_Email r, user_Name = ur_Name r,
            user_Password = ur_Password r, user_CreatedAt = ur_CreatedAt r\<rparr>)"

definition SaveUser :: "server \<Rightarrow> User \<Rightarrow> (world, unit) op" where
  "SaveUser srv u = do {
     r \<leftarrow> db_Exec srv (\<lambda>k. insert_users srv (user_args u));
     State_Monad.return (case r of
         Inl e \<Rightarrow> if isDuplicateEntry e then Inl (Sentinel ErrConflict) else Inl (errorf ''mysql: save user: '' e)
       | Inr _ \<Rightarrow> Inr ()) }"

text \<open>String comparison in SQL is equality up to the column's collation.\<close>

definition GetByEmail :: "server \<Rightarrow> string \<Rightarrow> (world, User) op" where
  "GetByEmail srv email = do {
     row \<leftarrow> db_Get srv (\<lambda>k d. Inr (filter (\<lambda>r. srv_collate srv (ur_Email r) = srv_collate srv email)
              (visit srv k (users d))));
     State_Monad.return (case row of
         Inl e \<Rightarrow> if errors_Is e ErrNoRows then Inl (Sentinel ErrNotFound)
                  else Inl (errorf ''mysql: get user by email: '' e)
       | Inr r \<Rightarrow> toUser r) }"

definition GetByID :: "server \<Rightarrow> uuid \<Rightarrow> (world, User) op" where
  "GetByID srv i = do {
     row \<leftarrow> db_Get srv (\<lambda>k d. Inr (filter (\<lambda>r. ur_ID r = uuidToBytes i) (visit srv k (users d))));
     State_Monad.return (case row of
         Inl e \<Rightarrow> if errors_Is e ErrNoRows then Inl (Sentinel ErrNotFound)
                  else Inl (errorf ''mysql: get user by id: '' e)
       | Inr r \<Rightarrow> toUser r) }"

section \<open>Views of the stored data\<close>

definition user_view :: "database \<Rightarrow> uuid \<Rightarrow> User option" where
  "user_view d i =
     (case find (\<lambda>r. ur_ID r = uuidToBytes i) (users d) of
        None \<Rightarrow> None
      | Some r \<Rightarrow> (case toUser r of Inl _ \<Rightarrow> None | Inr u \<Rightarrow> Some u))"

definition email_view :: "server \<Rightarrow> database \<Rightarrow> string \<Rightarrow> User option" where
  "email_view srv d m =
     (case find (\<lambda>r. srv_collate srv (ur_Email r) = srv_collate srv m) (users d) of
        None \<Rightarrow> None
      | Some r \<Rightarrow> (case toUser r of Inl _ \<Rightarrow> None | Inr u \<Rightarrow> Some u))"

definition stored_user :: "server \<Rightarrow> User \<Rightarrow> User option" where
  "stored_user srv u =
     (case and_then (col_text srv (Varchar 255) (user_Email u)) (\<lambda>m.
           and_then (col_text srv (Varchar 255) (user_Name u)) (\<lambda>n.
           and_then (col_text srv (Varchar 255) (user_Password u)) (\<lambda>p.
             Inr (u\<lparr>user_Email := m, user_Name := n, user_Password := p,
                    user_CreatedAt := srv_datetime srv (user_CreatedAt u)\<rparr>)))) of
        Inl _ \<Rightarrow> None | Inr s \<Rightarrow> Some s)"

section \<open>Reading\<close>

lemma toUser_args [simp]: "toUser (user_args u) = Inr u"
  by (simp add: toUser_def user_args_def)

lemma toUser_Inr_args: "toUser r = Inr u \<Longrightarrow> r = user_args u"
  by (cases r) (auto simp: toUser_def user_args_def bytesToUUID_Inr_iff)

lemma toUser_no_sentinel: "toUser r = Inl e \<Longrightarrow> \<not> errors_Is e s"
  by (auto simp: toUser_def bytesToUUID_def and_then_eq_Inl split: if_splits)

lemma user_args_simps [simp]:
  "ur_ID (user_args u) = uuidToBytes (user_ID u)" "ur_Email (user_args u) = user_Email u"
  by (simp_all add: user_args_def)

lemma reads_GetByEmail: "reads (GetByEmail srv m)"
  unfolding GetByEmail_def by (intro keeps_intros)

lemma reads_GetByID: "reads (GetByID srv i)"
  unfolding GetByID_def by (intro keeps_intros)

lemma GetByID_cases:
  assumes "run_state (GetByID srv i) w = (x, w')"
  obtains (found) r where "r \<in> set (users (db w))" "ur_ID r = uuidToBytes i" "x = toUser r" "w' = advance w"
  | (missing) "\<forall>r \<in> set (users (db w)). ur_ID r \<noteq> uuidToBytes i" "x = Inl (Sentinel ErrNotFound)" "w' = advance w"
  | (lost) m where "x = Inl (errorf ''mysql: get user by id: '' (DriverErr m))" "w' = advance w"
  using assms unfolding GetByID_def by (rule read_row_cases) (auto intro: that)

lemma GetByEmail_cases:
  assumes "run_state (GetByEmail srv m) w = (x, w')"
  obtains (found) r where "r \<in> set (users (db w))" "srv_collate srv (ur_Email r) = srv_collate srv m"
      "x = toUser r" "w' = advance w"
  | (missing) "\<forall>r \<in> set (users (db w)). srv_collate srv (ur_Email r) \<noteq> srv_collate srv m"
      "x = Inl (Sentinel ErrNotFound)" "w' = advance w"
  | (lost) n where "x = Inl (errorf ''mysql: get user by email: '' (DriverErr n))" "w' = advance w"
  using assms unfolding GetByEmail_def by (rule read_row_cases) (auto intro: that)

lemma user_view_args:
  assumes ok: "db_ok srv n d" and u: "user_args u \<in> set (users d)"
  shows "user_view d (user_ID u) = Some u"
proof -
  have "distinct (map ur_ID (users d))" using ok by (simp add: db_ok_def users_ok_def)
  from find_unique [OF this u, of "\<lambda>r. ur_ID r = uuidToBytes (user_ID u)"]
  show ?thesis by (simp add: user_view_def)
qed

lemma email_view_args:
  assumes ok: "db_ok srv n d" and u: "user_args u \<in> set (users d)"
    and m: "srv_collate srv (user_Email u) = srv_collate srv m"
  shows "email_view srv d m = Some u"
proof -
  have "distinct (map (srv_collate srv \<circ> ur_Email) (users d))" using ok by (simp add: db_ok_def users_ok_def)
  from find_unique [OF this u, of "\<lambda>r. srv_collate srv (ur_Email r) = srv_collate srv m"] m
  show ?thesis by (simp add: email_view_def)
qed

lemma GetByID_Inr:
  assumes ok: "db_ok srv n (db w)" and run: "run_state (GetByID srv i) w = (Inr u, w')"
  shows "user_view (db w) i = Some u"
  using run
proof (cases rule: GetByID_cases)
  case (found r)
  then have "r = user_args u" by (auto dest: toUser_Inr_args [OF sym])
  with found user_view_args [OF ok] show ?thesis by auto
qed simp_all

lemma GetByID_Inl:
  assumes run: "run_state (GetByID srv i) w = (Inl e, w')" and nf: "errors_Is e ErrNotFound"
  shows "user_view (db w) i = None"
  using run
proof (cases rule: GetByID_cases)
  case missing
  then have "find (\<lambda>r. ur_ID r = uuidToBytes i) (users (db w)) = None" by (simp add: find_None_iff)
  then show ?thesis by (simp add: user_view_def)
next
  case (found r)
  with nf show ?thesis by (metis toUser_no_sentinel)
qed (use nf in simp_all)

lemma GetByID_not_forbidden:
  "run_state (GetByID srv i) w = (Inl e, w') \<Longrightarrow> \<not> errors_Is e ErrForbidden"
  by (erule GetByID_cases) (auto dest: toUser_no_sentinel [OF sym])

lemma GetByEmail_Inr:
  assumes ok: "db_ok srv n (db w)" and run: "run_state (GetByEmail srv m) w = (Inr u, w')"
  shows "email_view srv (db w) m = Some u"
  using run
proof (cases rule: GetByEmail_cases)
  case (found r)
  then have "r = user_args u" by (auto dest: toUser_Inr_args [OF sym])
  with found email_view_args [OF ok] show ?thesis by auto
qed simp_all

lemma GetByEmail_Inl:
  assumes run: "run_state (GetByEmail srv m) w = (Inl e, w')" and nf: "errors_Is e s"
  shows "s = ErrNotFound \<and> email_view srv (db w) m = None"
  using run
proof (cases rule: GetByEmail_cases)
  case missing
  then have "find (\<lambda>r. srv_collate srv (ur_Email r) = srv_collate srv m) (users (db w)) = None"
    by (simp add: find_None_iff)
  with missing nf show ?thesis by (simp add: email_view_def)
next
  case (found r)
  with nf show ?thesis by (metis toUser_no_sentinel)
qed (use nf in simp_all)

section \<open>Saving\<close>

lemma insert_users_args:
  assumes "insert_users srv (user_args u) d = Inr d'"
  shows "\<exists>s. stored_user srv u = Some s \<and> user_ID s = user_ID u \<and>
    uuidToBytes (user_ID u) \<notin> ur_ID ` set (users d) \<and>
    (\<forall>r \<in> set (users d). srv_collate srv (ur_Email r) \<noteq> srv_collate srv (user_Email s)) \<and>
    d' = d\<lparr>users := users d @ [user_args s]\<rparr>"
proof -
  from assms obtain email name pw where
    cols: "col_text srv (Varchar 255) (user_Email u) = Inr email" "col_text srv (Varchar 255) (user_Name u) = Inr name"
      "col_text srv (Varchar 255) (user_Password u) = Inr pw"
    and fresh: "uuidToBytes (user_ID u) \<notin> ur_ID ` set (users d)"
      "srv_collate srv email \<notin> (srv_collate srv \<circ> ur_Email) ` set (users d)"
    and d': "d' = d\<lparr>users := users d @ [\<lparr>ur_ID = uuidToBytes (user_ID u), ur_Email = email, ur_Name = name,
      ur_Password = pw, ur_CreatedAt = srv_datetime srv (user_CreatedAt u)\<rparr>]\<rparr>"
    by (auto simp: insert_users_def user_args_def simp del: image_comp split: if_splits)
  let ?s = "u\<lparr>user_Email := email, user_Name := name, user_Password := pw,
    user_CreatedAt := srv_datetime srv (user_CreatedAt u)\<rparr>"
  have "stored_user srv u = Some ?s" using cols by (simp add: stored_user_def)
  moreover have "d' = d\<lparr>users := users d @ [user_args ?s]\<rparr>" by (simp add: d' user_args_def)
  moreover have "\<forall>r \<in> set (users d). srv_collate srv (ur_Email r) \<noteq> srv_collate srv (user_Email ?s)"
    using fresh(2) by (auto simp: image_iff)
  ultimately show ?thesis using fresh(1) by (intro exI [of _ ?s]) simp
qed

lemma email_view_append:
  assumes "\<forall>r \<in> set (users d). srv_collate srv (ur_Email r) \<noteq> srv_collate srv (user_Email s)"
  shows "email_view srv (d\<lparr>users := users d @ [user_args s]\<rparr>) m =
    (if srv_collate srv m = srv_collate srv (user_Email s) then Some s else email_view srv d m)"
proof (cases "srv_collate srv m = srv_collate srv (user_Email s)")
  case True
  with assms have "find (\<lambda>r. srv_collate srv (ur_Email r) = srv_collate srv m) (users d) = None"
    by (simp add: find_None_iff)
  with True show ?thesis by (simp add: email_view_def find_append)
next
  case False
  then show ?thesis by (auto simp: email_view_def find_append split: option.splits)
qed

lemma stores_SaveUser: "stores (store_inv srv) outside (SaveUser srv u)"
  unfolding SaveUser_def
  by (intro stores_intros stores_Exec) (blast intro: db_ok_Suc insert_users_ok)

text \<open>
  Every outcome of \<open>SaveUser\<close>.  A conflict is reported only when the identifier or the
  e-mail address is taken.
\<close>

lemma SaveUser_cases:
  assumes "run_state (SaveUser srv u) w = (r, w')"
  obtains (ok) s where "r = Inr ()" "stored_user srv u = Some s" "user_ID s = user_ID u"
      "\<forall>r \<in> set (users (db w)). srv_collate srv (ur_Email r) \<noteq> srv_collate srv (user_Email s)"
      "db w' = (db w)\<lparr>users := users (db w) @ [user_args s]\<rparr>"
  | (conflict) m where "r = Inl (Sentinel ErrConflict)" "db w' = db w"
      "col_text srv (Varchar 255) (user_Email u) = Inr m"
      "uuidToBytes (user_ID u) \<in> ur_ID ` set (users (db w)) \<or>
       srv_collate srv m \<in> (srv_collate srv \<circ> ur_Email) ` set (users (db w))"
  | (err) e where "r = Inl e" "db w' = db w" "\<And>s. \<not> errors_Is e s"
  | (lost) e s where "r = Inl e" "\<And>s. \<not> errors_Is e s" "stored_user srv u = Some s"
      "db w' = (db w)\<lparr>users := users (db w) @ [user_args s]\<rparr>"
      "\<forall>r \<in> set (users (db w)). srv_collate srv (ur_Email r) \<noteq> srv_collate srv (user_Email s)"
proof -
  let ?stmt = "\<lambda>k. insert_users srv (user_args u)"
  obtain x v where x: "run_state (db_Exec srv ?stmt) w = (x, v)" by fastforce
  with assms have r: "r = (case x of Inl e \<Rightarrow> if isDuplicateEntry e then Inl (Sentinel ErrConflict)
      else Inl (errorf ''mysql: save user: '' e) | Inr _ \<Rightarrow> Inr ())" and w': "w' = v"
    by (auto simp: SaveUser_def)
  from x show thesis
  proof (cases rule: db_Exec_cases)
    case (ok d)
    with insert_users_args [OF ok(2)] r w' that(1) show thesis by auto
  next
    case (refused e)
    show thesis
    proof (cases "isDuplicateEntry e")
      case True
      then obtain m where "col_text srv (Varchar 255) (user_Email u) = Inr m"
        and "uuidToBytes (user_ID u) \<in> ur_ID ` set (users (db w)) \<or>
          srv_collate srv m \<in> (srv_collate srv \<circ> ur_Email) ` set (users (db w))"
        using refused(2)
        by (auto simp: insert_users_def and_then_eq_Inl mysql_error_def col_text_def col_binary16_def
            isDuplicateEntry_def user_args_def simp del: image_comp
            split: if_splits option.splits)
      with True refused r w' that(2) show thesis by auto
    next
      case False
      have "\<not> errors_Is e s" for s
        using refused(2)
        by (auto simp: insert_users_def and_then_eq_Inl mysql_error_def col_text_def col_binary16_def
            split: if_splits option.splits)
      with False refused r w' that(3) show thesis by auto
    qed
  next
    case (lost m)
    with r w' that(3) show thesis by (auto simp: isDuplicateEntry_def)
  next
    case (lost_after m d)
    with insert_users_args [OF lost_after(2)] r w' that(4) show thesis by (auto simp: isDuplicateEntry_def)
  qed
qed

section \<open>The contracts of the user and team storages\<close>

interpretation mysql_teams: team_store "base_inv P srv" db outside "GetMemberRole srv" role_view
    "CreateTeamWithOwner srv" "SaveMember srv" "GetTeamsByUser srv" "GetTeamByID srv" "GetByID srv"
    team_view user_view all_teams non_team_tables "stored_team srv"
  for P srv
proof (unfold_locales, goal_cases)
  case (6 w u ts w')
  from GetTeamsByUser_Inr [OF base_inv_db [OF 6(1)] 6(2)] show ?case .
qed (auto intro: quiet_base stores_base reads_GetTeamsByUser reads_GetTeamByID reads_GetByID
      stores_CreateTeamWithOwner stores_SaveMember CreateTeamWithOwner_added SaveMember_saved
      GetTeamByID_Inr GetTeamByID_Inl GetByID_Inr GetByID_Inl
      dest: GetTeamByID_not_forbidden GetByID_not_forbidden base_inv_db base_inv_enum)

definition non_user_tables ::
  "database \<Rightarrow> teamRow list \<times> memberRow list \<times> taskRow list \<times> historyRow list \<times> commentRow list" where
  "non_user_tables d = (teams d, team_members d, tasks d, task_history d, task_comments d)"

definition same_email :: "server \<Rightarrow> string \<Rightarrow> string \<Rightarrow> bool" where
  "same_email srv a b \<longleftrightarrow> srv_collate srv a = srv_collate srv b"

lemma email_view_None:
  "\<forall>r \<in> set (users d). srv_collate srv (ur_Email r) \<noteq> srv_collate srv m \<Longrightarrow> email_view srv d m = None"
  by (simp add: email_view_def find_None_iff [THEN iffD2])

lemma SaveUser_saved:
  assumes "run_state (SaveUser srv u) w = (x, w')"
  shows "(\<exists>s. stored_user srv u = Some s \<and> email_view srv (db w) (user_Email s) = None \<and>
      (\<forall>m. email_view srv (db w') m = (if same_email srv m (user_Email s) then Some s else email_view srv (db w) m)) \<and>
      non_user_tables (db w') = non_user_tables (db w) \<and> (case x of Inr _ \<Rightarrow> True | Inl e \<Rightarrow> \<forall>g. \<not> errors_Is e g)) \<or>
    db w' = db w \<and> (\<exists>e. x = Inl e \<and> (\<forall>g. errors_Is e g \<longrightarrow> g = ErrConflict))"
proof -
  have new: "\<exists>s. stored_user srv u = Some s \<and> email_view srv (db w) (user_Email s) = None \<and>
      (\<forall>m. email_view srv (db w') m = (if same_email srv m (user_Email s) then Some s else email_view srv (db w) m)) \<and>
      non_user_tables (db w') = non_user_tables (db w)"
    if "stored_user srv u = Some s" "db w' = (db w)\<lparr>users := users (db w) @ [user_args s]\<rparr>"
      "\<forall>r \<in> set (users (db w)). srv_collate srv (ur_Email r) \<noteq> srv_collate srv (user_Email s)" for s
    using that email_view_None [OF that(3)] by (simp add: email_view_append same_email_def non_user_tables_def)
  from assms show ?thesis
  proof (cases rule: SaveUser_cases)
    case (ok s)
    with new [OF ok(2,5,4)] show ?thesis by auto
  next
    case (conflict m)
    then show ?thesis by auto
  next
    case (err e)
    then show ?thesis by auto
  next
    case (lost e s)
    with new [OF lost(3,4,5)] show ?thesis by auto
  qed
qed

interpretation mysql_users: user_store "base_inv P srv" db outside "SaveUser srv" "GetByEmail srv"
    "email_view srv" non_user_tables "same_email srv" "stored_user srv"
  for P srv
proof (unfold_locales, goal_cases)
  case (3 w m e w' g)
  from GetByEmail_Inl [OF 3(2,3)] show ?case .
next
  case (5 w u x w')
  from SaveUser_saved [OF 5(2)] show ?case .
qed (auto intro: quiet_base stores_base reads_GetByEmail stores_SaveUser GetByEmail_Inr dest: base_inv_db)

end
