(* ===== verification/MySQL_Task.thy ===== *)
theory MySQL_Task
  imports MySQL_Helpers
begin

text \<open>
  \<open>internal/storage/mysql/task.go\<close>: tasks and their change history.  The arguments of a
  statement are a row, the WHERE clause of the task list is the list of conditions with the
  list of their arguments, as the code builds it.
\<close>

section \<open>Rows and arguments\<close>

definition task_args :: "Task \<Rightarrow> taskRow" where
  "task_args t =
     \<lparr>tk_ID = uuidToBytes (task_ID t), tk_TeamID = uuidToBytes (task_TeamID t),
      tk_CreatedBy = uuidToBytes (task_CreatedBy t),
      tk_AssigneeID = map_option uuidToBytes (task_AssigneeID t),
      tk_Title = task_Title t, tk_Description = task_Description t,
      tk_Status = task_Status t, tk_Priority = task_Priority t, tk_DueDate = task_DueDate t,
      tk_CreatedAt = task_CreatedAt t, tk_UpdatedAt = task_UpdatedAt t\<rparr>"

definition toTask :: "taskRow \<Rightarrow> err + Task" where
  "toTask r =
     and_then (on_err (errorf ''mysql: parse task id: '') (bytesToUUID (tk_ID r))) (\<lambda>i.
     and_then (on_err (errorf ''mysql: parse task team_id: '') (bytesToUUID (tk_TeamID r))) (\<lambda>teamID.
     and_then (on_err (errorf ''mysql: parse task created_by: '') (bytesToUUID (tk_CreatedBy r))) (\<lambda>createdBy.
     and_then (on_err (errorf ''mysql: parse task assignee_id: '') (bytesToUUIDPtr (tk_AssigneeID r))) (\<lambda>assigneeID.
       Inr \<lparr>task_ID = i, task_TeamID = teamID, task_CreatedBy = createdBy, task_AssigneeID = assigneeID,
            task_Title = tk_Title r, task_Description = tk_Description r, task_Status = tk_Status r,
            task_Priority = tk_Priority r, task_DueDate = tk_DueDate r,
            task_CreatedAt = tk_CreatedAt r, task_UpdatedAt = tk_UpdatedAt r\<rparr>))))"

definition toHistory :: "historyRow \<Rightarrow> err + TaskHistory" where
  "toHistory r =
     and_then (on_err (errorf ''mysql: parse history task_id: '') (bytesToUUID (hr_TaskID r))) (\<lambda>taskID.
     and_then (on_err (errorf ''mysql: parse history changed_by: '') (bytesToUUID (hr_ChangedBy r))) (\<lambda>changedBy.
       Inr \<lparr>th_ID = hr_ID r, th_TaskID = taskID, th_ChangedBy = changedBy, th_Field = hr_Field r,
            th_OldValue = hr_OldValue r, th_NewValue = hr_NewValue r, th_ChangedAt = hr_ChangedAt r\<rparr>))"

definition history_args :: "TaskHistory \<Rightarrow> historyRow" where
  "history_args h =
     \<lparr>hr_ID = th_ID h, hr_TaskID = uuidToBytes (th_TaskID h), hr_ChangedBy = uuidToBytes (th_ChangedBy h),
      hr_Field = th_Field h, hr_OldValue = th_OldValue h, hr_NewValue = th_NewValue h,
      hr_ChangedAt = th_ChangedAt h\<rparr>"

section \<open>The filter of the task list\<close>

datatype sql_arg = ArgBytes bytes | ArgString string

definition buildTaskFilter :: "TaskFilter \<Rightarrow> string list \<times> sql_arg list" where
  "buildTaskFilter f =
     (let (conds, args) = (case tf_TeamID f of None \<Rightarrow> ([], [])
          | Some t \<Rightarrow> ([''team_id = ?''], [ArgBytes (uuidToBytes t)]));
        (conds, args) = (case tf_Status f of None \<Rightarrow> (conds, args)
          | Some s \<Rightarrow> (conds @ [''status = ?''], args @ [ArgString s]));
        (conds, args) = (case tf_AssigneeID f of None \<Rightarrow> (conds, args)
          | Some a \<Rightarrow> (conds @ [''assignee_id = ?''], args @ [ArgBytes (uuidToBytes a)]))
      in (conds, args))"

text \<open>
  One condition with its argument, on a row.  ENUM and string comparison uses the collation;
  a comparison with NULL is not true.
\<close>

definition sql_cond :: "server \<Rightarrow> taskRow \<Rightarrow> string \<Rightarrow> sql_arg \<Rightarrow> bool" where
  "sql_cond srv r c a \<longleftrightarrow>
     (case a of
        ArgBytes b \<Rightarrow> c = ''team_id = ?'' \<and> tk_TeamID r = b \<or> c = ''assignee_id = ?'' \<and> tk_AssigneeID r = Some b
      | ArgString s \<Rightarrow> c = ''status = ?'' \<and> srv_collate srv (tk_Status r) = srv_collate srv s)"

definition sql_where :: "server \<Rightarrow> string list \<Rightarrow> sql_arg list \<Rightarrow> taskRow \<Rightarrow> bool" where
  "sql_where srv conds args r \<longleftrightarrow> list_all2 (sql_cond srv r) conds args"

definition list_offset :: "goint \<Rightarrow> goint \<Rightarrow> goint" where
  "list_offset page limit = (page - 1) * limit"

text \<open>\<open>ORDER BY created_at DESC LIMIT ? OFFSET ?\<close>; the server refuses negative arguments.\<close>

definition select_page ::
  "server \<Rightarrow> (taskRow \<Rightarrow> bool) \<Rightarrow> goint \<Rightarrow> goint \<Rightarrow> nat \<Rightarrow> database \<Rightarrow> err + taskRow list" where
  "select_page srv P limit offset k d =
     (if sint limit < 0 \<or> sint offset < 0 then Inl (mysql_error srv (srv_limit_errno srv))
      else Inr (take (nat (sint limit)) (drop (nat (sint offset))
             (sort_key (\<lambda>r. - tk_CreatedAt r) (filter P (visit srv k (tasks d)))))))"

section \<open>Operations\<close>

definition SaveTask :: "server \<Rightarrow> Task \<Rightarrow> (world, unit) op" where
  "SaveTask srv t = do {
     r \<leftarrow> db_Exec srv (\<lambda>k. insert_tasks srv (task_args t));
     State_Monad.return (on_err (errorf ''mysql: save task: '') r) }"

definition GetTaskByID :: "server \<Rightarrow> uuid \<Rightarrow> (world, Task) op" where
  "GetTaskByID srv i = do {
     row \<leftarrow> db_Get srv (\<lambda>k d. Inr (filter (\<lambda>r. tk_ID r = uuidToBytes i) (visit srv k (tasks d))));
     State_Monad.return (case row of
         Inl e \<Rightarrow> if errors_Is e ErrNoRows then Inl (Sentinel ErrNotFound)
                  else Inl (errorf ''mysql: get task by id: '' e)
       | Inr r \<Rightarrow> toTask r) }"

definition ListTasks :: "server \<Rightarrow> TaskFilter \<Rightarrow> (world, Task list \<times> nat) op" where
  "ListTasks srv f = (case buildTaskFilter f of (conds, args) \<Rightarrow> do {
     c \<leftarrow> db_Get srv (\<lambda>k d. Inr [length (filter (sql_where srv conds args) (tasks d))]);
     case c of
       Inl e \<Rightarrow> State_Monad.return (Inl (errorf ''mysql: count tasks: '' e))
     | Inr n \<Rightarrow> do {
         rows \<leftarrow> db_Select srv
           (select_page srv (sql_where srv conds args) (tf_Limit f) (list_offset (tf_Page f) (tf_Limit f)));
         State_Monad.return (case rows of
             Inl e \<Rightarrow> Inl (errorf ''mysql: list tasks: '' e)
           | Inr rs \<Rightarrow> and_then (traverse toTask rs) (\<lambda>ts. Inr (ts, n))) } })"

fun insert_entries :: "server \<Rightarrow> TaskHistory list \<Rightarrow> (world, unit) op" where
  "insert_entries srv [] = State_Monad.return (Inr ())"
| "insert_entries srv (h # hs) = do {
     r \<leftarrow> tx_Exec srv (\<lambda>k. insert_task_history srv k (history_args h));
     case r of
       Inl e \<Rightarrow> State_Monad.return (Inl (errorf ''mysql: save history: '' e))
     | Inr _ \<Rightarrow> insert_entries srv hs }"

text \<open>The statements between \<open>BeginTxx\<close> and the deferred \<open>Rollback\<close>.\<close>

definition update_in_tx :: "server \<Rightarrow> Task \<Rightarrow> TaskHistory list \<Rightarrow> (world, unit) op" where
  "update_in_tx srv t entries = do {
     u \<leftarrow> tx_Exec srv (\<lambda>k. update_tasks srv (task_args t));
     case u of
       Inl e \<Rightarrow> State_Monad.return (Inl (errorf ''mysql: update task: '' e))
     | Inr _ \<Rightarrow> do {
         h \<leftarrow> insert_entries srv entries;
         case h of
           Inl e \<Rightarrow> State_Monad.return (Inl e)
         | Inr _ \<Rightarrow> do {
             c \<leftarrow> tx_Commit srv;
             State_Monad.return (on_err (errorf ''mysql: commit: '') c) } } }"

definition UpdateTaskWithHistory :: "server \<Rightarrow> Task \<Rightarrow> TaskHistory list \<Rightarrow> (world, unit) op" where
  "UpdateTaskWithHistory srv t entries = with_tx srv (update_in_tx srv t entries)"

definition SaveHistory :: "server \<Rightarrow> TaskHistory \<Rightarrow> (world, unit) op" where
  "SaveHistory srv h = do {
     r \<leftarrow> db_Exec srv (\<lambda>k. insert_task_history srv k (history_args h));
     State_Monad.return (on_err (errorf ''mysql: save history: '') r) }"

definition ListHistory :: "server \<Rightarrow> uuid \<Rightarrow> (world, TaskHistory list) op" where
  "ListHistory srv i = do {
     rows \<leftarrow> db_Select srv (\<lambda>k d.
       Inr (sort_key hr_ChangedAt (filter (\<lambda>r. hr_TaskID r = uuidToBytes i) (visit srv k (task_history d)))));
     State_Monad.return (case rows of
         Inl e \<Rightarrow> Inl (errorf ''mysql: list history: '' e)
       | Inr rs \<Rightarrow> traverse toHistory rs) }"

section \<open>Views of the stored data\<close>

text \<open>A task by identifier, the stored form of a task, and the history of a task.\<close>

definition task_view :: "database \<Rightarrow> uuid \<Rightarrow> Task option" where
  "task_view d i =
     (case filter (\<lambda>r. tk_ID r = uuidToBytes i) (tasks d) of
        [] \<Rightarrow> None
      | r # _ \<Rightarrow> (case toTask r of Inl _ \<Rightarrow> None | Inr t \<Rightarrow> Some t))"

definition stored_task :: "server \<Rightarrow> Task \<Rightarrow> Task option" where
  "stored_task srv t =
     (case and_then (task_columns srv (task_args t)) toTask of Inl _ \<Rightarrow> None | Inr s \<Rightarrow> Some s)"

definition history_view :: "database \<Rightarrow> uuid \<Rightarrow> TaskHistory list" where
  "history_view d i =
     (case traverse toHistory (filter (\<lambda>r. hr_TaskID r = uuidToBytes i) (task_history d)) of
        Inl _ \<Rightarrow> [] | Inr hs \<Rightarrow> hs)"

text \<open>The filter as a predicate on tasks.\<close>

definition task_matches :: "server \<Rightarrow> TaskFilter \<Rightarrow> Task \<Rightarrow> bool" where
  "task_matches srv f t \<longleftrightarrow>
     (case tf_TeamID f of None \<Rightarrow> True | Some x \<Rightarrow> task_TeamID t = x) \<and>
     (case tf_Status f of None \<Rightarrow> True | Some s \<Rightarrow> srv_collate srv (task_Status t) = srv_collate srv s) \<and>
     (case tf_AssigneeID f of None \<Rightarrow> True | Some a \<Rightarrow> task_AssigneeID t = Some a)"

definition all_tasks :: "database \<Rightarrow> Task list" where
  "all_tasks d = (case traverse toTask (tasks d) of Inl _ \<Rightarrow> [] | Inr ts \<Rightarrow> ts)"

text \<open>
  What a successful update leaves in the tables: the row replaced and one row per history
  entry appended, all of it or an error.
\<close>

fun add_history :: "server \<Rightarrow> nat \<Rightarrow> TaskHistory list \<Rightarrow> database \<Rightarrow> err + database" where
  "add_history srv k [] d = Inr d"
| "add_history srv k (h # hs) d =
     and_then (insert_task_history srv k (history_args h) d) (add_history srv (Suc k) hs)"

definition task_updated :: "server \<Rightarrow> nat \<Rightarrow> Task \<Rightarrow> TaskHistory list \<Rightarrow> database \<Rightarrow> err + database" where
  "task_updated srv k t es d = and_then (update_tasks srv (task_args t) d) (add_history srv (Suc k) es)"

definition entry_stored :: "server \<Rightarrow> TaskHistory \<Rightarrow> TaskHistory \<Rightarrow> bool" where
  "entry_stored srv h s \<longleftrightarrow>
     th_TaskID s = th_TaskID h \<and> th_ChangedBy s = th_ChangedBy h \<and>
     col_text srv (Varchar 100) (th_Field h) = Inr (th_Field s) \<and>
     col_text_null srv TextCol (th_OldValue h) = Inr (th_OldValue s) \<and>
     col_text_null srv TextCol (th_NewValue h) = Inr (th_NewValue s) \<and>
     th_ChangedAt s = srv_datetime srv (th_ChangedAt h)"

section \<open>Rows and domain values\<close>

lemma toTask_args [simp]: "toTask (task_args t) = Inr t"
  by (simp add: toTask_def task_args_def)

lemma task_args_inject [simp]: "task_args s = task_args t \<longleftrightarrow> s = t"
  by (metis toTask_args sum.inject(2))

lemma toTask_Inr_args: "toTask r = Inr t \<Longrightarrow> tk_AssigneeID r \<noteq> Some [] \<Longrightarrow> r = task_args t"
  by (cases r) (auto simp: toTask_def task_args_def bytesToUUIDPtr_def bytesToUUID_Inr_iff
      split: option.splits if_splits)

lemma toHistory_args [simp]: "toHistory (history_args h) = Inr h"
  by (simp add: toHistory_def history_args_def)

lemma history_args_inject [simp]: "history_args g = history_args h \<longleftrightarrow> g = h"
  by (metis toHistory_args sum.inject(2))

lemma task_row_args:
  assumes "db_ok srv n d" and "r \<in> set (tasks d)"
  shows "\<exists>t. r = task_args t"
proof -
  from assms have "task_row_ok d r" by (simp add: db_ok_def tasks_ok_def)
  then have len: "length (tk_ID r) = 16" "length (tk_TeamID r) = 16" "length (tk_CreatedBy r) = 16"
    and a: "\<And>b. tk_AssigneeID r = Some b \<Longrightarrow> length b = 16"
    using db_ok_lengths [OF assms(1)] by (auto simp: task_row_ok_def member_parents_def)
  then have "\<exists>t. toTask r = Inr t"
    by (cases "tk_AssigneeID r") (auto simp: toTask_def bytesToUUID_def bytesToUUIDPtr_def)
  moreover from a have "tk_AssigneeID r \<noteq> Some []" by force
  ultimately show ?thesis by (blast dest: toTask_Inr_args)
qed

lemma history_row_args:
  assumes "db_ok srv n d" and "r \<in> set (task_history d)"
  shows "\<exists>h. r = history_args h"
proof -
  from assms have "hr_TaskID r \<in> tk_ID ` set (tasks d)" "hr_ChangedBy r \<in> ur_ID ` set (users d)"
    by (auto simp: db_ok_def history_ok_def)
  then have "length (hr_TaskID r) = 16" "length (hr_ChangedBy r) = 16"
    using db_ok_lengths [OF assms(1)] by blast+
  then obtain t u where "hr_TaskID r = uuidToBytes t" "hr_ChangedBy r = uuidToBytes u"
    by (metis bytesToUUID_length)
  then have "r = history_args \<lparr>th_ID = hr_ID r, th_TaskID = t, th_ChangedBy = u, th_Field = hr_Field r,
      th_OldValue = hr_OldValue r, th_NewValue = hr_NewValue r, th_ChangedAt = hr_ChangedAt r\<rparr>"
    by (simp add: history_args_def)
  then show ?thesis by blast
qed

lemma traverse_toTask_args [simp]: "traverse toTask (map task_args ts) = Inr ts"
  by (induction ts) simp_all

lemma traverse_toHistory_args [simp]: "traverse toHistory (map history_args hs) = Inr hs"
  by (induction hs) simp_all

lemma all_tasks_map: "tasks d = map task_args ts \<Longrightarrow> all_tasks d = ts"
  by (simp add: all_tasks_def)

lemma tasks_map: "db_ok srv n d \<Longrightarrow> tasks d = map task_args (all_tasks d)"
proof -
  assume ok: "db_ok srv n d"
  have "\<exists>ts. tasks d = map task_args ts"
    by (rule image_list) (rule task_row_args [OF ok])
  then obtain ts where "tasks d = map task_args ts" ..
  moreover from this have "all_tasks d = ts" by (rule all_tasks_map)
  ultimately show ?thesis by simp
qed

lemma history_map:
  assumes "db_ok srv n d"
  obtains hs where "task_history d = map history_args hs"
  using image_list [OF history_row_args [OF assms]] by blast

lemma tk_ID_task_args [simp]: "tk_ID (task_args t) = uuidToBytes (task_ID t)"
  by (simp add: task_args_def)

lemma hr_TaskID_history_args [simp]: "hr_TaskID (history_args h) = uuidToBytes (th_TaskID h)"
  by (simp add: history_args_def)

lemma tk_CreatedAt_task_args [simp]: "tk_CreatedAt (task_args t) = task_CreatedAt t"
  by (simp add: task_args_def)

lemma all_tasks_distinct: "db_ok srv n d \<Longrightarrow> distinct (map task_ID (all_tasks d))"
proof -
  assume ok: "db_ok srv n d"
  then have "distinct (map tk_ID (map task_args (all_tasks d)))"
    using tasks_map [OF ok] by (simp add: db_ok_def tasks_ok_def)
  then have "distinct (map uuidToBytes (map task_ID (all_tasks d)))" by (simp add: o_def)
  then show ?thesis by (rule distinct_map [THEN iffD1, THEN conjunct1])
qed

lemma task_view_iff:
  assumes "db_ok srv n d"
  shows "task_view d i = Some t \<longleftrightarrow> t \<in> set (all_tasks d) \<and> task_ID t = i"
proof -
  let ?ts = "all_tasks d"
  have flt: "filter (\<lambda>r. tk_ID r = uuidToBytes i) (tasks d) = map task_args (filter (\<lambda>t. task_ID t = i) ?ts)"
    by (subst tasks_map [OF assms]) (simp add: filter_map o_def)
  show ?thesis
  proof (cases "\<exists>s \<in> set ?ts. task_ID s = i")
    case True
    then obtain s where s: "s \<in> set ?ts" "task_ID s = i" by blast
    with filter_singleton [OF all_tasks_distinct [OF assms] s(1)]
    have "filter (\<lambda>t. task_ID t = i) ?ts = [s]" by simp
    with flt have "task_view d i = Some s" by (simp add: task_view_def)
    with s all_tasks_distinct [OF assms] show ?thesis by (auto dest: distinct_map [THEN iffD1] inj_onD)
  next
    case False
    then have "filter (\<lambda>t. task_ID t = i) ?ts = []" by (simp add: filter_empty_conv)
    with flt False show ?thesis by (auto simp: task_view_def)
  qed
qed

section \<open>The filter and the page\<close>

lemma buildTaskFilter_matches:
  "buildTaskFilter f = (conds, args) \<Longrightarrow> sql_where srv conds args (task_args t) \<longleftrightarrow> task_matches srv f t"
  by (auto simp: buildTaskFilter_def sql_where_def sql_cond_def task_matches_def task_args_def
      split: option.splits)

text \<open>Some order of the matching tasks, newest first, that one run of the query may use.\<close>

definition newest_first :: "server \<Rightarrow> TaskFilter \<Rightarrow> database \<Rightarrow> Task list \<Rightarrow> bool" where
  "newest_first srv f d ys \<longleftrightarrow>
     mset ys = mset (filter (task_matches srv f) (all_tasks d)) \<and>
     sorted_wrt (\<lambda>s t. task_CreatedAt t \<le> task_CreatedAt s) ys"

lemma select_page_tasks:
  assumes ok: "db_ok srv n d" and f: "buildTaskFilter f = (conds, args)"
    and sel: "select_page srv (sql_where srv conds args) limit offset k d = Inr rs"
  shows "\<exists>ys. newest_first srv f d ys \<and> rs = map task_args (take (nat (sint limit)) (drop (nat (sint offset)) ys))"
proof -
  let ?ys = "sort_key (\<lambda>t. - task_CreatedAt t) (filter (task_matches srv f) (visit srv k (all_tasks d)))"
  have "sort_key (\<lambda>r. - tk_CreatedAt r) (filter (sql_where srv conds args) (visit srv k (tasks d))) = map task_args ?ys"
    by (subst tasks_map [OF ok])
      (simp add: visit_map filter_map sort_key_map o_def buildTaskFilter_matches [OF f])
  with sel have "rs = map task_args (take (nat (sint limit)) (drop (nat (sint offset)) ?ys))"
    by (auto simp: select_page_def take_map drop_map split: if_splits)
  moreover have "newest_first srv f d ?ys"
    by (simp add: newest_first_def sorted_desc_sort_key)
  ultimately show ?thesis by blast
qed

section \<open>Single operations\<close>

lemma reads_GetTaskByID: "reads (GetTaskByID srv i)"
  unfolding GetTaskByID_def by (intro keeps_intros)

lemma reads_ListHistory: "reads (ListHistory srv i)"
  unfolding ListHistory_def by (intro keeps_intros)

lemma reads_ListTasks: "reads (ListTasks srv f)"
  unfolding ListTasks_def by (auto intro!: keeps_intros split: prod.split)

lemma toTask_not_sentinel: "toTask r = Inl e \<Longrightarrow> \<not> errors_Is e s"
  by (auto simp: toTask_def bytesToUUID_def bytesToUUIDPtr_def and_then_eq_Inl split: if_splits option.splits)

lemma GetTaskByID_cases:
  assumes "run_state (GetTaskByID srv i) w = (x, w')"
  obtains (found) r where "r \<in> set (tasks (db w))" "tk_ID r = uuidToBytes i" "x = toTask r" "w' = advance w"
  | (missing) "\<forall>r \<in> set (tasks (db w)). tk_ID r \<noteq> uuidToBytes i" "x = Inl (Sentinel ErrNotFound)" "w' = advance w"
  | (lost) m where "x = Inl (errorf ''mysql: get task by id: '' (DriverErr m))" "w' = advance w"
  using assms unfolding GetTaskByID_def by (rule read_row_cases) (auto intro: that)

lemma GetTaskByID_Inr:
  assumes ok: "db_ok srv n (db w)" and run: "run_state (GetTaskByID srv i) w = (Inr t, w')"
  shows "task_view (db w) i = Some t"
  using run
proof (cases rule: GetTaskByID_cases)
  case (found r)
  then obtain s where "r = task_args s" using task_row_args [OF ok] by blast
  with found have "t \<in> set (all_tasks (db w))" and "task_ID t = i"
    using tasks_map [OF ok] by auto
  then show ?thesis by (simp add: task_view_iff [OF ok])
qed simp_all

lemma GetTaskByID_Inl:
  assumes run: "run_state (GetTaskByID srv i) w = (Inl e, w')" and nf: "errors_Is e ErrNotFound"
  shows "task_view (db w) i = None"
  using run
proof (cases rule: GetTaskByID_cases)
  case missing
  then have "filter (\<lambda>r. tk_ID r = uuidToBytes i) (tasks (db w)) = []" by (simp add: filter_empty_conv)
  then show ?thesis by (simp add: task_view_def)
next
  case (found r)
  with nf show ?thesis by (metis toTask_not_sentinel)
qed (use nf in simp)

lemma GetTaskByID_not_forbidden:
  "run_state (GetTaskByID srv i) w = (Inl e, w') \<Longrightarrow> \<not> errors_Is e ErrForbidden"
  by (erule GetTaskByID_cases) (auto dest: toTask_not_sentinel [OF sym])

lemma task_view_ID: "task_view d i = Some t \<Longrightarrow> task_ID t = i"
  by (auto simp: task_view_def toTask_def bytesToUUID_Inr_iff filter_eq_Cons_iff split: list.splits sum.splits)

text \<open>The stored form of a task differs from the given one only in converted columns.\<close>

lemma task_columns_args:
  assumes "task_columns srv (task_args t) = Inr v"
  shows "\<exists>s. v = task_args s \<and> stored_task srv t = Some s \<and> task_ID s = task_ID t"
proof -
  from assms obtain title descr st pr where
    v: "v = (task_args t)\<lparr>tk_Title := title, tk_Description := descr, tk_Status := st, tk_Priority := pr,
      tk_DueDate := map_option (srv_date srv) (task_DueDate t),
      tk_CreatedAt := srv_datetime srv (task_CreatedAt t),
      tk_UpdatedAt := srv_datetime srv (task_UpdatedAt t)\<rparr>"
    by (auto simp: task_columns_def task_args_def)
  let ?s = "t\<lparr>task_Title := title, task_Description := descr, task_Status := st, task_Priority := pr,
      task_DueDate := map_option (srv_date srv) (task_DueDate t),
      task_CreatedAt := srv_datetime srv (task_CreatedAt t),
      task_UpdatedAt := srv_datetime srv (task_UpdatedAt t)\<rparr>"
  have "v = task_args ?s" unfolding v by (simp add: task_args_def)
  then show ?thesis using assms by (auto simp: stored_task_def)
qed

lemma stored_task_ids:
  assumes "stored_task srv t = Some s"
  shows "task_ID s = task_ID t" and "task_TeamID s = task_TeamID t" and "task_CreatedBy s = task_CreatedBy t"
    and "task_AssigneeID s = task_AssigneeID t"
    and "task_CreatedAt s = srv_datetime srv (task_CreatedAt t)"
    and "task_UpdatedAt s = srv_datetime srv (task_UpdatedAt t)"
    and "task_DueDate s = map_option (srv_date srv) (task_DueDate t)"
    and "col_text srv (Varchar 500) (task_Title t) = Inr (task_Title s)"
    and "col_text_null srv TextCol (task_Description t) = Inr (task_Description s)"
    and "col_enum srv task_statuses (task_Status t) = Inr (task_Status s)"
    and "col_enum srv task_priorities (task_Priority t) = Inr (task_Priority s)"
  using assms
  by (auto simp: stored_task_def task_columns_def task_args_def toTask_def split: sum.splits)

lemma insert_tasks_args:
  assumes "insert_tasks srv (task_args t) d = Inr d'"
  shows "\<exists>s. stored_task srv t = Some s \<and> d' = d\<lparr>tasks := tasks d @ [task_args s]\<rparr> \<and>
    uuidToBytes (task_ID t) \<notin> tk_ID ` set (tasks d)"
proof -
  from assms obtain v where v: "task_columns srv (task_args t) = Inr v"
    and fresh: "uuidToBytes (task_ID t) \<notin> tk_ID ` set (tasks d)"
    and d': "d' = d\<lparr>tasks := tasks d @ [v\<lparr>tk_ID := uuidToBytes (task_ID t)\<rparr>]\<rparr>"
    by (auto simp: insert_tasks_def split: if_splits)
  from task_columns_args [OF v] obtain s where s: "v = task_args s" "stored_task srv t = Some s"
    "task_ID s = task_ID t" by blast
  then have "v\<lparr>tk_ID := uuidToBytes (task_ID t)\<rparr> = task_args s" by (simp add: task_args_def)
  with s fresh d' show ?thesis by auto
qed

lemma stores_SaveTask: "stores (store_inv srv) outside (SaveTask srv t)"
  unfolding SaveTask_def
  by (intro stores_intros stores_Exec) (blast intro: db_ok_Suc insert_tasks_ok)

lemma SaveTask_cases:
  assumes "run_state (SaveTask srv t) w = (r, w')"
  obtains (ok) s where "r = Inr ()" "stored_task srv t = Some s"
      "uuidToBytes (task_ID t) \<notin> tk_ID ` set (tasks (db w))"
      "db w' = (db w)\<lparr>tasks := tasks (db w) @ [task_args s]\<rparr>"
  | (err) e where "r = Inl e" "db w' = db w" "\<And>s. \<not> errors_Is e s"
  | (lost) e s where "r = Inl e" "stored_task srv t = Some s" "\<And>s. \<not> errors_Is e s"
      "uuidToBytes (task_ID t) \<notin> tk_ID ` set (tasks (db w))"
      "db w' = (db w)\<lparr>tasks := tasks (db w) @ [task_args s]\<rparr>"
proof -
  let ?stmt = "\<lambda>k. insert_tasks srv (task_args t)"
  obtain x v where x: "run_state (db_Exec srv ?stmt) w = (x, v)" by fastforce
  with assms have r: "r = on_err (errorf ''mysql: save task: '') x" and w': "w' = v"
    by (auto simp: SaveTask_def)
  from x show thesis
  proof (cases rule: db_Exec_cases)
    case (ok d)
    with insert_tasks_args [OF ok(2)] r w' that(1) show thesis by auto
  next
    case (refused e)
    moreover have "\<not> errors_Is e s" for s
      using refused(2)
      by (auto simp: insert_tasks_def task_columns_def and_then_eq_Inl mysql_error_def col_binary16_def
          col_text_def col_text_null_def col_enum_def split: if_splits option.splits)
    ultimately show thesis using r w' that(2) by auto
  next
    case (lost m)
    with r w' that(2) show thesis by auto
  next
    case (lost_after m d)
    with insert_tasks_args [OF lost_after(2)] r w' that(3) show thesis by auto
  qed
qed

section \<open>The update transaction\<close>

text \<open>Errors of the statements never wrap a sentinel of the domain.\<close>

lemma insert_task_history_no_sentinel: "insert_task_history srv k r d = Inl e \<Longrightarrow> \<not> errors_Is e s"
  by (auto simp: insert_task_history_def and_then_eq_Inl mysql_error_def col_text_def col_text_null_def
      split: if_splits option.splits)

lemma update_tasks_no_sentinel: "update_tasks srv r d = Inl e \<Longrightarrow> \<not> errors_Is e s"
  by (auto simp: update_tasks_def task_columns_def and_then_eq_Inl mysql_error_def
      col_text_def col_text_null_def col_enum_def split: if_splits option.splits)

lemma insert_entries_run:
  assumes "tx w = Some d" and "run_state (insert_entries srv hs) w = (r, w')"
  shows "db w' = db w \<and> (\<exists>d'. tx w' = Some d') \<and>
    (case r of Inl e \<Rightarrow> \<not> errors_Is e s
     | Inr _ \<Rightarrow> (\<exists>d'. add_history srv (tick w) hs d = Inr d' \<and> tx w' = Some d'))"
  using assms
proof (induction hs arbitrary: w d)
  case Nil
  then show ?case by auto
next
  case (Cons h hs)
  let ?stmt = "insert_task_history srv (tick w) (history_args h)"
  show ?case
  proof (cases "srv_fault srv (tick w) = NoFault \<and> (\<exists>d'. ?stmt d = Inr d')")
    case True
    then obtain d' where d': "?stmt d = Inr d'" by blast
    let ?w = "(advance w)\<lparr>tx := Some d'\<rparr>"
    from Cons.prems True d' have "run_state (insert_entries srv hs) ?w = (r, w')"
      by (simp add: tx_Exec_def)
    from Cons.IH [OF _ this] d' show ?thesis by (simp split: sum.splits)
  next
    case False
    with Cons.prems show ?thesis
      by (auto simp: tx_Exec_def insert_task_history_no_sentinel split: fault.splits sum.splits)
  qed
qed

text \<open>
  The body of the transaction, started on the open transaction: it either commits the whole
  update, or leaves the tables as they were.
\<close>

lemma update_in_tx_run:
  assumes tx: "tx w = Some (db w)" and run: "run_state (update_in_tx srv t es) w = (r, w')"
  shows "case r of
      Inr _ \<Rightarrow> task_updated srv (tick w) t es (db w) = Inr (db w')
    | Inl e \<Rightarrow> (db w' = db w \<or> task_updated srv (tick w) t es (db w) = Inr (db w')) \<and> \<not> errors_Is e s"
proof (cases "srv_fault srv (tick w) = NoFault \<and> (\<exists>d. update_tasks srv (task_args t) (db w) = Inr d)")
  case True
  then obtain d where d: "update_tasks srv (task_args t) (db w) = Inr d" by blast
  let ?w = "(advance w)\<lparr>tx := Some d\<rparr>"
  obtain h v where h: "run_state (insert_entries srv es) ?w = (h, v)" by fastforce
  have v: "db v = db w \<and> (\<exists>d'. tx v = Some d') \<and> (case h of Inl e \<Rightarrow> \<not> errors_Is e s
     | Inr _ \<Rightarrow> (\<exists>d'. add_history srv (Suc (tick w)) es d = Inr d' \<and> tx v = Some d'))"
    using insert_entries_run [OF _ h, of d s] by (simp split: sum.splits)
  have upd: "task_updated srv (tick w) t es (db w) = add_history srv (Suc (tick w)) es d"
    using d by (simp add: task_updated_def)
  show ?thesis
  proof (cases h)
    case (Inl e)
    with run tx True d h have "r = Inl e" "w' = v" by (simp_all add: update_in_tx_def tx_Exec_def)
    with v Inl show ?thesis by simp
  next
    case (Inr u)
    with v obtain d' where d': "add_history srv (Suc (tick w)) es d = Inr d'" "tx v = Some d'" by auto
    from run tx True d h Inr have "run_state (tx_Commit srv \<bind>
        (\<lambda>c. State_Monad.return (on_err (errorf ''mysql: commit: '') c))) v = (r, w')"
      by (simp add: update_in_tx_def tx_Exec_def)
    with d' v upd show ?thesis by (auto simp: tx_Commit_def split: fault.splits)
  qed
next
  case False
  with assms show ?thesis
    by (auto simp: update_in_tx_def tx_Exec_def update_tasks_no_sentinel split: fault.splits sum.splits)
qed

lemma UpdateTaskWithHistory_run:
  assumes "run_state (UpdateTaskWithHistory srv t es) w = (r, w')"
  shows "case r of
      Inr _ \<Rightarrow> task_updated srv (Suc (tick w)) t es (db w) = Inr (db w')
    | Inl e \<Rightarrow> (db w' = db w \<or> task_updated srv (Suc (tick w)) t es (db w) = Inr (db w')) \<and>
               \<not> errors_Is e s"
proof (cases "srv_fault srv (tick w)")
  case NoFault
  let ?w = "(advance w)\<lparr>tx := Some (db w)\<rparr>"
  obtain x v where xv: "run_state (update_in_tx srv t es) ?w = (x, v)" by fastforce
  with assms NoFault have "r = x" and "w' = v\<lparr>tx := None\<rparr>"
    by (simp_all add: UpdateTaskWithHistory_def with_tx_def db_Begin_def tx_Rollback_def)
  with update_in_tx_run [OF _ xv, of s] show ?thesis by (cases x) simp_all
next
  case (LostBefore m)
  with assms show ?thesis by (auto simp: UpdateTaskWithHistory_def with_tx_def db_Begin_def)
next
  case (LostAfter m)
  with assms show ?thesis by (auto simp: UpdateTaskWithHistory_def with_tx_def db_Begin_def)
qed

lemma stores_insert_entries: "stores (store_inv srv) outside (insert_entries srv hs)"
  by (induction hs)
    (auto intro!: stores_intros stores_tx_Exec intro: insert_task_history_ok)

lemma stores_UpdateTaskWithHistory: "stores (store_inv srv) outside (UpdateTaskWithHistory srv t es)"
  unfolding UpdateTaskWithHistory_def update_in_tx_def
  by (intro stores_intros stores_insert_entries stores_tx_Exec) (blast intro: db_ok_Suc update_tasks_ok)

section \<open>The views after an operation\<close>

lemma filter_task_ID_Nil: "uuidToBytes i \<notin> tk_ID ` set xs \<Longrightarrow> filter (\<lambda>r. tk_ID r = uuidToBytes i) xs = []"
  by (metis (mono_tags, lifting) filter_False imageI)

lemma task_view_None: "uuidToBytes i \<notin> tk_ID ` set (tasks d) \<Longrightarrow> task_view d i = None"
  by (simp add: task_view_def filter_task_ID_Nil)

lemma task_view_append:
  assumes "uuidToBytes (task_ID s) \<notin> tk_ID ` set (tasks d)"
  shows "task_view (d\<lparr>tasks := tasks d @ [task_args s]\<rparr>) = (task_view d)(task_ID s \<mapsto> s)"
proof
  fix i
  show "task_view (d\<lparr>tasks := tasks d @ [task_args s]\<rparr>) i = ((task_view d)(task_ID s \<mapsto> s)) i"
    using assms
    by (cases "i = task_ID s") (auto simp: task_view_def filter_task_ID_Nil split: list.splits)
qed

lemma history_view_frame [simp]: "history_view (d\<lparr>tasks := ts\<rparr>) = history_view d"
  by (simp add: history_view_def fun_eq_iff)

lemma task_view_frame [simp]:
  "task_view (d\<lparr>task_history := hs\<rparr>) = task_view d"
  "task_view (d\<lparr>task_comments := cs\<rparr>) = task_view d"
  "task_view (d\<lparr>team_members := ms\<rparr>) = task_view d"
  "task_view (d\<lparr>teams := xs\<rparr>) = task_view d"
  "task_view (d\<lparr>users := us\<rparr>) = task_view d"
  by (simp_all add: task_view_def fun_eq_iff)

text \<open>What the UPDATE statement keeps of the old row.\<close>

definition replace_task :: "Task \<Rightarrow> Task \<Rightarrow> Task" where
  "replace_task s x =
     s\<lparr>task_ID := task_ID x, task_TeamID := task_TeamID x, task_CreatedBy := task_CreatedBy x,
       task_CreatedAt := task_CreatedAt x\<rparr>"

lemma set_task_columns_args: "set_task_columns (task_args s) (task_args x) = task_args (replace_task s x)"
  by (simp add: set_task_columns_def task_args_def replace_task_def)

lemma replace_task_ID [simp]: "task_ID (replace_task s x) = task_ID x"
  by (simp add: replace_task_def)

lemma update_tasks_args:
  assumes ok: "db_ok srv n d" and up: "update_tasks srv (task_args t) d = Inr d'"
  shows "\<exists>s. stored_task srv t = Some s \<and>
    d' = d\<lparr>tasks := map (\<lambda>x. task_args (if task_ID x = task_ID t then replace_task s x else x)) (all_tasks d)\<rparr>"
proof -
  from up obtain v where v: "task_columns srv (task_args t) = Inr v"
    and d': "d' = d\<lparr>tasks := map (\<lambda>x. if tk_ID x = uuidToBytes (task_ID t) then set_task_columns v x else x) (tasks d)\<rparr>"
    unfolding update_tasks_def by (auto simp del: map_eq_conv split: if_splits)
  from task_columns_args [OF v] obtain s where s: "v = task_args s" "stored_task srv t = Some s" by blast
  have "d' = d\<lparr>tasks := map (\<lambda>x. task_args (if task_ID x = task_ID t then replace_task s x else x)) (all_tasks d)\<rparr>"
    unfolding d' s(1) by (subst tasks_map [OF ok]) (simp add: set_task_columns_args cong: if_cong)
  with s(2) show ?thesis by blast
qed

lemma task_view_update:
  assumes ok: "db_ok srv n d"
    and d': "d' = d\<lparr>tasks := map (\<lambda>x. task_args (if task_ID x = task_ID t then replace_task s x else x)) (all_tasks d)\<rparr>"
  shows "task_view d' i = (if i = task_ID t then map_option (replace_task s) (task_view d i) else task_view d i)"
proof -
  let ?f = "\<lambda>x. if task_ID x = task_ID t then replace_task s x else x"
  let ?P = "\<lambda>r. tk_ID r = uuidToBytes i"
  have new: "filter ?P (tasks d') = map (task_args \<circ> ?f) (filter (\<lambda>x. task_ID x = i) (all_tasks d))"
    unfolding d' by (simp add: filter_map o_def if_distrib [of task_ID] cong: if_cong)
  have old: "filter ?P (tasks d) = map task_args (filter (\<lambda>x. task_ID x = i) (all_tasks d))"
    by (subst tasks_map [OF ok]) (simp add: filter_map o_def)
  show ?thesis
  proof (cases "filter (\<lambda>x. task_ID x = i) (all_tasks d)")
    case Nil
    with new old show ?thesis by (auto simp: task_view_def)
  next
    case (Cons x xs)
    then have "task_ID x = i" by (auto simp: filter_eq_Cons_iff)
    with Cons new old show ?thesis by (auto simp: task_view_def)
  qed
qed

text \<open>Appending history rows appends stored entries to the history of their task.\<close>

definition hist_appended :: "(TaskHistory \<Rightarrow> TaskHistory \<Rightarrow> bool) \<Rightarrow> TaskHistory list \<Rightarrow>
  (uuid \<Rightarrow> TaskHistory list) \<Rightarrow> (uuid \<Rightarrow> TaskHistory list) \<Rightarrow> bool" where
  "hist_appended st es h h' \<longleftrightarrow>
     (\<forall>i. \<exists>ss. list_all2 st (filter (\<lambda>e. th_TaskID e = i) es) ss \<and> h' i = h i @ ss)"

lemma history_view_eq:
  assumes "task_history d = map history_args hs"
  shows "history_view d i = filter (\<lambda>h. th_TaskID h = i) hs"
  unfolding history_view_def assms by (simp add: filter_map o_def)

lemma insert_task_history_args:
  assumes "insert_task_history srv k (history_args h) d = Inr d'"
  shows "\<exists>s. entry_stored srv h s \<and> d' = d\<lparr>task_history := task_history d @ [history_args s]\<rparr>"
proof -
  from assms obtain field old nw where
    conv: "col_text srv (Varchar 100) (th_Field h) = Inr field"
      "col_text_null srv TextCol (th_OldValue h) = Inr old"
      "col_text_null srv TextCol (th_NewValue h) = Inr nw"
    and d': "d' = d\<lparr>task_history := task_history d @
       [\<lparr>hr_ID = srv_autoinc srv k, hr_TaskID = uuidToBytes (th_TaskID h), hr_ChangedBy = uuidToBytes (th_ChangedBy h),
         hr_Field = field, hr_OldValue = old, hr_NewValue = nw, hr_ChangedAt = srv_datetime srv (th_ChangedAt h)\<rparr>]\<rparr>"
    by (auto simp: insert_task_history_def history_args_def split: if_splits)
  let ?s = "\<lparr>th_ID = srv_autoinc srv k, th_TaskID = th_TaskID h, th_ChangedBy = th_ChangedBy h, th_Field = field,
    th_OldValue = old, th_NewValue = nw, th_ChangedAt = srv_datetime srv (th_ChangedAt h)\<rparr>"
  have "entry_stored srv h ?s" using conv by (simp add: entry_stored_def)
  moreover have "d' = d\<lparr>task_history := task_history d @ [history_args ?s]\<rparr>"
    unfolding d' by (simp add: history_args_def)
  ultimately show ?thesis by blast
qed

lemma add_history_args:
  "add_history srv k es d = Inr d' \<Longrightarrow>
     \<exists>ss. list_all2 (entry_stored srv) es ss \<and> d' = d\<lparr>task_history := task_history d @ map history_args ss\<rparr>"
proof (induction es arbitrary: k d)
  case Nil
  then show ?case by simp
next
  case (Cons h hs)
  then obtain c where c: "insert_task_history srv k (history_args h) d = Inr c"
    and rest: "add_history srv (Suc k) hs c = Inr d'" by auto
  from insert_task_history_args [OF c] obtain s where s: "entry_stored srv h s"
    "c = d\<lparr>task_history := task_history d @ [history_args s]\<rparr>" by blast
  from Cons.IH [OF rest] obtain ss where "list_all2 (entry_stored srv) hs ss"
    "d' = c\<lparr>task_history := task_history c @ map history_args ss\<rparr>" by blast
  with s have "list_all2 (entry_stored srv) (h # hs) (s # ss) \<and>
    d' = d\<lparr>task_history := task_history d @ map history_args (s # ss)\<rparr>" by simp
  then show ?case by blast
qed

lemma entry_stored_TaskID: "entry_stored srv h s \<Longrightarrow> th_TaskID s = th_TaskID h"
  by (simp add: entry_stored_def)

lemma entries_stored_filter:
  "list_all2 (entry_stored srv) es ss \<Longrightarrow>
     list_all2 (entry_stored srv) (filter (\<lambda>e. th_TaskID e = i) es) (filter (\<lambda>e. th_TaskID e = i) ss)"
  by (induction rule: list_all2_induct) (simp_all add: entry_stored_TaskID)

text \<open>What a successful update does to both views.\<close>

lemma task_updated_views:
  assumes ok: "db_ok srv n d" and up: "task_updated srv k t es d = Inr d'"
  shows "\<exists>s. stored_task srv t = Some s \<and>
    (\<forall>i. task_view d' i = (if i = task_ID t then map_option (replace_task s) (task_view d i) else task_view d i)) \<and>
    hist_appended (entry_stored srv) es (history_view d) (history_view d') \<and>
    users d' = users d \<and> teams d' = teams d \<and> team_members d' = team_members d \<and> task_comments d' = task_comments d"
proof -
  from up obtain c where c: "update_tasks srv (task_args t) d = Inr c"
    and add: "add_history srv (Suc k) es c = Inr d'" by (auto simp: task_updated_def)
  from update_tasks_args [OF ok c] obtain s where s: "stored_task srv t = Some s"
    and cd: "c = d\<lparr>tasks := map (\<lambda>x. task_args (if task_ID x = task_ID t then replace_task s x else x)) (all_tasks d)\<rparr>"
    by blast
  from add_history_args [OF add] obtain ss where ss: "list_all2 (entry_stored srv) es ss"
    and d': "d' = c\<lparr>task_history := task_history c @ map history_args ss\<rparr>" by blast
  obtain hs where hs: "task_history d = map history_args hs" using history_map [OF ok] .
  then have hs': "task_history d' = map history_args (hs @ ss)" unfolding d' cd by simp
  have "hist_appended (entry_stored srv) es (history_view d) (history_view d')"
    unfolding hist_appended_def history_view_eq [OF hs] history_view_eq [OF hs'] filter_append
    using entries_stored_filter [OF ss] by blast
  moreover have "task_view d' i = task_view c i" for i unfolding d' by simp
  ultimately show ?thesis using s task_view_update [OF ok cd] by (auto simp: d' cd)
qed

section \<open>Listing\<close>

lemma count_matches:
  assumes ok: "db_ok srv n d" and f: "buildTaskFilter f = (conds, args)"
  shows "length (filter (sql_where srv conds args) (tasks d)) = length (filter (task_matches srv f) (all_tasks d))"
  by (subst tasks_map [OF ok]) (simp add: filter_map o_def buildTaskFilter_matches [OF f])

lemma ListTasks_Inr:
  assumes ok: "db_ok srv n (db w)" and run: "run_state (ListTasks srv f) w = (Inr (ts, m), w')"
  shows "m = length (filter (task_matches srv f) (all_tasks (db w)))"
    and "0 \<le> sint (tf_Limit f)" and "0 \<le> sint (list_offset (tf_Page f) (tf_Limit f))"
    and "\<exists>ys. newest_first srv f (db w) ys \<and>
      ts = take (nat (sint (tf_Limit f))) (drop (nat (sint (list_offset (tf_Page f) (tf_Limit f)))) ys)"
proof -
  obtain conds args where f: "buildTaskFilter f = (conds, args)" by fastforce
  let ?sel = "select_page srv (sql_where srv conds args) (tf_Limit f) (list_offset (tf_Page f) (tf_Limit f))"
  let ?cnt = "\<lambda>k d. Inr [length (filter (sql_where srv conds args) (tasks d))]"
  obtain c v where c: "run_state (db_Get srv ?cnt) w = (c, v)" by fastforce
  with run f have "c = Inr m" and "run_state (db_Select srv ?sel \<bind> (\<lambda>rows. State_Monad.return (case rows of
             Inl e \<Rightarrow> Inl (errorf ''mysql: list tasks: '' e)
           | Inr rs \<Rightarrow> and_then (traverse toTask rs) (\<lambda>ts. Inr (ts, m))))) v = (Inr (ts, m), w')"
    by (auto simp: ListTasks_def split: sum.splits prod.splits)
  note sel = this(2)
  from c \<open>c = Inr m\<close> have v: "v = advance w"
    and m: "m = length (filter (sql_where srv conds args) (tasks (db w)))"
    by (auto elim!: db_Get_cases)
  from sel obtain rs where rs: "?sel (tick v) (db v) = Inr rs" and ts: "traverse toTask rs = Inr ts"
    by (auto simp: db_Select_def split: fault.splits sum.splits)
  show "m = length (filter (task_matches srv f) (all_tasks (db w)))"
    using m count_matches [OF ok f] by simp
  show "0 \<le> sint (tf_Limit f)" and "0 \<le> sint (list_offset (tf_Page f) (tf_Limit f))"
    using rs by (auto simp: select_page_def split: if_splits)
  from rs v have rs': "?sel (Suc (tick w)) (db w) = Inr rs" by simp
  from select_page_tasks [OF ok f rs'] ts
  show "\<exists>ys. newest_first srv f (db w) ys \<and>
      ts = take (nat (sint (tf_Limit f))) (drop (nat (sint (list_offset (tf_Page f) (tf_Limit f)))) ys)"
    by auto
qed

lemma ListHistory_Inr:
  assumes ok: "db_ok srv n (db w)" and run: "run_state (ListHistory srv i) w = (Inr hs, w')"
  shows "mset hs = mset (history_view (db w) i) \<and> sorted_wrt (\<lambda>g h. th_ChangedAt g \<le> th_ChangedAt h) hs"
proof -
  obtain gs where gs: "task_history (db w) = map history_args gs" using history_map [OF ok] .
  let ?hs = "sort_key th_ChangedAt (filter (\<lambda>h. th_TaskID h = i) (visit srv (tick w) gs))"
  have at: "hr_ChangedAt (history_args h) = th_ChangedAt h" for h by (simp add: history_args_def)
  from run gs have "traverse toHistory (map history_args ?hs) = Inr hs"
    by (auto simp: ListHistory_def db_Select_def visit_map filter_map sort_key_map o_def at split: fault.splits)
  then have "hs = ?hs" by simp
  then show ?thesis
    using sorted_sort_key [of th_ChangedAt "filter (\<lambda>h. th_TaskID h = i) (visit srv (tick w) gs)"]
    by (simp add: history_view_eq [OF gs] sorted_map)
qed

section \<open>The contract of the task storage\<close>

text \<open>A page of the list: some part of some order, newest first, of the matching tasks.\<close>

definition task_page :: "server \<Rightarrow> database \<Rightarrow> TaskFilter \<Rightarrow> Task list \<Rightarrow> nat \<Rightarrow> bool" where
  "task_page srv d f ts n \<longleftrightarrow>
     n = length (filter (task_matches srv f) (all_tasks d)) \<and>
     0 \<le> sint (tf_Limit f) \<and> 0 \<le> sint (list_offset (tf_Page f) (tf_Limit f)) \<and>
     (\<exists>ys. newest_first srv f d ys \<and>
        ts = take (nat (sint (tf_Limit f))) (drop (nat (sint (list_offset (tf_Page f) (tf_Limit f)))) ys))"

definition other_tables :: "database \<Rightarrow> userRow list \<times> teamRow list \<times> commentRow list" where
  "other_tables d = (users d, teams d, task_comments d)"

lemma distinct_all_tasks: "db_ok srv n d \<Longrightarrow> distinct (all_tasks d)"
  using all_tasks_distinct by (blast dest: distinct_map [THEN iffD1])

lemma mset_matches_local:
  assumes ok: "db_ok srv n d" and ok': "db_ok srv n' d'" and T: "tf_TeamID f = Some T"
    and same: "\<And>i t. task_TeamID t = T \<Longrightarrow> task_view d i = Some t \<longleftrightarrow> task_view d' i = Some t"
  shows "mset (filter (task_matches srv f) (all_tasks d)) = mset (filter (task_matches srv f) (all_tasks d'))"
proof -
  have "t \<in> set (all_tasks d) \<longleftrightarrow> t \<in> set (all_tasks d')" if "task_matches srv f t" for t
  proof -
    from that T have "task_TeamID t = T" by (simp add: task_matches_def)
    with same [of t "task_ID t"] show ?thesis by (simp add: task_view_iff [OF ok] task_view_iff [OF ok'])
  qed
  then have "set (filter (task_matches srv f) (all_tasks d)) = set (filter (task_matches srv f) (all_tasks d'))"
    by auto
  then show ?thesis
    using distinct_all_tasks [OF ok] distinct_all_tasks [OF ok']
    by (simp only: set_eq_iff_mset_eq_distinct distinct_filter)
qed

lemma task_page_local:
  assumes "db_ok srv n d" and "db_ok srv n' d'" and "tf_TeamID f = Some T"
    and "\<And>i t. task_TeamID t = T \<Longrightarrow> task_view d i = Some t \<longleftrightarrow> task_view d' i = Some t"
    and "task_page srv d f ts m"
  shows "task_page srv d' f ts m"
  using assms(5) mset_matches_local [OF assms(1-4)] size_mset
  unfolding task_page_def newest_first_def by metis

lemma SaveTask_saved:
  assumes "run_state (SaveTask srv t) w = (x, w')"
  shows "case x of
      Inr _ \<Rightarrow> task_saved task_view (\<lambda>d. (history_view d, team_members d, other_tables d)) (stored_task srv) t (db w) (db w')
    | Inl e \<Rightarrow> (db w' = db w \<or> task_saved task_view (\<lambda>d. (history_view d, team_members d, other_tables d)) (stored_task srv) t (db w) (db w'))
        \<and> (\<forall>s. \<not> errors_Is e s)"
proof -
  have saved: "task_saved task_view (\<lambda>d. (history_view d, team_members d, other_tables d)) (stored_task srv) t (db w)
      ((db w)\<lparr>tasks := tasks (db w) @ [task_args s]\<rparr>)"
    if "stored_task srv t = Some s" "uuidToBytes (task_ID t) \<notin> tk_ID ` set (tasks (db w))" for s
    using that task_view_append [of s "db w"] task_view_None stored_task_ids(1) [OF that(1)]
    by (simp add: task_saved_def other_tables_def)
  from assms show ?thesis by (cases rule: SaveTask_cases) (auto intro: saved)
qed

lemma UpdateTaskWithHistory_changed:
  assumes ok: "db_ok srv n (db w)" and run: "run_state (UpdateTaskWithHistory srv t es) w = (x, w')"
  shows "case x of
      Inr _ \<Rightarrow> task_changed task_view history_view (\<lambda>d. (team_members d, other_tables d)) (stored_task srv)
        (entry_stored srv) replace_task t es (db w) (db w')
    | Inl e \<Rightarrow> (db w' = db w \<or> task_changed task_view history_view (\<lambda>d. (team_members d, other_tables d)) (stored_task srv)
        (entry_stored srv) replace_task t es (db w) (db w')) \<and> (\<forall>s. \<not> errors_Is e s)"
proof -
  have "task_changed task_view history_view (\<lambda>d. (team_members d, other_tables d)) (stored_task srv)
      (entry_stored srv) replace_task t es (db w) (db w')"
    if "task_updated srv (Suc (tick w)) t es (db w) = Inr (db w')"
    using task_updated_views [OF ok that] by (auto simp: task_changed_def other_tables_def hist_appended_def)
  moreover note UpdateTaskWithHistory_run [OF run]
  ultimately show ?thesis by (cases x) (simp, metis, simp)
qed

lemma traverse_toTask_no_sentinel: "traverse toTask rs = Inl e \<Longrightarrow> \<not> errors_Is e s"
  by (auto dest!: traverse_Inl toTask_not_sentinel)

lemma toHistory_no_sentinel: "toHistory r = Inl e \<Longrightarrow> \<not> errors_Is e s"
  by (auto simp: toHistory_def bytesToUUID_def and_then_eq_Inl split: if_splits)

lemma ListTasks_Inl:
  assumes "run_state (ListTasks srv f) w = (Inl e, w')"
  shows "\<not> errors_Is e s"
  using assms
  by (auto simp: ListTasks_def db_Get_def db_Select_def select_page_def mysql_error_def and_then_eq_Inl
      traverse_toTask_no_sentinel split: prod.splits fault.splits sum.splits if_splits)

lemma ListHistory_Inl:
  assumes "run_state (ListHistory srv i) w = (Inl e, w')"
  shows "\<not> errors_Is e s"
  using assms
  by (auto simp: ListHistory_def db_Select_def dest!: traverse_Inl toHistory_no_sentinel
      split: fault.splits sum.splits)

interpretation mysql_tasks: task_store "base_inv P srv" db outside "GetTaskByID srv" task_view
    "SaveTask srv" "UpdateTaskWithHistory srv" "ListTasks srv" "ListHistory srv"
    history_view team_members other_tables "stored_task srv" "entry_stored srv" replace_task "task_page srv"
  for P srv
proof (unfold_locales, goal_cases)
  case (11 w f ts n w')
  from ListTasks_Inr [OF base_inv_db [OF 11(1)] 11(2)] show ?case by (simp add: task_page_def)
next
  case (16 w w' f T ts n)
  show ?case by (rule task_page_local [OF base_inv_db [OF 16(1)] base_inv_db [OF 16(2)] 16(3,4,5)])
qed (auto intro: quiet_base stores_base reads_GetTaskByID reads_ListTasks reads_ListHistory
    stores_SaveTask stores_UpdateTaskWithHistory GetTaskByID_Inr GetTaskByID_Inl task_view_ID
    SaveTask_saved UpdateTaskWithHistory_changed
    simp: stored_task_ids replace_task_def
    dest: GetTaskByID_not_forbidden base_inv_db ListTasks_Inl ListHistory_Inl ListHistory_Inr)

section \<open>Exact reads and offsets\<close>

lemma GetTaskByID_exact:
  assumes ok: "db_ok srv n (db w)" and run: "run_state (GetTaskByID srv i) w = (r, w')"
  shows "r = (case task_view (db w) i of None \<Rightarrow> Inl (Sentinel ErrNotFound) | Some t \<Rightarrow> Inr t) \<or>
    (\<exists>m. r = Inl (errorf ''mysql: get task by id: '' (DriverErr m)))"
  using run
proof (cases rule: GetTaskByID_cases)
  case (found x)
  then obtain s where "x = task_args s" using task_row_args [OF ok] by blast
  with found have r: "r = Inr s" by simp
  with GetTaskByID_Inr [OF ok run [unfolded r]] show ?thesis by simp
next
  case missing
  with GetTaskByID_Inl [of srv i w "Sentinel ErrNotFound" w'] run show ?thesis by simp
qed blast




end
