(* ===== verification/MySQL_Comment.thy ===== *)
theory MySQL_Comment
  imports MySQL_Task
begin

text \<open>
  \<open>internal/storage/mysql/comment.go\<close>: comments on tasks.  The INSERT leaves \<open>created_at\<close> to
  the column default; only the AUTO_INCREMENT value is read back.
\<close>

definition comment_args :: "Comment \<Rightarrow> commentRow" where
  "comment_args c =
     \<lparr>cr_ID = comment_ID c, cr_TaskID = uuidToBytes (comment_TaskID c), cr_UserID = uuidToBytes (comment_UserID c),
      cr_Body = comment_Body c, cr_CreatedAt = comment_CreatedAt c\<rparr>"

definition toComment :: "commentRow \<Rightarrow> err + Comment" where
  "toComment r =
     and_then (on_err (errorf ''mysql: parse comment task_id: '') (bytesToUUID (cr_TaskID r))) (\<lambda>taskID.
     and_then (on_err (errorf ''mysql: parse comment user_id: '') (bytesToUUID (cr_UserID r))) (\<lambda>userID.
       Inr \<lparr>comment_ID = cr_ID r, comment_TaskID = taskID, comment_UserID = userID,
            comment_Body = cr_Body r, comment_CreatedAt = cr_CreatedAt r\<rparr>))"

definition SaveComment :: "server \<Rightarrow> Comment \<Rightarrow> (world, Comment) op" where
  "SaveComment srv c = do {
     r \<leftarrow> db_Exec_id srv (\<lambda>k. insert_task_comments srv k (uuidToBytes (comment_TaskID c))
            (uuidToBytes (comment_UserID c)) (comment_Body c));
     State_Monad.return (case r of
         Inl e \<Rightarrow> Inl (errorf ''mysql: save comment: '' e)
       | Inr i \<Rightarrow> Inr (c\<lparr>comment_ID := i\<rparr>)) }"

definition ListComments :: "server \<Rightarrow> uuid \<Rightarrow> (world, Comment list) op" where
  "ListComments srv i = do {
     rows \<leftarrow> db_Select srv (\<lambda>k d.
       Inr (sort_key cr_CreatedAt (filter (\<lambda>r. cr_TaskID r = uuidToBytes i) (visit srv k (task_comments d)))));
     State_Monad.return (case rows of
         Inl e \<Rightarrow> Inl (errorf ''mysql: list comments: '' e)
       | Inr rs \<Rightarrow> traverse toComment rs) }"

text \<open>The comments of a task, in storage order, and the stored form of a comment.\<close>

definition comment_view :: "database \<Rightarrow> uuid \<Rightarrow> Comment list" where
  "comment_view d i =
     (case traverse toComment (filter (\<lambda>r. cr_TaskID r = uuidToBytes i) (task_comments d)) of
        Inl _ \<Rightarrow> [] | Inr cs \<Rightarrow> cs)"

definition comment_stored :: "server \<Rightarrow> Comment \<Rightarrow> Comment \<Rightarrow> bool" where
  "comment_stored srv c s \<longleftrightarrow>
     comment_TaskID s = comment_TaskID c \<and> comment_UserID s = comment_UserID c \<and>
     col_text srv TextCol (comment_Body c) = Inr (comment_Body s)"

section \<open>Lemmas\<close>

lemma toComment_args [simp]: "toComment (comment_args c) = Inr c"
  by (simp add: toComment_def comment_args_def)

lemma traverse_toComment_args [simp]: "traverse toComment (map comment_args cs) = Inr cs"
  by (induction cs) simp_all

lemma cr_TaskID_comment_args [simp]: "cr_TaskID (comment_args c) = uuidToBytes (comment_TaskID c)"
  by (simp add: comment_args_def)

lemma comment_row_args:
  assumes "db_ok srv n d" and "r \<in> set (task_comments d)"
  shows "\<exists>c. r = comment_args c"
proof -
  from assms have "cr_TaskID r \<in> tk_ID ` set (tasks d)" "cr_UserID r \<in> ur_ID ` set (users d)"
    by (auto simp: db_ok_def comments_ok_def)
  then have "length (cr_TaskID r) = 16" "length (cr_UserID r) = 16"
    using db_ok_lengths [OF assms(1)] by blast+
  then obtain t u where "cr_TaskID r = uuidToBytes t" "cr_UserID r = uuidToBytes u"
    by (metis bytesToUUID_length)
  then have "r = comment_args \<lparr>comment_ID = cr_ID r, comment_TaskID = t, comment_UserID = u,
      comment_Body = cr_Body r, comment_CreatedAt = cr_CreatedAt r\<rparr>"
    by (simp add: comment_args_def)
  then show ?thesis by blast
qed

lemma comments_map:
  assumes "db_ok srv n d"
  obtains cs where "task_comments d = map comment_args cs"
  using image_list [OF comment_row_args [OF assms]] by blast

lemma comment_view_eq:
  assumes "task_comments d = map comment_args cs"
  shows "comment_view d i = filter (\<lambda>c. comment_TaskID c = i) cs"
  unfolding comment_view_def assms by (simp add: filter_map o_def)

lemma reads_ListComments: "reads (ListComments srv i)"
  unfolding ListComments_def by (intro keeps_intros)

lemma ListComments_Inr:
  assumes ok: "db_ok srv n (db w)" and run: "run_state (ListComments srv i) w = (Inr cs, w')"
  shows "mset cs = mset (comment_view (db w) i) \<and>
    sorted_wrt (\<lambda>a b. comment_CreatedAt a \<le> comment_CreatedAt b) cs"
proof -
  obtain xs where xs: "task_comments (db w) = map comment_args xs" using comments_map [OF ok] .
  let ?cs = "sort_key comment_CreatedAt (filter (\<lambda>c. comment_TaskID c = i) (visit srv (tick w) xs))"
  have at: "cr_CreatedAt (comment_args c) = comment_CreatedAt c" for c by (simp add: comment_args_def)
  from run xs have "traverse toComment (map comment_args ?cs) = Inr cs"
    by (auto simp: ListComments_def db_Select_def visit_map filter_map sort_key_map o_def at split: fault.splits)
  then have "cs = ?cs" by simp
  then show ?thesis
    using sorted_sort_key [of comment_CreatedAt "filter (\<lambda>c. comment_TaskID c = i) (visit srv (tick w) xs)"]
    by (simp add: comment_view_eq [OF xs] sorted_map)
qed

lemma insert_task_comments_args:
  assumes "insert_task_comments srv k (uuidToBytes (comment_TaskID c)) (uuidToBytes (comment_UserID c))
    (comment_Body c) d = Inr d'"
  shows "\<exists>s. comment_stored srv c s \<and> comment_ID s = srv_autoinc srv k \<and>
    comment_CreatedAt s = srv_datetime srv (srv_now srv k) \<and>
    d' = d\<lparr>task_comments := task_comments d @ [comment_args s]\<rparr>"
proof -
  from assms obtain b where b: "col_text srv TextCol (comment_Body c) = Inr b"
    and d': "d' = d\<lparr>task_comments := task_comments d @
      [\<lparr>cr_ID = srv_autoinc srv k, cr_TaskID = uuidToBytes (comment_TaskID c), cr_UserID = uuidToBytes (comment_UserID c),
        cr_Body = b, cr_CreatedAt = srv_datetime srv (srv_now srv k)\<rparr>]\<rparr>"
    by (auto simp: insert_task_comments_def split: if_splits)
  let ?s = "c\<lparr>comment_ID := srv_autoinc srv k, comment_Body := b, comment_CreatedAt := srv_datetime srv (srv_now srv k)\<rparr>"
  have "comment_stored srv c ?s" using b by (simp add: comment_stored_def)
  moreover have "d' = d\<lparr>task_comments := task_comments d @ [comment_args ?s]\<rparr>"
    by (simp add: d' comment_args_def)
  ultimately show ?thesis by (intro exI [of _ ?s]) simp
qed

lemma insert_task_comments_no_sentinel: "insert_task_comments srv k t u b d = Inl e \<Longrightarrow> \<not> errors_Is e s"
  by (auto simp: insert_task_comments_def and_then_eq_Inl mysql_error_def col_text_def split: if_splits option.splits)

lemma stores_SaveComment: "stores (store_inv srv) outside (SaveComment srv c)"
proof -
  have "stores (store_inv srv) outside State_Monad.get" by (simp add: stores_def)
  then show ?thesis
    unfolding SaveComment_def db_Exec_id_def
    by (intro stores_intros stores_Exec) (blast intro: insert_task_comments_ok)+
qed

text \<open>
  Every outcome of \<open>SaveComment\<close>.  On success the returned comment has the identifier of the
  stored row and, whatever the server's clock says, the \<open>CreatedAt\<close> it was given.
\<close>

lemma SaveComment_cases:
  assumes "run_state (SaveComment srv c) w = (r, w')"
  obtains (ok) s where "r = Inr (c\<lparr>comment_ID := comment_ID s\<rparr>)" "comment_stored srv c s"
      "comment_CreatedAt s = srv_datetime srv (srv_now srv (tick w))"
      "db w' = (db w)\<lparr>task_comments := task_comments (db w) @ [comment_args s]\<rparr>"
  | (err) e where "r = Inl e" "db w' = db w" "\<And>s. \<not> errors_Is e s"
  | (lost) e s where "r = Inl e" "\<And>s. \<not> errors_Is e s" "comment_stored srv c s"
      "db w' = (db w)\<lparr>task_comments := task_comments (db w) @ [comment_args s]\<rparr>"
proof -
  let ?stmt = "\<lambda>k. insert_task_comments srv k (uuidToBytes (comment_TaskID c)) (uuidToBytes (comment_UserID c)) (comment_Body c)"
  obtain x v where x: "run_state (db_Exec srv ?stmt) w = (x, v)" by fastforce
  with assms have r: "r = (case x of Inl e \<Rightarrow> Inl (errorf ''mysql: save comment: '' e)
      | Inr _ \<Rightarrow> Inr (c\<lparr>comment_ID := srv_autoinc srv (tick w)\<rparr>))" and w': "w' = v"
    by (auto simp: SaveComment_def db_Exec_id_def split: sum.splits)
  from x show thesis
  proof (cases rule: db_Exec_cases)
    case (ok d)
    from insert_task_comments_args [OF ok(2)] obtain s where s: "comment_stored srv c s"
      "comment_ID s = srv_autoinc srv (tick w)" "comment_CreatedAt s = srv_datetime srv (srv_now srv (tick w))"
      "d = (db w)\<lparr>task_comments := task_comments (db w) @ [comment_args s]\<rparr>" by blast
    show thesis by (rule that(1) [of s]) (use s ok r w' in simp_all)
  next
    case (refused e)
    with r w' that(2) show thesis by (auto dest: insert_task_comments_no_sentinel)
  next
    case (lost m)
    with r w' that(2) show thesis by auto
  next
    case (lost_after m d)
    with insert_task_comments_args [OF lost_after(2)] r w' that(3) show thesis by auto
  qed
qed

section \<open>The contract of the comment storage\<close>

definition non_comment_tables ::
  "database \<Rightarrow> userRow list \<times> teamRow list \<times> memberRow list \<times> taskRow list \<times> historyRow list" where
  "non_comment_tables d = (users d, teams d, team_members d, tasks d, task_history d)"

lemma comment_view_append:
  assumes ok: "db_ok srv n d"
  shows "comment_view (d\<lparr>task_comments := task_comments d @ [comment_args s]\<rparr>) =
    (comment_view d)(comment_TaskID s := comment_view d (comment_TaskID s) @ [s])"
proof -
  obtain cs where cs: "task_comments d = map comment_args cs" using comments_map [OF ok] .
  have "task_comments (d\<lparr>task_comments := task_comments d @ [comment_args s]\<rparr>) = map comment_args (cs @ [s])"
    by (simp add: cs)
  from comment_view_eq [OF this] comment_view_eq [OF cs] show ?thesis by (auto simp: fun_eq_iff)
qed

lemma SaveComment_saved:
  assumes db: "db_ok srv n (db w)" and run: "run_state (SaveComment srv c) w = (x, w')"
  shows "(\<exists>s. comment_stored srv c s \<and>
      comment_view (db w') = (comment_view (db w))(comment_TaskID c := comment_view (db w) (comment_TaskID c) @ [s]) \<and>
      non_comment_tables (db w') = non_comment_tables (db w) \<and>
      (case x of Inr c' \<Rightarrow> c' = c\<lparr>comment_ID := comment_ID s\<rparr> | Inl e \<Rightarrow> \<forall>g. \<not> errors_Is e g)) \<or>
    db w' = db w \<and> (\<exists>e. x = Inl e \<and> (\<forall>g. \<not> errors_Is e g))"
  using run
proof (cases rule: SaveComment_cases)
  case (ok s)
  then have "comment_TaskID s = comment_TaskID c" by (simp add: comment_stored_def)
  with ok comment_view_append [OF db, of s] show ?thesis by (auto simp: non_comment_tables_def)
next
  case (err e)
  then show ?thesis by auto
next
  case (lost e s)
  then have "comment_TaskID s = comment_TaskID c" by (simp add: comment_stored_def)
  with lost comment_view_append [OF db, of s] show ?thesis by (auto simp: non_comment_tables_def)
qed

lemma toComment_no_sentinel: "toComment r = Inl e \<Longrightarrow> \<not> errors_Is e s"
  by (auto simp: toComment_def bytesToUUID_def and_then_eq_Inl split: if_splits)

lemma ListComments_Inl:
  assumes "run_state (ListComments srv i) w = (Inl e, w')"
  shows "\<not> errors_Is e s"
  using assms
  by (auto simp: ListComments_def db_Select_def dest!: traverse_Inl toComment_no_sentinel
      split: fault.splits sum.splits)

interpretation mysql_comments: comment_store "base_inv P srv" db outside "SaveComment srv" "ListComments srv"
    comment_view non_comment_tables "comment_stored srv"
  for P srv
proof (unfold_locales, goal_cases)
  case (2 w c x w')
  from SaveComment_saved [OF base_inv_db [OF 2(1)] 2(2)] show ?case .
next
  case (4 w i cs w')
  from ListComments_Inr [OF base_inv_db [OF 4(1)] 4(2)] show ?case .
qed (auto intro: quiet_base stores_base reads_ListComments stores_SaveComment dest: ListComments_Inl)

end
