(* ===== verification/MySQL_Analytics.thy ===== *)
theory MySQL_Analytics
  imports MySQL_Task MySQL_Team
begin

text \<open>
  \<open>internal/storage/mysql/analytics.go\<close>: the three reports.  Each query is translated clause by
  clause (joins, grouping, COUNT DISTINCT, RANK, NOT EXISTS) and shown equal to a direct
  description of the report.
\<close>

section \<open>The queries\<close>

record teamSummaryRow =
  tsr_ID :: bytes
  tsr_Name :: string
  tsr_MemberCount :: nat
  tsr_DoneLast7Days :: nat

record topContributorRow =
  tcr_TeamID :: bytes
  tcr_UserID :: bytes
  tcr_TaskCount :: nat
  tcr_RankInTeam :: nat

record orphanTaskRow =
  otr_ID :: bytes
  otr_Title :: string
  otr_TeamID :: bytes
  otr_AssigneeID :: "bytes option"

text \<open>LEFT JOIN keeps a row with NULLs when nothing matches; COUNT DISTINCT ignores NULL.\<close>

definition left_join :: "'a list \<Rightarrow> 'a option list" where
  "left_join xs = (if xs = [] then [None] else map Some xs)"

definition count_distinct :: "'a option list \<Rightarrow> nat" where
  "count_distinct xs = length (remdups (List.map_filter (\<lambda>x. x) xs))"

definition done_since :: "server \<Rightarrow> time \<Rightarrow> taskRow \<Rightarrow> bool" where
  "done_since srv since r \<longleftrightarrow>
     srv_collate srv (tk_Status r) = srv_collate srv ''done'' \<and> since \<le> tk_UpdatedAt r"

definition summary_row :: "server \<Rightarrow> time \<Rightarrow> database \<Rightarrow> teamRow \<Rightarrow> teamSummaryRow" where
  "summary_row srv now d t =
     (let joined = [(m, k). m \<leftarrow> left_join (filter (\<lambda>m. mr_TeamID m = tr_ID t) (team_members d)),
                            k \<leftarrow> left_join (filter (\<lambda>k. tk_TeamID k = tr_ID t) (tasks d))]
      in \<lparr>tsr_ID = tr_ID t, tsr_Name = tr_Name t,
          tsr_MemberCount = count_distinct (map (\<lambda>(m, k). map_option mr_UserID m) joined),
          tsr_DoneLast7Days = count_distinct (map (\<lambda>(m, k).
            case k of None \<Rightarrow> None
            | Some r \<Rightarrow> if done_since srv (now - 7 * ns_per_day) r then Some (tk_ID r) else None) joined)\<rparr>)"

definition select_summaries :: "server \<Rightarrow> nat \<Rightarrow> database \<Rightarrow> err + teamSummaryRow list" where
  "select_summaries srv k d = Inr (visit srv k (map (summary_row srv (srv_now srv k) d) (teams d)))"

text \<open>The groups of the inner query, their sizes, and the window function over them.\<close>

definition recent_groups :: "time \<Rightarrow> database \<Rightarrow> (bytes \<times> bytes) list" where
  "recent_groups since d =
     map (\<lambda>r. (tk_TeamID r, tk_CreatedBy r)) (filter (\<lambda>r. since \<le> tk_CreatedAt r) (tasks d))"

definition rank_in_team :: "(bytes \<times> bytes) list \<Rightarrow> bytes \<times> bytes \<Rightarrow> nat" where
  "rank_in_team gs g =
     1 + length (filter (\<lambda>h. fst h = fst g \<and> count_list gs g < count_list gs h) (remdups gs))"

definition select_contributors :: "server \<Rightarrow> nat \<Rightarrow> database \<Rightarrow> err + topContributorRow list" where
  "select_contributors srv k d =
     (let gs = recent_groups (srv_now srv k - 30 * ns_per_day) d;
          ranked = map (\<lambda>g. \<lparr>tcr_TeamID = fst g, tcr_UserID = snd g, tcr_TaskCount = count_list gs g,
                             tcr_RankInTeam = rank_in_team gs g\<rparr>) (remdups gs)
      in Inr (visit srv k (filter (\<lambda>r. tcr_RankInTeam r \<le> 3) ranked)))"

definition orphan_row :: "database \<Rightarrow> taskRow \<Rightarrow> bool" where
  "orphan_row d r \<longleftrightarrow>
     (case tk_AssigneeID r of
        None \<Rightarrow> False
      | Some a \<Rightarrow> \<not> (\<exists>m \<in> set (team_members d). mr_TeamID m = tk_TeamID r \<and> mr_UserID m = a))"

definition select_orphans :: "server \<Rightarrow> nat \<Rightarrow> database \<Rightarrow> err + orphanTaskRow list" where
  "select_orphans srv k d =
     Inr (map (\<lambda>r. \<lparr>otr_ID = tk_ID r, otr_Title = tk_Title r, otr_TeamID = tk_TeamID r, otr_AssigneeID = tk_AssigneeID r\<rparr>)
       (filter (orphan_row d) (visit srv k (tasks d))))"

section \<open>The operations\<close>

definition TeamSummaries :: "server \<Rightarrow> (world, TeamSummary list) op" where
  "TeamSummaries srv = do {
     rows \<leftarrow> db_Select srv (select_summaries srv);
     State_Monad.return (case rows of
         Inl e \<Rightarrow> Inl (errorf ''mysql: team summaries: '' e)
       | Inr rs \<Rightarrow> traverse (\<lambda>r.
           and_then (on_err (errorf ''mysql: parse summary team id: '') (bytesToUUID (tsr_ID r))) (\<lambda>i.
             Inr \<lparr>ts_TeamID = i, ts_Name = tsr_Name r, ts_MemberCount = tsr_MemberCount r,
                  ts_DoneLast7Days = tsr_DoneLast7Days r\<rparr>)) rs) }"

definition TopContributors :: "server \<Rightarrow> (world, TopContributor list) op" where
  "TopContributors srv = do {
     rows \<leftarrow> db_Select srv (select_contributors srv);
     State_Monad.return (case rows of
         Inl e \<Rightarrow> Inl (errorf ''mysql: top contributors: '' e)
       | Inr rs \<Rightarrow> traverse (\<lambda>r.
           and_then (on_err (errorf ''mysql: parse contributor team_id: '') (bytesToUUID (tcr_TeamID r))) (\<lambda>teamID.
           and_then (on_err (errorf ''mysql: parse contributor user_id: '') (bytesToUUID (tcr_UserID r))) (\<lambda>userID.
             Inr \<lparr>tc_TeamID = teamID, tc_UserID = userID, tc_TaskCount = tcr_TaskCount r,
                  tc_RankInTeam = tcr_RankInTeam r\<rparr>))) rs) }"

text \<open>The nil slice of a NULL column has length 0, so \<open>bytesToUUID\<close> refuses it.\<close>

definition OrphanTasks :: "server \<Rightarrow> (world, OrphanTask list) op" where
  "OrphanTasks srv = do {
     rows \<leftarrow> db_Select srv (select_orphans srv);
     State_Monad.return (case rows of
         Inl e \<Rightarrow> Inl (errorf ''mysql: orphan tasks: '' e)
       | Inr rs \<Rightarrow> traverse (\<lambda>r.
           and_then (on_err (errorf ''mysql: parse orphan task id: '') (bytesToUUID (otr_ID r))) (\<lambda>i.
           and_then (on_err (errorf ''mysql: parse orphan team_id: '') (bytesToUUID (otr_TeamID r))) (\<lambda>teamID.
           and_then (on_err (errorf ''mysql: parse orphan assignee_id: '')
               (bytesToUUID (case otr_AssigneeID r of None \<Rightarrow> [] | Some a \<Rightarrow> a))) (\<lambda>assigneeID.
             Inr \<lparr>ot_ID = i, ot_Title = otr_Title r, ot_TeamID = teamID, ot_AssigneeID = assigneeID\<rparr>)))) rs) }"

lemma reads_analytics:
  "reads (TeamSummaries srv)" "reads (TopContributors srv)" "reads (OrphanTasks srv)"
  unfolding TeamSummaries_def TopContributors_def OrphanTasks_def by (intro keeps_intros)+

section \<open>Team summaries\<close>

lemma set_map_filter_id: "set (List.map_filter (\<lambda>x. x) xs) = {x. Some x \<in> set xs}"
  by (force simp: List.map_filter_def)

lemma count_distinct_card: "count_distinct xs = card {x. Some x \<in> set xs}"
  unfolding count_distinct_def length_remdups_card_conv set_map_filter_id ..

lemma left_join_nonempty: "set (left_join xs) \<noteq> {}"
  by (simp add: left_join_def)

text \<open>The second join repeats the rows of the first, and COUNT DISTINCT undoes the repetition.\<close>

lemma set_join: "set [(m, k). m \<leftarrow> xs, k \<leftarrow> ys] = set xs \<times> set ys"
  by auto

lemma image_join_fst: "B \<noteq> {} \<Longrightarrow> (\<lambda>(m, k). f m) ` (A \<times> B) = f ` A"
  by force

lemma image_join_snd: "A \<noteq> {} \<Longrightarrow> (\<lambda>(m, k). g k) ` (A \<times> B) = g ` B"
  by force

lemma count_join_fst:
  "count_distinct (map (\<lambda>(m, k). map_option f m) [(m, k). m \<leftarrow> left_join xs, k \<leftarrow> left_join ys]) =
     card (f ` set xs)"
proof -
  have "{x. Some x \<in> map_option f ` set (left_join xs)} = f ` set xs"
    by (auto simp: left_join_def image_iff)
  then show ?thesis
    unfolding count_distinct_card set_map set_join image_join_fst [OF left_join_nonempty] by simp
qed

lemma count_join_snd:
  "count_distinct (map (\<lambda>(m, k). case k of None \<Rightarrow> None | Some r \<Rightarrow> if P r then Some (g r) else None)
       [(m, k). m \<leftarrow> left_join xs, k \<leftarrow> left_join ys]) = card (g ` {r \<in> set ys. P r})"
proof -
  let ?h = "\<lambda>k. case k of None \<Rightarrow> None | Some r \<Rightarrow> if P r then Some (g r) else None"
  have "{x. Some x \<in> ?h ` set (left_join ys)} = g ` {r \<in> set ys. P r}"
    by (auto simp: left_join_def image_iff split: option.splits if_splits)
  then show ?thesis
    unfolding count_distinct_card set_map set_join image_join_snd [OF left_join_nonempty] by simp
qed

text \<open>The summary of one team, described directly.\<close>

definition summary_of :: "server \<Rightarrow> time \<Rightarrow> database \<Rightarrow> Team \<Rightarrow> TeamSummary" where
  "summary_of srv now d t =
     \<lparr>ts_TeamID = team_ID t, ts_Name = team_Name t,
      ts_MemberCount = card {u. role_view d (team_ID t) u \<noteq> None},
      ts_DoneLast7Days = length (filter (\<lambda>k. task_TeamID k = team_ID t \<and>
        srv_collate srv (task_Status k) = srv_collate srv ''done'' \<and> now - 7 * ns_per_day \<le> task_UpdatedAt k) (all_tasks d))\<rparr>"

lemma member_ids:
  assumes ok: "db_ok srv n d"
  shows "mr_UserID ` {m \<in> set (team_members d). mr_TeamID m = uuidToBytes t} =
    uuidToBytes ` {u. role_view d t u \<noteq> None}"
proof (intro equalityI subsetI)
  fix b
  assume "b \<in> mr_UserID ` {m \<in> set (team_members d). mr_TeamID m = uuidToBytes t}"
  then obtain m where m: "m \<in> set (team_members d)" "mr_TeamID m = uuidToBytes t" "b = mr_UserID m" by auto
  then have "b \<in> ur_ID ` set (users d)" using ok by (auto simp: db_ok_def members_ok_def member_parents_def)
  then obtain u where u: "b = uuidToBytes u" using db_ok_lengths(1) [OF ok] bytesToUUID_length by metis
  with m have "role_view d t u \<noteq> None" by (auto simp: role_view_def find_None_iff)
  with u show "b \<in> uuidToBytes ` {u. role_view d t u \<noteq> None}" by blast
next
  fix b
  assume "b \<in> uuidToBytes ` {u. role_view d t u \<noteq> None}"
  then obtain u v where u: "b = uuidToBytes u" and "role_view d t u = Some v" by auto
  from role_view_Some [OF this(2)] u
  show "b \<in> mr_UserID ` {m \<in> set (team_members d). mr_TeamID m = uuidToBytes t}" by force
qed

lemma inj_uuidToBytes: "inj_on uuidToBytes A"
  by (simp add: inj_on_def)

lemma summary_row_args:
  assumes ok: "db_ok srv n d"
  shows "summary_row srv now d (team_args t) =
    \<lparr>tsr_ID = uuidToBytes (team_ID t), tsr_Name = team_Name t,
     tsr_MemberCount = ts_MemberCount (summary_of srv now d t),
     tsr_DoneLast7Days = ts_DoneLast7Days (summary_of srv now d t)\<rparr>"
proof -
  let ?P = "done_since srv (now - 7 * ns_per_day)"
  let ?Q = "\<lambda>k. task_TeamID k = team_ID t \<and>
    srv_collate srv (task_Status k) = srv_collate srv ''done'' \<and> now - 7 * ns_per_day \<le> task_UpdatedAt k"
  have members: "card (mr_UserID ` set (filter (\<lambda>m. mr_TeamID m = uuidToBytes (team_ID t)) (team_members d))) =
      card {u. role_view d (team_ID t) u \<noteq> None}"
    using member_ids [OF ok, of "team_ID t"] card_image [OF inj_uuidToBytes] by simp
  have "tk_ID ` {r \<in> set (filter (\<lambda>k. tk_TeamID k = uuidToBytes (team_ID t)) (tasks d)). ?P r} =
      uuidToBytes ` task_ID ` set (filter ?Q (all_tasks d))"
    by (subst tasks_map [OF ok]) (force simp: done_since_def task_args_def)
  then have "card (tk_ID ` {r \<in> set (filter (\<lambda>k. tk_TeamID k = uuidToBytes (team_ID t)) (tasks d)). ?P r}) =
      card (set (map task_ID (filter ?Q (all_tasks d))))"
    using card_image [OF inj_uuidToBytes] by simp
  also have "\<dots> = length (filter ?Q (all_tasks d))"
    using all_tasks_distinct [OF ok] by (subst distinct_card) (simp_all add: distinct_map_filter)
  finally show ?thesis
    using members by (simp add: summary_row_def Let_def count_join_fst count_join_snd summary_of_def team_args_def
        del: set_filter)
qed

lemma TeamSummaries_Inr:
  assumes ok: "db_ok srv n (db w)" and run: "run_state (TeamSummaries srv) w = (Inr ss, w')"
  shows "mset ss = mset (map (summary_of srv (srv_now srv (tick w)) (db w)) (all_teams (db w)))"
proof -
  let ?conv = "\<lambda>r. and_then (on_err (errorf ''mysql: parse summary team id: '') (bytesToUUID (tsr_ID r))) (\<lambda>i.
             Inr \<lparr>ts_TeamID = i, ts_Name = tsr_Name r, ts_MemberCount = tsr_MemberCount r,
                  ts_DoneLast7Days = tsr_DoneLast7Days r\<rparr>)"
  let ?row = "summary_row srv (srv_now srv (tick w)) (db w)"
  let ?sum = "summary_of srv (srv_now srv (tick w)) (db w)"
  from run have "traverse ?conv (visit srv (tick w) (map ?row (teams (db w)))) = Inr ss"
    by (auto simp: TeamSummaries_def select_summaries_def elim!: db_Select_cases split: sum.splits prod.splits)
  moreover have "visit srv (tick w) (map ?row (teams (db w))) =
      map (?row \<circ> team_args) (visit srv (tick w) (all_teams (db w)))"
    by (subst teams_map [OF ok]) (simp add: visit_map)
  moreover have "traverse ?conv (map (?row \<circ> team_args) ts) = Inr (map ?sum ts)" for ts
    by (rule traverse_map_map) (simp add: summary_row_args [OF ok], simp add: summary_of_def)
  ultimately have "ss = map ?sum (visit srv (tick w) (all_teams (db w)))" by simp
  then show ?thesis by simp
qed

section \<open>Orphan tasks\<close>

text \<open>A task is an orphan when it has an assignee who is no member of its team.\<close>

definition orphan_of :: "database \<Rightarrow> Task \<Rightarrow> OrphanTask option" where
  "orphan_of d t =
     (case task_AssigneeID t of
        None \<Rightarrow> None
      | Some a \<Rightarrow> if role_view d (task_TeamID t) a = None
          then Some \<lparr>ot_ID = task_ID t, ot_Title = task_Title t, ot_TeamID = task_TeamID t, ot_AssigneeID = a\<rparr>
          else None)"

lemma role_view_None:
  "role_view d t u = None \<longleftrightarrow> \<not> (\<exists>m \<in> set (team_members d). mr_TeamID m = uuidToBytes t \<and> mr_UserID m = uuidToBytes u)"
  by (auto simp: role_view_def find_None_iff)

lemma orphan_row_args: "orphan_row d (task_args t) \<longleftrightarrow> orphan_of d t \<noteq> None"
  by (auto simp: orphan_row_def orphan_of_def task_args_def role_view_None split: option.splits)

lemma OrphanTasks_Inr:
  assumes ok: "db_ok srv n (db w)" and run: "run_state (OrphanTasks srv) w = (Inr os, w')"
  shows "mset os = mset (List.map_filter (orphan_of (db w)) (all_tasks (db w)))"
proof -
  let ?conv = "\<lambda>r. and_then (on_err (errorf ''mysql: parse orphan task id: '') (bytesToUUID (otr_ID r))) (\<lambda>i.
           and_then (on_err (errorf ''mysql: parse orphan team_id: '') (bytesToUUID (otr_TeamID r))) (\<lambda>teamID.
           and_then (on_err (errorf ''mysql: parse orphan assignee_id: '')
               (bytesToUUID (case otr_AssigneeID r of None \<Rightarrow> [] | Some a \<Rightarrow> a))) (\<lambda>assigneeID.
             Inr \<lparr>ot_ID = i, ot_Title = otr_Title r, ot_TeamID = teamID, ot_AssigneeID = assigneeID\<rparr>)))"
  let ?sel = "\<lambda>r. \<lparr>otr_ID = tk_ID r, otr_Title = tk_Title r, otr_TeamID = tk_TeamID r, otr_AssigneeID = tk_AssigneeID r\<rparr>"
  let ?ts = "visit srv (tick w) (all_tasks (db w))"
  from run have "traverse ?conv (map ?sel (filter (orphan_row (db w)) (visit srv (tick w) (tasks (db w))))) = Inr os"
    by (auto simp: OrphanTasks_def select_orphans_def elim!: db_Select_cases split: sum.splits prod.splits)
  moreover have "filter (orphan_row (db w)) (visit srv (tick w) (tasks (db w))) =
      map task_args (filter (\<lambda>t. orphan_of (db w) t \<noteq> None) ?ts)"
    by (subst tasks_map [OF ok]) (simp add: visit_map filter_map o_def orphan_row_args)
  moreover have "traverse ?conv (map ?sel (map task_args (filter (\<lambda>t. orphan_of (db w) t \<noteq> None) ts))) =
      Inr (List.map_filter (orphan_of (db w)) ts)" for ts
    unfolding map_map
    by (rule traverse_map_filter) (auto simp: orphan_of_def task_args_def split: option.splits if_splits)
  ultimately have "os = List.map_filter (orphan_of (db w)) ?ts" by simp
  then have "mset os = image_mset (the \<circ> orphan_of (db w)) (filter_mset (\<lambda>t. orphan_of (db w) t \<noteq> None) (mset ?ts))"
    by (simp add: List.map_filter_def)
  then show ?thesis by (simp add: List.map_filter_def)
qed

section \<open>Top contributors\<close>

text \<open>Tasks a user created in a team since a date, and the user's rank there.\<close>

definition created_since :: "time \<Rightarrow> database \<Rightarrow> uuid \<Rightarrow> uuid \<Rightarrow> nat" where
  "created_since since d t u =
     length (filter (\<lambda>k. task_TeamID k = t \<and> task_CreatedBy k = u \<and> since \<le> task_CreatedAt k) (all_tasks d))"

definition rank_of :: "time \<Rightarrow> database \<Rightarrow> uuid \<Rightarrow> uuid \<Rightarrow> nat" where
  "rank_of since d t u = 1 + card {v. created_since since d t u < created_since since d t v}"

lemma count_list_filter: "count_list xs x = length (filter (\<lambda>y. y = x) xs)"
  by (induction xs) auto

definition uuid_pair :: "uuid \<times> uuid \<Rightarrow> bytes \<times> bytes" where
  "uuid_pair p = (uuidToBytes (fst p), uuidToBytes (snd p))"

lemma inj_uuid_pair: "inj uuid_pair"
  by (auto simp: inj_def uuid_pair_def)

definition creators :: "time \<Rightarrow> database \<Rightarrow> (uuid \<times> uuid) list" where
  "creators since d = map (\<lambda>k. (task_TeamID k, task_CreatedBy k)) (filter (\<lambda>k. since \<le> task_CreatedAt k) (all_tasks d))"

lemma recent_groups_creators:
  assumes "db_ok srv n d"
  shows "recent_groups since d = map uuid_pair (creators since d)"
  unfolding recent_groups_def creators_def
  by (subst tasks_map [OF assms]) (simp add: filter_map o_def uuid_pair_def task_args_def)

lemma count_creators: "count_list (creators since d) (t, u) = created_since since d t u"
  unfolding count_list_filter creators_def created_since_def
  by (simp add: filter_map o_def) (metis (no_types, lifting))

lemma count_map_pair: "count_list (map uuid_pair xs) (uuid_pair x) = count_list xs x"
  by (induction xs) (auto dest: injD [OF inj_uuid_pair])

lemma inj_on_Pair1: "inj_on (Pair t) A"
  by (simp add: inj_on_def)

lemma remdups_map_pair: "remdups (map uuid_pair xs) = map uuid_pair (remdups xs)"
  by (induction xs) (auto dest: injD [OF inj_uuid_pair])

lemma in_creators: "(t, u) \<in> set (creators since d) \<longleftrightarrow> 0 < created_since since d t u"
  unfolding count_creators [symmetric] by (metis count_list_0_iff gr0I less_numeral_extra(3))

lemma rank_in_team_creators:
  "rank_in_team (map uuid_pair (creators since d)) (uuid_pair (t, u)) = rank_of since d t u"
proof -
  let ?gs = "creators since d"
  let ?Q = "\<lambda>h. fst h = uuidToBytes t \<and> count_list (map uuid_pair ?gs) (uuid_pair (t, u)) < count_list (map uuid_pair ?gs) h"
  have "{h \<in> set (map uuid_pair ?gs). ?Q h} = uuid_pair ` Pair t ` {v. created_since since d t u < created_since since d t v}"
  proof (intro equalityI subsetI)
    fix h
    assume "h \<in> {h \<in> set (map uuid_pair ?gs). ?Q h}"
    then obtain t' v where h: "h = uuid_pair (t', v)" and Q: "?Q h" by auto
    then have "t' = t" by (simp add: uuid_pair_def)
    with h Q have "created_since since d t u < created_since since d t v"
      by (simp only: count_map_pair count_creators)
    with h \<open>t' = t\<close> show "h \<in> uuid_pair ` Pair t ` {v. created_since since d t u < created_since since d t v}" by blast
  next
    fix h
    assume "h \<in> uuid_pair ` Pair t ` {v. created_since since d t u < created_since since d t v}"
    then obtain v where h: "h = uuid_pair (t, v)" and lt: "created_since since d t u < created_since since d t v" by blast
    then have "(t, v) \<in> set ?gs" by (simp add: in_creators)
    moreover have "?Q h" using lt unfolding h count_map_pair count_creators by (simp add: uuid_pair_def)
    ultimately show "h \<in> {h \<in> set (map uuid_pair ?gs). ?Q h}" using h by simp
  qed
  then have "card {h \<in> set (map uuid_pair ?gs). ?Q h} = card {v. created_since since d t u < created_since since d t v}"
    by (simp only: card_image [OF inj_on_subset [OF inj_uuid_pair subset_UNIV]] card_image [OF inj_on_Pair1])
  moreover have "fst (uuid_pair (t, u)) = uuidToBytes t" by (simp add: uuid_pair_def)
  ultimately show ?thesis
    unfolding rank_in_team_def rank_of_def remdups_filter [symmetric] length_remdups_card_conv set_filter by simp
qed

definition contributor_of :: "time \<Rightarrow> database \<Rightarrow> uuid \<times> uuid \<Rightarrow> TopContributor" where
  "contributor_of since d p =
     \<lparr>tc_TeamID = fst p, tc_UserID = snd p, tc_TaskCount = created_since since d (fst p) (snd p),
      tc_RankInTeam = rank_of since d (fst p) (snd p)\<rparr>"

lemma TopContributors_Inr:
  assumes ok: "db_ok srv n (db w)" and run: "run_state (TopContributors srv) w = (Inr cs, w')"
    and since: "since = srv_now srv (tick w) - 30 * ns_per_day"
  shows "distinct (map (\<lambda>c. (tc_TeamID c, tc_UserID c)) cs)"
    and "set cs = {contributor_of since (db w) (t, u) | t u.
      0 < created_since since (db w) t u \<and> rank_of since (db w) t u \<le> 3}"
proof -
  let ?d = "db w"
  let ?ps = "creators since ?d"
  let ?conv = "\<lambda>r. and_then (on_err (errorf ''mysql: parse contributor team_id: '') (bytesToUUID (tcr_TeamID r))) (\<lambda>teamID.
           and_then (on_err (errorf ''mysql: parse contributor user_id: '') (bytesToUUID (tcr_UserID r))) (\<lambda>userID.
             Inr \<lparr>tc_TeamID = teamID, tc_UserID = userID, tc_TaskCount = tcr_TaskCount r,
                  tc_RankInTeam = tcr_RankInTeam r\<rparr>))"
  let ?row = "\<lambda>p. \<lparr>tcr_TeamID = uuidToBytes (fst p), tcr_UserID = uuidToBytes (snd p),
    tcr_TaskCount = created_since since ?d (fst p) (snd p), tcr_RankInTeam = rank_of since ?d (fst p) (snd p)\<rparr>"
  let ?top = "filter (\<lambda>p. rank_of since ?d (fst p) (snd p) \<le> 3) (remdups ?ps)"
  let ?grow = "\<lambda>g. \<lparr>tcr_TeamID = fst g, tcr_UserID = snd g, tcr_TaskCount = count_list (map uuid_pair ?ps) g,
    tcr_RankInTeam = rank_in_team (map uuid_pair ?ps) g\<rparr>"
  have row: "?grow (uuid_pair p) = ?row p" for p
    using rank_in_team_creators [of since ?d "fst p" "snd p"] count_creators [of since ?d "fst p" "snd p"]
    by (simp add: count_map_pair) (simp add: uuid_pair_def)
  have "select_contributors srv (tick w) ?d =
      Inr (visit srv (tick w) (filter (\<lambda>r. tcr_RankInTeam r \<le> 3) (map ?grow (remdups (map uuid_pair ?ps)))))"
    by (simp add: select_contributors_def Let_def recent_groups_creators [OF ok] since)
  also have "map ?grow (remdups (map uuid_pair ?ps)) = map ?row (remdups ?ps)"
    by (simp only: remdups_map_pair map_map o_def row)
  finally have sel: "select_contributors srv (tick w) ?d = Inr (map ?row (visit srv (tick w) ?top))"
    by (simp add: filter_map o_def visit_map)
  from run have "traverse ?conv (map ?row (visit srv (tick w) ?top)) = Inr cs"
    by (auto simp: TopContributors_def sel elim!: db_Select_cases split: sum.splits prod.splits)
  moreover have "traverse ?conv (map ?row xs) = Inr (map (contributor_of since ?d) xs)" for xs
    by (rule traverse_map_map) (simp add: contributor_of_def)
  ultimately have cs: "cs = map (contributor_of since ?d) (visit srv (tick w) ?top)" by simp
  have "distinct (visit srv (tick w) ?top)"
    by (metis distinct_filter distinct_remdups mset_eq_imp_distinct_iff mset_visit)
  then show "distinct (map (\<lambda>c. (tc_TeamID c, tc_UserID c)) cs)"
    by (simp add: cs o_def contributor_of_def)
  show "set cs = {contributor_of since ?d (t, u) | t u. 0 < created_since since ?d t u \<and> rank_of since ?d t u \<le> 3}"
    by (auto simp: cs in_creators; blast)
qed

end
