(* ===== verification/Redis_Cache.thy ===== *)
theory Redis_Cache
  imports MySQL_Helpers
begin

text \<open>
  \<open>internal/storage/redis/taskcache.go\<close>: the cache of task lists.  Redis itself is a
  parameter: when a call fails, its clock, the expiry it computes from a TTL, its glob
  matching, and its SCAN cursor.  The laws it documents and the cache relies on are
  \<open>redis_laws\<close>.
\<close>

section \<open>The Redis server\<close>

record redis_server =
  rds_fault :: "nat \<Rightarrow> fault"
  rds_now :: "nat \<Rightarrow> time"
  rds_expiry :: "nat \<Rightarrow> time \<Rightarrow> time option"
  rds_match :: "string \<Rightarrow> string \<Rightarrow> bool"
  rds_scan :: "nat \<Rightarrow> 64 word \<Rightarrow> string \<Rightarrow> nat \<Rightarrow> string list \<Rightarrow> string list \<times> 64 word"
  rds_calls :: "nat \<Rightarrow> nat"

text \<open>
  An entry whose expiry has passed is no longer there: the server drops such entries before
  it answers a call.
\<close>

definition live :: "redis_server \<Rightarrow> nat \<Rightarrow> string \<times> bytes \<times> time option \<Rightarrow> bool" where
  "live rds k e = (case snd (snd e) of None \<Rightarrow> True | Some t \<Rightarrow> rds_now rds k < t)"

definition live_entries :: "redis_server \<Rightarrow> world \<Rightarrow> (string \<times> bytes \<times> time option) list" where
  "live_entries rds w = filter (live rds (tick w)) (redis w)"

section \<open>Calls of the client library\<close>

text \<open>A call with answer \<open>f\<close> and effect \<open>g\<close> on the key space, which may lose its connection.\<close>

definition client_Do :: "redis_server \<Rightarrow>
  (nat \<Rightarrow> (string \<times> bytes \<times> time option) list \<Rightarrow> err + 'a) \<Rightarrow>
  (nat \<Rightarrow> (string \<times> bytes \<times> time option) list \<Rightarrow> (string \<times> bytes \<times> time option) list) \<Rightarrow> (world, 'a) op" where
  "client_Do rds f g = State (\<lambda>w.
     let w' = (advance w)\<lparr>redis := g (tick w) (live_entries rds w)\<rparr> in
     case rds_fault rds (tick w) of
       NoFault \<Rightarrow> (f (tick w) (live_entries rds w), w')
     | LostBefore m \<Rightarrow> (Inl (DriverErr m), advance w)
     | LostAfter m \<Rightarrow> (Inl (DriverErr m), w'))"

definition client_Get :: "redis_server \<Rightarrow> string \<Rightarrow> (world, bytes) op" where
  "client_Get rds key = client_Do rds
     (\<lambda>k es. case map_of es key of None \<Rightarrow> Inl (Sentinel RedisNil) | Some v \<Rightarrow> Inr (fst v)) (\<lambda>k es. es)"

definition client_Set :: "redis_server \<Rightarrow> string \<Rightarrow> bytes \<Rightarrow> time \<Rightarrow> (world, unit) op" where
  "client_Set rds key data ttl = client_Do rds (\<lambda>k es. Inr ())
     (\<lambda>k es. (key, data, rds_expiry rds k ttl) # filter (\<lambda>e. fst e \<noteq> key) es)"

definition client_Del :: "redis_server \<Rightarrow> string list \<Rightarrow> (world, unit) op" where
  "client_Del rds keys = client_Do rds (\<lambda>k es. Inr ()) (\<lambda>k es. filter (\<lambda>e. fst e \<notin> set keys) es)"

definition client_Scan :: "redis_server \<Rightarrow> 64 word \<Rightarrow> string \<Rightarrow> nat \<Rightarrow> (world, string list \<times> 64 word) op" where
  "client_Scan rds cursor pattern n = client_Do rds
     (\<lambda>k es. Inr (rds_scan rds k cursor pattern n (map fst es))) (\<lambda>k es. es)"

section \<open>The cache\<close>

definition cache_Get :: "redis_server \<Rightarrow> string \<Rightarrow> (world, bytes) op" where
  "cache_Get rds key = do {
     r \<leftarrow> client_Get rds key;
     State_Monad.return (case r of
         Inl e \<Rightarrow> if errors_Is e RedisNil then Inl (Sentinel ErrCacheMiss)
                  else Inl (errorf (''redis: get '' @ Quote key @ '': '') e)
       | Inr b \<Rightarrow> Inr b) }"

definition cache_Set :: "redis_server \<Rightarrow> string \<Rightarrow> bytes \<Rightarrow> time \<Rightarrow> (world, unit) op" where
  "cache_Set rds key data ttl = do {
     r \<leftarrow> client_Set rds key data ttl;
     State_Monad.return (on_err (errorf (''redis: set '' @ Quote key @ '': '')) r) }"

text \<open>
  The SCAN loop.  The first argument bounds the number of iterations; \<open>rds_calls\<close> is the
  number of calls that a complete iteration over so many keys takes at most, so the bound is
  not reached (\<open>scan_loop_enough\<close>).
\<close>

definition out_of_fuel :: err where
  "out_of_fuel = ErrorString ''scan: iteration bound reached''"

fun scan_loop :: "redis_server \<Rightarrow> string \<Rightarrow> nat \<Rightarrow> 64 word \<Rightarrow> (world, unit) op" where
  "scan_loop rds pattern 0 cursor = State_Monad.return (Inl out_of_fuel)"
| "scan_loop rds pattern (Suc n) cursor = do {
     r \<leftarrow> client_Scan rds cursor pattern 100;
     case r of
       Inl e \<Rightarrow> State_Monad.return (Inl (errorf (''redis: scan '' @ Quote pattern @ '': '') e))
     | Inr (keys, cursor') \<Rightarrow> do {
         d \<leftarrow> (if length keys > 0 then client_Del rds keys else State_Monad.return (Inr ()));
         case d of
           Inl e \<Rightarrow> State_Monad.return (Inl (errorf ''redis: del keys: '' e))
         | Inr _ \<Rightarrow> if cursor' = 0 then State_Monad.return (Inr ()) else scan_loop rds pattern n cursor' } }"

definition cache_Invalidate :: "redis_server \<Rightarrow> string \<Rightarrow> (world, unit) op" where
  "cache_Invalidate rds pattern =
     (if \<not> HasSuffix pattern ''*'' then do {
        r \<leftarrow> client_Del rds [pattern];
        State_Monad.return (on_err (errorf (''redis: del '' @ Quote pattern @ '': '')) r) }
      else do {
        w \<leftarrow> State_Monad.get;
        scan_loop rds pattern (rds_calls rds (length (redis w))) 0 })"

section \<open>What Redis documents\<close>

text \<open>
  The answers of an iteration that starts at cursor \<open>c\<close>; each step carries the number of the
  call and the keys present then.  The iteration is complete when the server returns cursor 0.
\<close>

fun scan_walk :: "redis_server \<Rightarrow> string \<Rightarrow> 64 word \<Rightarrow> (nat \<times> string list) list \<Rightarrow> (string list \<times> 64 word) list" where
  "scan_walk rds pat c [] = []"
| "scan_walk rds pat c ((k, K) # xs) =
     (let r = rds_scan rds k c pat 100 K in r # (if snd r = 0 then [] else scan_walk rds pat (snd r) xs))"

text \<open>
  The guarantees of SCAN: a returned key is present and matches; a complete iteration returns
  every matching key that was present throughout; an iteration over a bounded collection is
  complete after boundedly many calls.
\<close>

definition scan_sound :: "redis_server \<Rightarrow> bool" where
  "scan_sound rds \<longleftrightarrow> (\<forall>k c pat n K. set (fst (rds_scan rds k c pat n K)) \<subseteq> {x \<in> set K. rds_match rds pat x})"

definition scan_complete :: "redis_server \<Rightarrow> bool" where
  "scan_complete rds \<longleftrightarrow> (\<forall>pat xs x. (\<exists>y \<in> set (scan_walk rds pat 0 xs). snd y = 0) \<longrightarrow>
     (\<forall>s \<in> set (take (length (scan_walk rds pat 0 xs)) xs). x \<in> set (snd s)) \<longrightarrow> rds_match rds pat x \<longrightarrow>
     (\<exists>y \<in> set (scan_walk rds pat 0 xs). x \<in> set (fst y)))"

definition scan_ends :: "redis_server \<Rightarrow> bool" where
  "scan_ends rds \<longleftrightarrow> (\<forall>pat M xs. (\<forall>s \<in> set xs. length (snd s) \<le> M) \<longrightarrow> length xs = rds_calls rds M \<longrightarrow>
     (\<exists>y \<in> set (scan_walk rds pat 0 xs). snd y = 0))"

text \<open>A pattern without special characters before its final \<open>*\<close> matches by prefix.\<close>

definition glob_prefix :: "redis_server \<Rightarrow> bool" where
  "glob_prefix rds \<longleftrightarrow> (\<forall>p x. set p \<inter> insert (CHR 0x5C) (set ''*?[]^'') = {} \<longrightarrow> (rds_match rds (p @ ''*'') x \<longleftrightarrow> HasPrefix x p))"

definition redis_laws :: "redis_server \<Rightarrow> bool" where
  "redis_laws rds \<longleftrightarrow> mono (rds_now rds) \<and> scan_sound rds \<and> scan_complete rds \<and> scan_ends rds \<and> glob_prefix rds"

section \<open>Frame conditions\<close>

text \<open>Cache calls touch nothing but the key space and the call number.\<close>

definition cache_only :: "(world, 'a) state \<Rightarrow> bool" where
  "cache_only m \<longleftrightarrow> (\<forall>w x w'. run_state m w = (x, w') \<longrightarrow>
     db w' = db w \<and> tx w' = tx w \<and> outbox w' = outbox w \<and> tick w \<le> tick w')"

lemma cache_onlyD:
  "cache_only m \<Longrightarrow> run_state m w = (x, w') \<Longrightarrow> db w' = db w \<and> tx w' = tx w \<and> outbox w' = outbox w \<and> tick w \<le> tick w'"
  by (simp add: cache_only_def)

lemma cache_only_return [keeps_intros]: "cache_only (State_Monad.return x)"
  by (simp add: cache_only_def)

lemma cache_only_bind [keeps_intros]:
  assumes "cache_only m" and "\<And>x. cache_only (f x)"
  shows "cache_only (m \<bind> f)"
  unfolding cache_only_def
proof (intro allI impI)
  fix w x w'
  assume run: "run_state (m \<bind> f) w = (x, w')"
  obtain y v where y: "run_state m w = (y, v)" by fastforce
  with run have "run_state (f y) v = (x, w')" by simp
  from cache_onlyD [OF assms(2) this] cache_onlyD [OF assms(1) y]
  show "db w' = db w \<and> tx w' = tx w \<and> outbox w' = outbox w \<and> tick w \<le> tick w'" by simp
qed

lemma cache_only_cases [keeps_intros]:
  "cache_only m \<Longrightarrow> cache_only m' \<Longrightarrow> cache_only (if b then m else m')"
  "(\<And>e. cache_only (f e)) \<Longrightarrow> (\<And>x. cache_only (g x)) \<Longrightarrow> cache_only (case r of Inl e \<Rightarrow> f e | Inr x \<Rightarrow> g x)"
  "(\<And>a b. cache_only (h a b)) \<Longrightarrow> cache_only (case p of (a, b) \<Rightarrow> h a b)"
  by (simp_all split: sum.splits prod.splits)

lemma cache_only_Do [keeps_intros]: "cache_only (client_Do rds f g)"
  by (auto simp: cache_only_def client_Do_def Let_def split: fault.splits)

lemma cache_only_scan_loop [keeps_intros]: "cache_only (scan_loop rds pat n c)"
  by (induction n arbitrary: c) (auto intro!: keeps_intros simp: client_Del_def client_Scan_def)

lemma cache_only_cache:
  "cache_only (cache_Get rds key)" "cache_only (cache_Set rds key b ttl)" "cache_only (cache_Invalidate rds pat)"
proof -
  have "cache_only State_Monad.get" by (simp add: cache_only_def)
  then show "cache_only (cache_Get rds key)" "cache_only (cache_Set rds key b ttl)" "cache_only (cache_Invalidate rds pat)"
    unfolding cache_Get_def client_Get_def cache_Set_def client_Set_def cache_Invalidate_def client_Del_def
    by (intro keeps_intros; simp)+
qed

section \<open>One iteration of the loop\<close>

abbreviation scan_here :: "redis_server \<Rightarrow> string \<Rightarrow> 64 word \<Rightarrow> world \<Rightarrow> string list \<times> 64 word" where
  "scan_here rds pat c w \<equiv> rds_scan rds (tick w) c pat 100 (map fst (live_entries rds w))"

text \<open>
  From \<open>w\<close> to \<open>w'\<close> entries disappear, apart from expired ones only those of the given keys.
\<close>

definition removed :: "redis_server \<Rightarrow> string set \<Rightarrow> world \<Rightarrow> world \<Rightarrow> bool" where
  "removed rds K w w' \<longleftrightarrow> tick w \<le> tick w' \<and> set (redis w') \<subseteq> set (redis w) \<and>
     (\<forall>e \<in> set (redis w). live rds (tick w') e \<longrightarrow> fst e \<in> K \<or> e \<in> set (redis w'))"

lemma live_mono: "mono (rds_now rds) \<Longrightarrow> i \<le> j \<Longrightarrow> live rds j e \<Longrightarrow> live rds i e"
  unfolding live_def mono_def by (auto split: option.splits intro: order.strict_trans1)

lemma removed_refl: "removed rds K w w"
  by (auto simp: removed_def)

lemma removed_trans:
  assumes m: "mono (rds_now rds)" and "removed rds K u v" and "removed rds L v w" and "K \<subseteq> M" and "L \<subseteq> M"
  shows "removed rds M u w"
  using assms(2-) live_mono [OF m] unfolding removed_def by (meson order_trans subset_iff)

lemma removed_mono: "removed rds K u v \<Longrightarrow> K \<subseteq> M \<Longrightarrow> removed rds M u v"
  unfolding removed_def by blast

lemma scan_loop_cases:
  assumes m: "mono (rds_now rds)" and "run_state (scan_loop rds pat (Suc n) c) w = (r, w')"
  obtains (failed) p e where "r = Inl (errorf p e)" "removed rds (set (fst (scan_here rds pat c w))) w w'"
  | (finished) keys where "scan_here rds pat c w = (keys, 0)" "r = Inr ()" "removed rds (set keys) w w'"
      "set (redis w') \<subseteq> {e \<in> set (live_entries rds w). fst e \<notin> set keys}"
  | (continued) keys c' v where "scan_here rds pat c w = (keys, c')" "c' \<noteq> 0" "removed rds (set keys) w v"
      "set (redis v) \<subseteq> {e \<in> set (live_entries rds w). fst e \<notin> set keys}" "length (redis v) \<le> length (redis w)"
      "run_state (scan_loop rds pat n c') v = (r, w')"
proof (cases "rds_fault rds (tick w)")
  case NoFault
  obtain keys c' where sc: "scan_here rds pat c w = (keys, c')" by fastforce
  let ?w = "(advance w)\<lparr>redis := live_entries rds w\<rparr>"
  define del where "del = (if length keys > 0 then client_Del rds keys else State_Monad.return (Inr ()))"
  obtain x v where x: "run_state del ?w = (x, v)" by fastforce
  from assms NoFault sc x have rest: "(case x of
      Inl e \<Rightarrow> (Inl (errorf ''redis: del keys: '' e), v)
    | Inr _ \<Rightarrow> if c' = 0 then (Inr (), v) else run_state (scan_loop rds pat n c') v) = (r, w')"
    by (auto simp: client_Scan_def client_Do_def Let_def del_def split: sum.splits if_splits)
  have len: "length (filter P (filter Q xs)) \<le> length xs" for P Q xs
    by (metis length_filter_le order_trans)
  have live: "live rds (Suc (tick w)) e \<Longrightarrow> live rds (tick w) e" "live rds (Suc (Suc (tick w))) e \<Longrightarrow> live rds (tick w) e"
    "live rds (Suc (Suc (tick w))) e \<Longrightarrow> live rds (Suc (tick w)) e" for e
    by (erule live_mono [OF m, rotated], simp)+
  have v: "removed rds (set keys) w v" "length (redis v) \<le> length (redis w)"
    using x by (auto simp: del_def client_Del_def client_Do_def Let_def removed_def live_entries_def len
        dest: live split: if_splits fault.splits)
  have gone: "x = Inr u \<Longrightarrow> set (redis v) \<subseteq> {e \<in> set (live_entries rds w). fst e \<notin> set keys}" for u
    using x by (auto simp: del_def client_Del_def client_Do_def Let_def live_entries_def split: if_splits fault.splits)
  show thesis
  proof (cases x)
    case (Inl e)
    with rest v sc show thesis by (intro that(1)) auto
  next
    case (Inr u)
    with rest v gone sc that(2,3) show thesis by (cases "c' = 0") auto
  qed
next
  case (LostBefore m)
  with assms(2) that(1) show thesis by (auto simp: client_Scan_def client_Do_def removed_def)
next
  case (LostAfter l)
  have "live rds (Suc (tick w)) e \<Longrightarrow> live rds (tick w) e" for e
    by (erule live_mono [OF m, rotated]) simp
  with LostAfter assms(2) have "removed rds (set (fst (scan_here rds pat c w))) w w'"
    and "r = Inl (errorf (''redis: scan '' @ Quote pat @ '': '') (DriverErr l))"
    by (auto simp: client_Scan_def client_Do_def Let_def removed_def live_entries_def)
  with that(1) show thesis by blast
qed

section \<open>The whole loop\<close>

text \<open>The loop only removes entries, and only expired ones or ones of matching keys.\<close>

lemma scan_loop_removes:
  assumes laws: "mono (rds_now rds)" "scan_sound rds" and "run_state (scan_loop rds pat n c) w = (r, w')"
  shows "removed rds {x. rds_match rds pat x} w w'"
  using assms(3)
proof (induction n arbitrary: c w)
  case 0
  then show ?case by (auto simp: removed_refl)
next
  case (Suc n)
  have keys: "set (fst (scan_here rds pat c w)) \<subseteq> {x. rds_match rds pat x}"
    using laws(2) unfolding scan_sound_def by blast
  from laws(1) Suc.prems show ?case
  proof (cases rule: scan_loop_cases)
    case (failed p e)
    with keys show ?thesis by (blast intro: removed_mono)
  next
    case (finished ks)
    with keys show ?thesis by (auto intro: removed_mono)
  next
    case (continued ks c' v)
    then have "set ks \<subseteq> {x. rds_match rds pat x}" using keys by simp
    with continued(3) Suc.IH [OF continued(6)] show ?thesis by (rule removed_trans [OF laws(1)]) simp
  qed
qed

text \<open>When the loop succeeds, the answers it got were a complete iteration, all deleted.\<close>

lemma scan_loop_walk:
  assumes laws: "mono (rds_now rds)" "scan_sound rds" and "run_state (scan_loop rds pat n c) w = (Inr (), w')"
  shows "\<exists>xs. (\<exists>y \<in> set (scan_walk rds pat c xs). snd y = 0) \<and>
    (\<forall>s \<in> set xs. fst ` set (redis w') \<subseteq> set (snd s)) \<and>
    (\<forall>y \<in> set (scan_walk rds pat c xs). fst ` set (redis w') \<inter> set (fst y) = {})"
  using assms(3)
proof (induction n arbitrary: c w)
  case 0
  then show ?case by simp
next
  case (Suc n)
  let ?here = "(tick w, map fst (live_entries rds w))"
  from laws(1) Suc.prems show ?case
  proof (cases rule: scan_loop_cases)
    case (finished keys)
    then show ?thesis by (intro exI [of _ "[?here]"]) auto
  next
    case (continued keys c' v)
    from Suc.IH [OF continued(6)] obtain xs where xs: "\<exists>y \<in> set (scan_walk rds pat c' xs). snd y = 0"
      "\<forall>s \<in> set xs. fst ` set (redis w') \<subseteq> set (snd s)"
      "\<forall>y \<in> set (scan_walk rds pat c' xs). fst ` set (redis w') \<inter> set (fst y) = {}" by blast
    have "set (redis w') \<subseteq> {e \<in> set (live_entries rds w). fst e \<notin> set keys}"
      using scan_loop_removes [OF laws continued(6)] continued(4) by (auto simp: removed_def)
    then have "fst ` set (redis w') \<subseteq> set (map fst (live_entries rds w))" "fst ` set (redis w') \<inter> set keys = {}" by auto
    with xs continued(1,2) show ?thesis by (intro exI [of _ "?here # xs"]) simp
  qed simp
qed

text \<open>The bound on the iterations is never reached.\<close>

lemma scan_loop_fuel:
  assumes m: "mono (rds_now rds)" and "run_state (scan_loop rds pat n c) w = (Inl out_of_fuel, w')"
    and "length (redis w) \<le> M"
  shows "\<exists>xs. length xs = n \<and> (\<forall>s \<in> set xs. length (snd s) \<le> M) \<and> (\<forall>y \<in> set (scan_walk rds pat c xs). snd y \<noteq> 0)"
  using assms(2,3)
proof (induction n arbitrary: c w)
  case 0
  then show ?case by simp
next
  case (Suc n)
  from m Suc.prems(1) show ?case
  proof (cases rule: scan_loop_cases)
    case (failed p e)
    then show ?thesis by (simp add: out_of_fuel_def errorf_def)
  next
    case (continued keys c' v)
    with Suc.prems(2) have "length (redis v) \<le> M" by simp
    from Suc.IH [OF continued(6) this] obtain xs where "length xs = n" "\<forall>s \<in> set xs. length (snd s) \<le> M"
      "\<forall>y \<in> set (scan_walk rds pat c' xs). snd y \<noteq> 0" by blast
    moreover have "length (map fst (live_entries rds w)) \<le> M"
      using Suc.prems(2) by (simp add: live_entries_def le_trans [OF length_filter_le])
    ultimately show ?thesis using continued
      by (intro exI [of _ "(tick w, map fst (live_entries rds w)) # xs"]) auto
  qed simp
qed

lemma scan_loop_enough:
  assumes "redis_laws rds"
  shows "fst (run_state (scan_loop rds pat (rds_calls rds (length (redis w))) 0) w) \<noteq> Inl out_of_fuel"
proof
  assume "fst (run_state (scan_loop rds pat (rds_calls rds (length (redis w))) 0) w) = Inl out_of_fuel"
  then obtain w' where "run_state (scan_loop rds pat (rds_calls rds (length (redis w))) 0) w = (Inl out_of_fuel, w')"
    by (metis prod.collapse)
  from scan_loop_fuel [OF _ this order_refl] assms show False unfolding redis_laws_def scan_ends_def by meson
qed

section \<open>The operations\<close>

lemma Invalidate_removes:
  assumes "redis_laws rds" and "HasSuffix pat ''*''" and "run_state (cache_Invalidate rds pat) w = (r, w')"
  shows "removed rds {x. rds_match rds pat x} w w'"
  using assms scan_loop_removes by (simp add: cache_Invalidate_def redis_laws_def)

lemma Invalidate_Inr:
  assumes "redis_laws rds" and "HasSuffix pat ''*''" and "run_state (cache_Invalidate rds pat) w = (Inr (), w')"
    and "e \<in> set (redis w')"
  shows "\<not> rds_match rds pat (fst e)"
proof
  assume match: "rds_match rds pat (fst e)"
  from assms(2,3) have "run_state (scan_loop rds pat (rds_calls rds (length (redis w))) 0) w = (Inr (), w')"
    by (simp add: cache_Invalidate_def)
  then obtain xs where xs: "\<exists>y \<in> set (scan_walk rds pat 0 xs). snd y = 0"
    "\<forall>s \<in> set xs. fst ` set (redis w') \<subseteq> set (snd s)"
    "\<forall>y \<in> set (scan_walk rds pat 0 xs). fst ` set (redis w') \<inter> set (fst y) = {}"
    using scan_loop_walk assms(1) unfolding redis_laws_def by blast
  have "\<forall>s \<in> set (take (length (scan_walk rds pat 0 xs)) xs). fst e \<in> set (snd s)"
    using xs(2) assms(4) by (auto dest: in_set_takeD)
  with xs(1) match assms(1) obtain y where "y \<in> set (scan_walk rds pat 0 xs)" "fst e \<in> set (fst y)"
    unfolding redis_laws_def scan_complete_def by blast
  with xs(3) assms(4) show False by blast
qed

lemma Invalidate_terminates:
  assumes "redis_laws rds"
  shows "fst (run_state (cache_Invalidate rds pat) w) \<noteq> Inl out_of_fuel"
  using scan_loop_enough [OF assms]
  by (auto simp: cache_Invalidate_def out_of_fuel_def errorf_def on_err_def split: sum.splits prod.splits)

lemma Get_stored: "run_state (cache_Get rds key) w = (r, w') \<Longrightarrow> set (redis w') \<subseteq> set (redis w)"
  by (auto simp: cache_Get_def client_Get_def client_Do_def Let_def live_entries_def split: fault.splits)

lemma Get_Inr:
  assumes "run_state (cache_Get rds key) w = (Inr b, w')"
  shows "\<exists>x. (key, b, x) \<in> set (redis w)"
proof -
  from assms obtain v where "map_of (live_entries rds w) key = Some v" and "b = fst v"
    by (auto simp: cache_Get_def client_Get_def client_Do_def Let_def split: fault.splits option.splits if_splits)
  then have "(key, v) \<in> set (live_entries rds w)" by (blast dest: map_of_SomeD)
  with \<open>b = fst v\<close> show ?thesis by (cases v) (auto simp: live_entries_def)
qed

lemma Set_stored:
  "run_state (cache_Set rds key b ttl) w = (r, w') \<Longrightarrow> \<exists>x. set (redis w') \<subseteq> insert (key, b, x) (set (redis w))"
  by (auto simp: cache_Set_def client_Set_def client_Do_def Let_def live_entries_def split: fault.splits)

lemma Invalidate_stored:
  assumes "redis_laws rds" and "run_state (cache_Invalidate rds pat) w = (r, w')"
  shows "set (redis w') \<subseteq> set (redis w)"
proof (cases "HasSuffix pat ''*''")
  case True
  with Invalidate_removes [OF assms(1) True assms(2)] show ?thesis by (simp add: removed_def)
next
  case False
  with assms(2) show ?thesis
    by (auto simp: cache_Invalidate_def client_Del_def client_Do_def Let_def live_entries_def split: fault.splits)
qed

section \<open>The contract of the cache\<close>

definition cache_entries :: "(string \<times> bytes \<times> time option) list \<times> email list \<Rightarrow> (string \<times> bytes) set" where
  "cache_entries r = (\<lambda>e. (fst e, fst (snd e))) ` set (fst r)"

interpretation redis_cache: cache_store "base_inv (P \<and> redis_laws rds) srv" db outside
    "cache_Get rds" "cache_Set rds" "cache_Invalidate rds" cache_entries
  for P rds srv
proof (unfold_locales, goal_cases)
  case (1 w k b w')
  then show ?case using cache_onlyD [OF cache_only_cache(1) 1(2)] base_inv_frame by blast
next
  case (2 w k v ttl u w')
  then show ?case using cache_onlyD [OF cache_only_cache(2) 2(2)] base_inv_frame by blast
next
  case (3 w p u w')
  then show ?case using cache_onlyD [OF cache_only_cache(3) 3(2)] base_inv_frame by blast
next
  case (4 k w b w')
  from Get_stored [OF 4] show ?case by (auto simp: cache_entries_def outside_def)
next
  case (5 k w v w')
  from Get_Inr [OF 5] show ?case by (force simp: cache_entries_def outside_def)
next
  case (6 k v ttl w u w')
  from Set_stored [OF 6] show ?case by (auto simp: cache_entries_def outside_def)
next
  case (7 w p u w')
  then have "set (redis w') \<subseteq> set (redis w)" using Invalidate_stored unfolding base_inv_def by blast
  then show ?case by (auto simp: cache_entries_def outside_def)
next
  case (8 w p w' k v)
  then have laws: "redis_laws rds" by (simp add: base_inv_def)
  from 8(4) obtain x where "(k, v, x) \<in> set (redis w')" by (auto simp: cache_entries_def outside_def)
  with Invalidate_Inr [OF laws _ 8(2)] have "\<not> rds_match rds (p @ ''*'') k" by fastforce
  with 8(3) laws show ?case by (simp add: redis_laws_def glob_prefix_def)
qed

section \<open>A plain Redis server\<close>

text \<open>It loses no call, matches by equality or prefix, and scans everything in one call.\<close>

definition plain_match :: "string \<Rightarrow> string \<Rightarrow> bool" where
  "plain_match p x = (if HasSuffix p ''*'' then HasPrefix x (butlast p) else p = x)"

definition plain_redis :: redis_server where
  "plain_redis =
     \<lparr>rds_fault = (\<lambda>_. NoFault), rds_now = int, rds_expiry = (\<lambda>k ttl. if 0 < ttl then Some (int k + ttl) else None),
      rds_match = plain_match, rds_scan = (\<lambda>k c p n K. (filter (plain_match p) K, 0)), rds_calls = (\<lambda>_. 1)\<rparr>"

lemma redis_laws_plain: "redis_laws plain_redis"
proof -
  have walk: "scan_walk plain_redis pat 0 ((k, K) # xs) = [(filter (plain_match pat) K, 0)]" for pat k K xs
    by (simp add: plain_redis_def Let_def)
  have "scan_complete plain_redis"
    unfolding scan_complete_def
  proof (intro allI impI)
    fix pat xs x
    assume "\<exists>y \<in> set (scan_walk plain_redis pat 0 xs). snd y = 0"
      and all: "\<forall>s \<in> set (take (length (scan_walk plain_redis pat 0 xs)) xs). x \<in> set (snd s)"
      and m: "rds_match plain_redis pat x"
    then obtain k K ys where xs: "xs = (k, K) # ys" by (cases xs) auto
    with all m walk show "\<exists>y \<in> set (scan_walk plain_redis pat 0 xs). x \<in> set (fst y)"
      by (simp add: plain_redis_def)
  qed
  moreover have "scan_ends plain_redis"
    unfolding scan_ends_def
  proof (intro allI impI)
    fix pat M and xs :: "(nat \<times> string list) list"
    assume "length xs = rds_calls plain_redis M"
    then obtain k K where "xs = [(k, K)]" by (auto simp: plain_redis_def length_Suc_conv)
    with walk show "\<exists>y \<in> set (scan_walk plain_redis pat 0 xs). snd y = 0" by simp
  qed
  moreover have "mono (rds_now plain_redis)" by (simp add: plain_redis_def mono_def)
  moreover have "scan_sound plain_redis" by (simp add: scan_sound_def plain_redis_def)
  moreover have "glob_prefix plain_redis" by (simp add: glob_prefix_def plain_redis_def plain_match_def)
  ultimately show ?thesis by (simp add: redis_laws_def)
qed

end
