(* ===== verification/Runtime.thy ===== *)
theory Runtime
  imports Redis_Cache
begin

text \<open>
  The other libraries and services the program calls.  \<open>time.Now\<close>, \<open>uuid.NewV7\<close>, the JSON
  codec of the cached lists, bcrypt, the JWT library and the e-mail service are fields of one
  parameter; what the program relies on of them are the predicates below.
\<close>

datatype signing_method = SigningMethodHMAC | OtherMethod string

record runtime =
  rt_Now :: "nat \<Rightarrow> time"
  rt_NewV7 :: "nat \<Rightarrow> err + uuid"
  rt_String :: "uuid \<Rightarrow> string"
  rt_Parse :: "string \<Rightarrow> err + uuid"
  rt_Coerce :: "string \<Rightarrow> string"
  rt_Marshal :: "Task list \<times> nat \<Rightarrow> err + bytes"
  rt_Unmarshal :: "bytes \<Rightarrow> err + Task list \<times> nat"
  rt_Hash :: "nat \<Rightarrow> string \<Rightarrow> err + string"
  rt_Compare :: "string \<Rightarrow> string \<Rightarrow> bool"
  rt_Sign :: "string \<Rightarrow> string \<times> int \<Rightarrow> err + string"
  rt_ParseJWT :: "(signing_method \<Rightarrow> err + string) \<Rightarrow> time \<Rightarrow> string \<Rightarrow> err + bool \<times> (err + string)"
  rt_Breaker :: "nat \<Rightarrow> err option"
  rt_Request :: "string \<Rightarrow> err option"
  rt_Do :: "nat \<Rightarrow> bool \<times> (err + nat)"

definition time_Now :: "runtime \<Rightarrow> (world, time) state" where
  "time_Now rt = State (\<lambda>w. (rt_Now rt (tick w), advance w))"

definition uuid_NewV7 :: "runtime \<Rightarrow> (world, uuid) op" where
  "uuid_NewV7 rt = State (\<lambda>w. (rt_NewV7 rt (tick w), advance w))"

definition bcrypt_Generate :: "runtime \<Rightarrow> string \<Rightarrow> (world, string) op" where
  "bcrypt_Generate rt pw = State (\<lambda>w. (rt_Hash rt (tick w) pw, advance w))"

text \<open>
  Decoding what was encoded gives the list back; \<open>encoding/json\<close> replaces bytes of a string
  that are no UTF-8 (\<open>rt_Coerce\<close>).  Errors of the libraries wrap no sentinel of the program.
\<close>

definition coerce_task :: "(string \<Rightarrow> string) \<Rightarrow> Task \<Rightarrow> Task" where
  "coerce_task f t =
     t\<lparr>task_Title := f (task_Title t), task_Description := map_option f (task_Description t),
       task_Status := f (task_Status t), task_Priority := f (task_Priority t)\<rparr>"

definition json_laws :: "runtime \<Rightarrow> bool" where
  "json_laws rt \<longleftrightarrow> (\<forall>ts n b. rt_Marshal rt (ts, n) = Inr b \<longrightarrow>
     rt_Unmarshal rt b = Inr (map (coerce_task (rt_Coerce rt)) ts, n))"

definition newv7_laws :: "runtime \<Rightarrow> bool" where
  "newv7_laws rt \<longleftrightarrow> (\<forall>k e s. rt_NewV7 rt k = Inl e \<longrightarrow> \<not> errors_Is e s)"

text \<open>
  bcrypt: a hash is 60 bytes long and compares equal to its password; a token signed with HMAC
  under a key parses, with that key, before its expiry, to its subject; parsing the text of an
  identifier gives the identifier back.
\<close>

definition bcrypt_laws :: "runtime \<Rightarrow> bool" where
  "bcrypt_laws rt \<longleftrightarrow>
     (\<forall>k pw h. rt_Hash rt k pw = Inr h \<longrightarrow> rt_Compare rt h pw \<and> length h = 60) \<and>
     (\<forall>k pw e s. rt_Hash rt k pw = Inl e \<longrightarrow> \<not> errors_Is e s)"

definition jwt_laws :: "runtime \<Rightarrow> bool" where
  "jwt_laws rt \<longleftrightarrow>
     (\<forall>key sub ex token keyfunc now. rt_Sign rt key (sub, ex) = Inr token \<longrightarrow> keyfunc SigningMethodHMAC = Inr key \<longrightarrow>
        now < ex * 1000000000 \<longrightarrow> rt_ParseJWT rt keyfunc now token = Inr (True, Inr sub)) \<and>
     (\<forall>key claims e s. rt_Sign rt key claims = Inl e \<longrightarrow> \<not> errors_Is e s)"

definition uuid_laws :: "runtime \<Rightarrow> bool" where
  "uuid_laws rt \<longleftrightarrow> uuid_text (rt_String rt) \<and> (\<forall>u. rt_Parse rt (rt_String rt u) = Inr u)"

definition runtime_laws :: "runtime \<Rightarrow> bool" where
  "runtime_laws rt \<longleftrightarrow> json_laws rt \<and> newv7_laws rt \<and> bcrypt_laws rt \<and> jwt_laws rt \<and> uuid_laws rt"

lemma reads_runtime [keeps_intros]:
  "reads (time_Now rt)" "reads (uuid_NewV7 rt)" "reads (bcrypt_Generate rt pw)"
  by (simp_all add: reads_def time_Now_def uuid_NewV7_def bcrypt_Generate_def)

lemma NewV7_Inl: "runtime_laws rt \<Longrightarrow> run_state (uuid_NewV7 rt) w = (Inl e, w') \<Longrightarrow> \<not> errors_Is e g"
  unfolding runtime_laws_def newv7_laws_def uuid_NewV7_def by simp blast

lemma Generate_Inl: "runtime_laws rt \<Longrightarrow> run_state (bcrypt_Generate rt pw) w = (Inl e, w') \<Longrightarrow> \<not> errors_Is e g"
  unfolding runtime_laws_def bcrypt_laws_def bcrypt_Generate_def by simp blast

lemma Generate_Inr:
  "runtime_laws rt \<Longrightarrow> run_state (bcrypt_Generate rt pw) w = (Inr h, w') \<Longrightarrow> rt_Compare rt h pw \<and> length h = 60"
  unfolding runtime_laws_def bcrypt_laws_def bcrypt_Generate_def by simp blast

lemma Sign_Inl: "runtime_laws rt \<Longrightarrow> rt_Sign rt key claims = Inl e \<Longrightarrow> \<not> errors_Is e g"
  unfolding runtime_laws_def jwt_laws_def by blast

lemma Unmarshal_Marshal:
  "runtime_laws rt \<Longrightarrow> rt_Marshal rt (ts, n) = Inr b \<Longrightarrow> rt_Unmarshal rt b = Inr (map (coerce_task (rt_Coerce rt)) ts, n)"
  unfolding runtime_laws_def json_laws_def by blast

end
