(* ===== verification/Task_Service.thy ===== *)
theory Task_Service
  imports Runtime
begin

text \<open>
  \<open>internal/service/task/task.go\<close>: the task service.  The record holds the fields of the Go
  struct \<open>Service\<close>, each interface as its methods, and the library functions the methods call.
  The operations are polymorphic in the state, so that what they guarantee is proved from the
  contracts of the interfaces alone.
\<close>

section \<open>The service and its helpers\<close>

record 'w task_service =
  tsv_SaveTask :: "Task \<Rightarrow> ('w, unit) op"
  tsv_GetTaskByID :: "uuid \<Rightarrow> ('w, Task) op"
  tsv_ListTasks :: "TaskFilter \<Rightarrow> ('w, Task list \<times> nat) op"
  tsv_UpdateTaskWithHistory :: "Task \<Rightarrow> TaskHistory list \<Rightarrow> ('w, unit) op"
  tsv_ListHistory :: "uuid \<Rightarrow> ('w, TaskHistory list) op"
  tsv_GetMemberRole :: "uuid \<Rightarrow> uuid \<Rightarrow> ('w, Role) op"
  tsv_Get :: "string \<Rightarrow> ('w, bytes) op"
  tsv_Set :: "string \<Rightarrow> bytes \<Rightarrow> time \<Rightarrow> ('w, unit) op"
  tsv_Invalidate :: "string \<Rightarrow> ('w, unit) op"
  tsv_ttl :: time
  tsv_NewV7 :: "('w, uuid) op"
  tsv_Now :: "('w, time) state"
  tsv_String :: "uuid \<Rightarrow> string"
  tsv_Marshal :: "Task list \<times> nat \<Rightarrow> err + bytes"
  tsv_Unmarshal :: "bytes \<Rightarrow> err + Task list \<times> nat"

text \<open>
  \<open>New\<close>: an interface is the tuple of its methods; the last argument holds the functions of the
  libraries the service calls.
\<close>

fun task_New where
  "task_New taskSaver (getTaskByID, listTasks) taskUpdater history members (get, put, invalidate) ttl
     (newV7, now, str, marshal, unmarshal) =
     \<lparr>tsv_SaveTask = taskSaver, tsv_GetTaskByID = getTaskByID, tsv_ListTasks = listTasks,
      tsv_UpdateTaskWithHistory = taskUpdater, tsv_ListHistory = history, tsv_GetMemberRole = members,
      tsv_Get = get, tsv_Set = put, tsv_Invalidate = invalidate, tsv_ttl = ttl, tsv_NewV7 = newV7,
      tsv_Now = now, tsv_String = str, tsv_Marshal = marshal, tsv_Unmarshal = unmarshal\<rparr>"

definition cacheKeyAll :: string where
  "cacheKeyAll = ''all''"

definition cacheKey :: "(uuid \<Rightarrow> string) \<Rightarrow> TaskFilter \<Rightarrow> string" where
  "cacheKey str f =
     (let teamID = (case tf_TeamID f of None \<Rightarrow> cacheKeyAll | Some t \<Rightarrow> str t);
          status = (case tf_Status f of None \<Rightarrow> cacheKeyAll | Some s \<Rightarrow> s);
          assignee = (case tf_AssigneeID f of None \<Rightarrow> cacheKeyAll | Some a \<Rightarrow> str a)
      in ''tasks:'' @ teamID @ '':'' @ status @ '':'' @ assignee @ '':p'' @ fmt_d (sint (tf_Page f)) @
         '':l'' @ fmt_d (sint (tf_Limit f)))"

definition cachePattern :: "(uuid \<Rightarrow> string) \<Rightarrow> uuid \<Rightarrow> string" where
  "cachePattern str teamID = ''tasks:'' @ str teamID @ '':*''"

definition strPtrEqual :: "string option \<Rightarrow> string option \<Rightarrow> bool" where
  "strPtrEqual a b = (case (a, b) of (Some x, Some y) \<Rightarrow> x = y | _ \<Rightarrow> a = None \<and> b = None)"

definition uuidPtrEqual :: "uuid option \<Rightarrow> uuid option \<Rightarrow> bool" where
  "uuidPtrEqual a b = (case (a, b) of (Some x, Some y) \<Rightarrow> x = y | _ \<Rightarrow> a = None \<and> b = None)"

definition timePtrEqual :: "time option \<Rightarrow> time option \<Rightarrow> bool" where
  "timePtrEqual a b = (case (a, b) of (Some x, Some y) \<Rightarrow> x = y | _ \<Rightarrow> a = None \<and> b = None)"

definition formatDate :: "time option \<Rightarrow> string" where
  "formatDate t = (case t of None \<Rightarrow> '''' | Some x \<Rightarrow> Format_date x)"

text \<open>
  \<open>buildHistoryEntries\<close> changes the task it is given and returns the entries; the model works
  on the pair of both.  Each of its six \<open>if\<close> statements is one function on that pair.
\<close>

definition new_entry :: "uuid \<Rightarrow> uuid \<Rightarrow> string \<Rightarrow> string option \<Rightarrow> string option \<Rightarrow> TaskHistory" where
  "new_entry taskID callerID field old nw =
     \<lparr>th_ID = 0, th_TaskID = taskID, th_ChangedBy = callerID, th_Field = field, th_OldValue = old,
      th_NewValue = nw, th_ChangedAt = zero_time\<rparr>"

type_synonym entry_maker = "string \<Rightarrow> string option \<Rightarrow> string option \<Rightarrow> TaskHistory"

fun title_change :: "entry_maker \<Rightarrow> UpdateTaskInput \<Rightarrow> Task \<times> TaskHistory list \<Rightarrow> Task \<times> TaskHistory list" where
  "title_change entry input (task, es) =
     (case uti_Title input of
        None \<Rightarrow> (task, es)
      | Some x \<Rightarrow> if x \<noteq> task_Title task
          then (task\<lparr>task_Title := x\<rparr>, es @ [entry ''title'' (Some (task_Title task)) (Some x)])
          else (task, es))"

fun description_change :: "entry_maker \<Rightarrow> UpdateTaskInput \<Rightarrow> Task \<times> TaskHistory list \<Rightarrow> Task \<times> TaskHistory list" where
  "description_change entry input (task, es) =
     (if uti_Description input \<noteq> None \<and> \<not> strPtrEqual (task_Description task) (uti_Description input)
      then (task\<lparr>task_Description := uti_Description input\<rparr>,
            es @ [entry ''description'' (task_Description task) (uti_Description input)])
      else (task, es))"

fun status_change :: "entry_maker \<Rightarrow> UpdateTaskInput \<Rightarrow> Task \<times> TaskHistory list \<Rightarrow> Task \<times> TaskHistory list" where
  "status_change entry input (task, es) =
     (case uti_Status input of
        None \<Rightarrow> (task, es)
      | Some x \<Rightarrow> if x \<noteq> task_Status task
          then (task\<lparr>task_Status := x\<rparr>, es @ [entry ''status'' (Some (task_Status task)) (Some x)])
          else (task, es))"

fun priority_change :: "entry_maker \<Rightarrow> UpdateTaskInput \<Rightarrow> Task \<times> TaskHistory list \<Rightarrow> Task \<times> TaskHistory list" where
  "priority_change entry input (task, es) =
     (case uti_Priority input of
        None \<Rightarrow> (task, es)
      | Some x \<Rightarrow> if x \<noteq> task_Priority task
          then (task\<lparr>task_Priority := x\<rparr>, es @ [entry ''priority'' (Some (task_Priority task)) (Some x)])
          else (task, es))"

fun assignee_change ::
  "(uuid \<Rightarrow> string) \<Rightarrow> entry_maker \<Rightarrow> UpdateTaskInput \<Rightarrow> Task \<times> TaskHistory list \<Rightarrow> Task \<times> TaskHistory list" where
  "assignee_change str entry input (task, es) =
     (case uti_AssigneeID input of
        None \<Rightarrow> (task, es)
      | Some x \<Rightarrow> if \<not> uuidPtrEqual (task_AssigneeID task) (uti_AssigneeID input)
          then (let old = (case task_AssigneeID task of None \<Rightarrow> '''' | Some a \<Rightarrow> str a); nw = str x
                in (task\<lparr>task_AssigneeID := uti_AssigneeID input\<rparr>, es @ [entry ''assignee_id'' (Some old) (Some nw)]))
          else (task, es))"

fun due_change :: "entry_maker \<Rightarrow> UpdateTaskInput \<Rightarrow> Task \<times> TaskHistory list \<Rightarrow> Task \<times> TaskHistory list" where
  "due_change entry input (task, es) =
     (if uti_DueDate input \<noteq> None \<and> \<not> timePtrEqual (task_DueDate task) (uti_DueDate input)
      then (let old = formatDate (task_DueDate task); nw = formatDate (uti_DueDate input)
            in (task\<lparr>task_DueDate := uti_DueDate input\<rparr>, es @ [entry ''due_date'' (Some old) (Some nw)]))
      else (task, es))"

definition buildHistoryEntries ::
  "(uuid \<Rightarrow> string) \<Rightarrow> Task \<Rightarrow> UpdateTaskInput \<Rightarrow> uuid \<Rightarrow> uuid \<Rightarrow> Task \<times> TaskHistory list" where
  "buildHistoryEntries str task input taskID callerID =
     (let entry = new_entry taskID callerID;
          p = title_change entry input (task, []);
          p = description_change entry input p;
          p = status_change entry input p;
          p = priority_change entry input p;
          p = assignee_change str entry input p
      in due_change entry input p)"

section \<open>The operations\<close>

text \<open>The same for the check of the assignee, with a longer message.\<close>

definition assignee_or :: "string \<Rightarrow> err \<Rightarrow> err" where
  "assignee_or pre e =
     (if errors_Is e ErrNotFound then Wrapped '''' (Sentinel ErrForbidden) '': assignee is not a team member''
      else errorf pre e)"

definition new_task :: "uuid \<Rightarrow> time \<Rightarrow> uuid \<Rightarrow> CreateTaskInput \<Rightarrow> Task" where
  "new_task i now creatorID input =
     \<lparr>task_ID = i, task_TeamID = cti_TeamID input, task_CreatedBy = creatorID,
      task_AssigneeID = cti_AssigneeID input, task_Title = cti_Title input,
      task_Description = cti_Description input, task_Status = StatusTodo,
      task_Priority = (if cti_Priority input \<noteq> '''' then cti_Priority input else PriorityMedium),
      task_DueDate = cti_DueDate input, task_CreatedAt = now, task_UpdatedAt = now\<rparr>"

definition task_Create :: "'w task_service \<Rightarrow> uuid \<Rightarrow> CreateTaskInput \<Rightarrow> ('w, Task) op" where
  "task_Create s creatorID input =
     try_or (forbidden_or ''task.Service.Create: get member role: '')
       (tsv_GetMemberRole s (cti_TeamID input) creatorID) (\<lambda>_.
     try_or (assignee_or ''task.Service.Create: check assignee membership: '')
       (case cti_AssigneeID input of
          None \<Rightarrow> State_Monad.return (Inr '''')
        | Some a \<Rightarrow> tsv_GetMemberRole s (cti_TeamID input) a) (\<lambda>_.
     try_or (errorf ''task.Service.Create: generate task id: '') (tsv_NewV7 s) (\<lambda>i. do {
       now \<leftarrow> tsv_Now s;
       let task = new_task i now creatorID input;
       try_or (errorf ''task.Service.Create: save task: '') (tsv_SaveTask s task) (\<lambda>_. do {
         _ \<leftarrow> tsv_Invalidate s (cachePattern (tsv_String s) (cti_TeamID input));
         State_Monad.return (Inr task) }) })))"

definition normalize :: "TaskFilter \<Rightarrow> TaskFilter" where
  "normalize f =
     (let f = (if sint (tf_Page f) \<le> 0 then f\<lparr>tf_Page := 1\<rparr> else f);
          f = (if sint (tf_Limit f) \<le> 0 then f\<lparr>tf_Limit := 20\<rparr> else f)
      in if sint (tf_Limit f) > 100 then f\<lparr>tf_Limit := 100\<rparr> else f)"

text \<open>The query behind the cache, and the attempt to store its answer.\<close>

definition list_uncached :: "'w task_service \<Rightarrow> TaskFilter \<Rightarrow> string \<Rightarrow> ('w, Task list \<times> nat) op" where
  "list_uncached s flt key =
     try_or (errorf ''task.Service.List: list tasks: '') (tsv_ListTasks s flt) (\<lambda>r. do {
       _ \<leftarrow> (case tsv_Marshal s r of
           Inl _ \<Rightarrow> State_Monad.return (Inr ())
         | Inr data \<Rightarrow> tsv_Set s key data (tsv_ttl s));
       State_Monad.return (Inr r) })"

definition task_List :: "'w task_service \<Rightarrow> uuid \<Rightarrow> TaskFilter \<Rightarrow> ('w, Task list \<times> nat) op" where
  "task_List s callerID flt =
     (case tf_TeamID flt of
        None \<Rightarrow> State_Monad.return (Inl (Sentinel ErrForbidden))
      | Some teamID \<Rightarrow>
          try_or (forbidden_or ''task.Service.List: get member role: '') (tsv_GetMemberRole s teamID callerID) (\<lambda>_.
          let flt = normalize flt; key = cacheKey (tsv_String s) flt in do {
            d \<leftarrow> tsv_Get s key;
            case d of
              Inl _ \<Rightarrow> list_uncached s flt key
            | Inr data \<Rightarrow>
                (case tsv_Unmarshal s data of
                   Inl _ \<Rightarrow> list_uncached s flt key
                 | Inr cached \<Rightarrow> State_Monad.return (Inr cached)) }))"

definition task_Update :: "'w task_service \<Rightarrow> uuid \<Rightarrow> uuid \<Rightarrow> UpdateTaskInput \<Rightarrow> ('w, Task) op" where
  "task_Update s callerID taskID input =
     try_or (errorf ''task.Service.Update: get task: '') (tsv_GetTaskByID s taskID) (\<lambda>task.
     try_or (forbidden_or ''task.Service.Update: get member role: '')
       (tsv_GetMemberRole s (task_TeamID task) callerID) (\<lambda>_.
     try_or (assignee_or ''task.Service.Update: check assignee membership: '')
       (case uti_AssigneeID input of
          None \<Rightarrow> State_Monad.return (Inr '''')
        | Some a \<Rightarrow> if \<not> uuidPtrEqual (task_AssigneeID task) (uti_AssigneeID input)
                    then tsv_GetMemberRole s (task_TeamID task) a else State_Monad.return (Inr '''')) (\<lambda>_.
     case buildHistoryEntries (tsv_String s) task input taskID callerID of (task, entries) \<Rightarrow> do {
       now \<leftarrow> tsv_Now s;
       let task = task\<lparr>task_UpdatedAt := now\<rparr>;
       let entries = map (\<lambda>e. e\<lparr>th_ChangedAt := task_UpdatedAt task\<rparr>) entries;
       try_or (errorf ''task.Service.Update: update task: '') (tsv_UpdateTaskWithHistory s task entries) (\<lambda>_. do {
         _ \<leftarrow> tsv_Invalidate s (cachePattern (tsv_String s) (task_TeamID task));
         State_Monad.return (Inr task) }) })))"

definition task_History :: "'w task_service \<Rightarrow> uuid \<Rightarrow> uuid \<Rightarrow> ('w, TaskHistory list) op" where
  "task_History s callerID taskID =
     try_or (errorf ''task.Service.History: get task: '') (tsv_GetTaskByID s taskID) (\<lambda>task.
     try_or (forbidden_or ''task.Service.History: get member role: '')
       (tsv_GetMemberRole s (task_TeamID task) callerID) (\<lambda>_.
     try_or (errorf ''task.Service.History: list history: '') (tsv_ListHistory s taskID) (\<lambda>hs.
       State_Monad.return (Inr hs))))"

section \<open>Cache keys\<close>

definition key_status :: "TaskFilter \<Rightarrow> string" where
  "key_status f = (case tf_Status f of None \<Rightarrow> ''all'' | Some s \<Rightarrow> s)"

definition key_id :: "(uuid \<Rightarrow> string) \<Rightarrow> uuid option \<Rightarrow> string" where
  "key_id str i = (case i of None \<Rightarrow> ''all'' | Some x \<Rightarrow> str x)"

lemma key_id_no_colon: "uuid_text str \<Longrightarrow> CHR '':'' \<notin> set (key_id str i)"
  by (auto simp: key_id_def uuid_text_no_colon split: option.splits)

lemma key_id_inject:
  assumes "uuid_text str"
  shows "key_id str i = key_id str j \<longleftrightarrow> i = j"
proof -
  have "str u \<noteq> ''all''" for u
  proof
    assume "str u = ''all''"
    then have "length (str u) = 3" by simp
    with assms show False by (simp add: uuid_text_def)
  qed
  then show ?thesis
    by (auto simp: key_id_def uuid_text_inject [OF assms] eq_commute [of "''all''"] split: option.splits)
qed

lemma cacheKey_parts:
  "cacheKey str f = ''tasks:'' @ key_id str (tf_TeamID f) @ CHR '':'' # (key_status f @ CHR '':'' #
     (key_id str (tf_AssigneeID f) @ CHR '':'' # (CHR ''p'' # fmt_d (sint (tf_Page f)) @ CHR '':'' #
       (CHR ''l'' # fmt_d (sint (tf_Limit f))))))"
  by (simp add: cacheKey_def key_id_def key_status_def cacheKeyAll_def Let_def split: option.splits)

lemma cacheKey_inject:
  assumes str: "uuid_text str"
  shows "cacheKey str f = cacheKey str g \<longleftrightarrow>
    tf_TeamID f = tf_TeamID g \<and> key_status f = key_status g \<and> tf_AssigneeID f = tf_AssigneeID g \<and>
    tf_Page f = tf_Page g \<and> tf_Limit f = tf_Limit g"
proof
  let ?tail = "\<lambda>f. CHR ''l'' # fmt_d (sint (tf_Limit f))"
  let ?page = "\<lambda>f. CHR ''p'' # fmt_d (sint (tf_Page f))"
  assume "cacheKey str f = cacheKey str g"
  then have eq: "key_id str (tf_TeamID f) @ CHR '':'' # (key_status f @ CHR '':'' #
      (key_id str (tf_AssigneeID f) @ CHR '':'' # (?page f @ CHR '':'' # ?tail f))) =
    key_id str (tf_TeamID g) @ CHR '':'' # (key_status g @ CHR '':'' #
      (key_id str (tf_AssigneeID g) @ CHR '':'' # (?page g @ CHR '':'' # ?tail g)))"
    by (simp add: cacheKey_parts)
  from split_at_colon [OF eq key_id_no_colon [OF str] key_id_no_colon [OF str]]
  have team: "key_id str (tf_TeamID f) = key_id str (tf_TeamID g)"
    and "(key_status f @ CHR '':'' # (key_id str (tf_AssigneeID f) @ CHR '':'' # ?page f)) @ CHR '':'' # ?tail f =
      (key_status g @ CHR '':'' # (key_id str (tf_AssigneeID g) @ CHR '':'' # ?page g)) @ CHR '':'' # ?tail g"
    by simp_all
  from split_at_last_colon [OF this(2)]
  have limit: "?tail f = ?tail g"
    and "(key_status f @ CHR '':'' # key_id str (tf_AssigneeID f)) @ CHR '':'' # ?page f =
      (key_status g @ CHR '':'' # key_id str (tf_AssigneeID g)) @ CHR '':'' # ?page g"
    by simp_all
  from split_at_last_colon [OF this(2)]
  have page: "?page f = ?page g"
    and "key_status f @ CHR '':'' # key_id str (tf_AssigneeID f) = key_status g @ CHR '':'' # key_id str (tf_AssigneeID g)"
    by simp_all
  from split_at_last_colon [OF this(2) key_id_no_colon [OF str] key_id_no_colon [OF str]]
  have "key_status f = key_status g" "key_id str (tf_AssigneeID f) = key_id str (tf_AssigneeID g)" by simp_all
  with team limit page show "tf_TeamID f = tf_TeamID g \<and> key_status f = key_status g \<and>
    tf_AssigneeID f = tf_AssigneeID g \<and> tf_Page f = tf_Page g \<and> tf_Limit f = tf_Limit g"
    by (simp add: key_id_inject [OF str] signed_word_eqI)
qed (simp add: cacheKey_parts)

definition key_prefix :: "(uuid \<Rightarrow> string) \<Rightarrow> uuid \<Rightarrow> string" where
  "key_prefix str t = ''tasks:'' @ str t @ '':''"

lemma cachePattern_prefix: "cachePattern str t = key_prefix str t @ ''*''"
  by (simp add: cachePattern_def key_prefix_def)

lemma key_prefix_chars:
  assumes "uuid_text str"
  shows "set (key_prefix str t) \<inter> insert (CHR 0x5C) (set ''*?[]^'') = {}"
proof -
  have "set (str t) \<subseteq> set uuid_chars" using assms by (simp add: uuid_text_def)
  then have "set (key_prefix str t) \<subseteq> set uuid_chars \<union> set ''tasks:''" by (auto simp: key_prefix_def)
  moreover have "(set uuid_chars \<union> set ''tasks:'') \<inter> insert (CHR 0x5C) (set ''*?[]^'') = {}"
    by (simp add: uuid_chars_def)
  ultimately show ?thesis by blast
qed

lemma cacheKey_prefix:
  assumes str: "uuid_text str"
  shows "HasPrefix (cacheKey str f) (key_prefix str t) \<longleftrightarrow> tf_TeamID f = Some t"
proof
  assume "HasPrefix (cacheKey str f) (key_prefix str t)"
  then obtain z where "cacheKey str f = key_prefix str t @ z" by (auto simp: HasPrefix_prefix prefix_def)
  then have eq: "key_id str (tf_TeamID f) @ CHR '':'' # (key_status f @ CHR '':'' #
     (key_id str (tf_AssigneeID f) @ CHR '':'' # (CHR ''p'' # fmt_d (sint (tf_Page f)) @ CHR '':'' #
       (CHR ''l'' # fmt_d (sint (tf_Limit f)))))) = key_id str (Some t) @ CHR '':'' # z"
    by (simp add: cacheKey_parts key_prefix_def key_id_def)
  from split_at_colon [OF eq key_id_no_colon [OF str] key_id_no_colon [OF str]]
  show "tf_TeamID f = Some t" by (simp only: key_id_inject [OF str])
next
  assume t: "tf_TeamID f = Some t"
  have "cacheKey str f = key_prefix str t @ (key_status f @ CHR '':'' #
     (key_id str (tf_AssigneeID f) @ CHR '':'' # (CHR ''p'' # fmt_d (sint (tf_Page f)) @ CHR '':'' #
       (CHR ''l'' # fmt_d (sint (tf_Limit f))))))"
    using t by (simp add: cacheKey_parts key_prefix_def key_id_def)
  then show "HasPrefix (cacheKey str f) (key_prefix str t)" by simp
qed

section \<open>Page and limit\<close>

lemma normalize_bounds:
  "1 \<le> sint (tf_Page (normalize f))" "1 \<le> sint (tf_Limit (normalize f))" "sint (tf_Limit (normalize f)) \<le> 100"
  by (auto simp: normalize_def Let_def)

lemma normalize_frame [simp]:
  "tf_TeamID (normalize f) = tf_TeamID f" "tf_Status (normalize f) = tf_Status f"
  "tf_AssigneeID (normalize f) = tf_AssigneeID f"
  by (simp_all add: normalize_def Let_def)

lemma normalize_id: "1 \<le> sint (tf_Page f) \<Longrightarrow> 1 \<le> sint (tf_Limit f) \<Longrightarrow> sint (tf_Limit f) \<le> 100 \<Longrightarrow> normalize f = f"
  by (simp add: normalize_def Let_def)

section \<open>The change history of an update\<close>

text \<open>The update as it is meant: every given field replaces the old one.\<close>

definition apply_update :: "UpdateTaskInput \<Rightarrow> Task \<Rightarrow> Task" where
  "apply_update input t =
     t\<lparr>task_Title := case_option (task_Title t) (\<lambda>x. x) (uti_Title input),
       task_Description := (if uti_Description input = None then task_Description t else uti_Description input),
       task_Status := case_option (task_Status t) (\<lambda>x. x) (uti_Status input),
       task_Priority := case_option (task_Priority t) (\<lambda>x. x) (uti_Priority input),
       task_AssigneeID := (if uti_AssigneeID input = None then task_AssigneeID t else uti_AssigneeID input),
       task_DueDate := (if uti_DueDate input = None then task_DueDate t else uti_DueDate input)\<rparr>"

text \<open>The text of a field in the history, and whether a field differs between two tasks.\<close>

definition field_text :: "(uuid \<Rightarrow> string) \<Rightarrow> Task \<Rightarrow> string \<Rightarrow> string option" where
  "field_text str t field =
     (if field = ''title'' then Some (task_Title t)
      else if field = ''description'' then task_Description t
      else if field = ''status'' then Some (task_Status t)
      else if field = ''priority'' then Some (task_Priority t)
      else if field = ''assignee_id'' then Some (case task_AssigneeID t of None \<Rightarrow> '''' | Some a \<Rightarrow> str a)
      else if field = ''due_date'' then Some (formatDate (task_DueDate t))
      else None)"

definition field_differs :: "Task \<Rightarrow> Task \<Rightarrow> string \<Rightarrow> bool" where
  "field_differs s t field \<longleftrightarrow>
     field = ''title'' \<and> task_Title s \<noteq> task_Title t \<or>
     field = ''description'' \<and> task_Description s \<noteq> task_Description t \<or>
     field = ''status'' \<and> task_Status s \<noteq> task_Status t \<or>
     field = ''priority'' \<and> task_Priority s \<noteq> task_Priority t \<or>
     field = ''assignee_id'' \<and> task_AssigneeID s \<noteq> task_AssigneeID t \<or>
     field = ''due_date'' \<and> task_DueDate s \<noteq> task_DueDate t"

definition task_fields :: "string list" where
  "task_fields = [''title'', ''description'', ''status'', ''priority'', ''assignee_id'', ''due_date'']"

lemma ptr_equal [simp]:
  "strPtrEqual a b \<longleftrightarrow> a = b" "uuidPtrEqual c d \<longleftrightarrow> c = d" "timePtrEqual x y \<longleftrightarrow> x = y"
  by (auto simp: strPtrEqual_def uuidPtrEqual_def timePtrEqual_def split: option.splits)

text \<open>Each statement sets its field and adds an entry exactly when the field changes.\<close>

lemma change_steps:
  defines "entry_if \<equiv> \<lambda>b e. if b then [e] else []"
  shows
  "title_change entry input (t, es) =
     (t\<lparr>task_Title := task_Title (apply_update input t)\<rparr>,
      es @ entry_if (task_Title t \<noteq> task_Title (apply_update input t))
        (entry ''title'' (Some (task_Title t)) (Some (task_Title (apply_update input t)))))" (is ?title)
  "description_change entry input (t, es) =
     (t\<lparr>task_Description := task_Description (apply_update input t)\<rparr>,
      es @ entry_if (task_Description t \<noteq> task_Description (apply_update input t))
        (entry ''description'' (task_Description t) (task_Description (apply_update input t))))" (is ?description)
  "status_change entry input (t, es) =
     (t\<lparr>task_Status := task_Status (apply_update input t)\<rparr>,
      es @ entry_if (task_Status t \<noteq> task_Status (apply_update input t))
        (entry ''status'' (Some (task_Status t)) (Some (task_Status (apply_update input t)))))" (is ?status)
  "priority_change entry input (t, es) =
     (t\<lparr>task_Priority := task_Priority (apply_update input t)\<rparr>,
      es @ entry_if (task_Priority t \<noteq> task_Priority (apply_update input t))
        (entry ''priority'' (Some (task_Priority t)) (Some (task_Priority (apply_update input t)))))" (is ?priority)
  "assignee_change str entry input (t, es) =
     (t\<lparr>task_AssigneeID := task_AssigneeID (apply_update input t)\<rparr>,
      es @ entry_if (task_AssigneeID t \<noteq> task_AssigneeID (apply_update input t))
        (entry ''assignee_id'' (field_text str t ''assignee_id'') (field_text str (apply_update input t) ''assignee_id'')))" (is ?assignee)
  "due_change entry input (t, es) =
     (t\<lparr>task_DueDate := task_DueDate (apply_update input t)\<rparr>,
      es @ entry_if (task_DueDate t \<noteq> task_DueDate (apply_update input t))
        (entry ''due_date'' (Some (formatDate (task_DueDate t))) (Some (formatDate (task_DueDate (apply_update input t))))))" (is ?due)
proof -
  show ?title by (simp add: entry_if_def apply_update_def split: option.splits)
  show ?description by (simp add: entry_if_def apply_update_def)
  show ?status by (simp add: entry_if_def apply_update_def split: option.splits)
  show ?priority by (simp add: entry_if_def apply_update_def split: option.splits)
  show ?assignee by (simp add: entry_if_def apply_update_def field_text_def split: option.splits)
  show ?due by (simp add: entry_if_def apply_update_def)
qed

lemma buildHistoryEntries_eq:
  "buildHistoryEntries str t input taskID callerID =
     (apply_update input t,
      map (\<lambda>field. new_entry taskID callerID field (field_text str t field) (field_text str (apply_update input t) field))
        (filter (field_differs t (apply_update input t)) task_fields))"
proof -
  let ?u = "apply_update input t"
  have u: "?u = t\<lparr>task_Title := task_Title ?u, task_Description := task_Description ?u, task_Status := task_Status ?u,
    task_Priority := task_Priority ?u, task_AssigneeID := task_AssigneeID ?u, task_DueDate := task_DueDate ?u\<rparr>"
    by (simp add: apply_update_def)
  have fields: "task_Description (apply_update input (t\<lparr>task_Title := a\<rparr>)) = task_Description ?u"
    "task_Status (apply_update input (t\<lparr>task_Title := a, task_Description := b\<rparr>)) = task_Status ?u"
    "task_Priority (apply_update input (t\<lparr>task_Title := a, task_Description := b, task_Status := c\<rparr>)) = task_Priority ?u"
    "task_AssigneeID (apply_update input (t\<lparr>task_Title := a, task_Description := b, task_Status := c, task_Priority := d\<rparr>)) =
      task_AssigneeID ?u"
    "task_DueDate (apply_update input (t\<lparr>task_Title := a, task_Description := b, task_Status := c, task_Priority := d,
      task_AssigneeID := e\<rparr>)) = task_DueDate ?u"
    "field_text str (t\<lparr>task_Title := a, task_Description := b, task_Status := c, task_Priority := d\<rparr>) ''assignee_id'' =
      field_text str t ''assignee_id''"
    "field_text str (apply_update input (t\<lparr>task_Title := a, task_Description := b, task_Status := c, task_Priority := d\<rparr>))
      ''assignee_id'' = field_text str ?u ''assignee_id''"
    for a b c d e by (simp_all add: apply_update_def field_text_def cong: option.case_cong)
  have texts: "field_text str x ''title'' = Some (task_Title x)" "field_text str x ''description'' = task_Description x"
    "field_text str x ''status'' = Some (task_Status x)" "field_text str x ''priority'' = Some (task_Priority x)"
    "field_text str x ''due_date'' = Some (formatDate (task_DueDate x))" for x
    by (simp_all add: field_text_def)
  have differs: "field_differs t ?u ''title'' \<longleftrightarrow> task_Title t \<noteq> task_Title ?u"
    "field_differs t ?u ''description'' \<longleftrightarrow> task_Description t \<noteq> task_Description ?u"
    "field_differs t ?u ''status'' \<longleftrightarrow> task_Status t \<noteq> task_Status ?u"
    "field_differs t ?u ''priority'' \<longleftrightarrow> task_Priority t \<noteq> task_Priority ?u"
    "field_differs t ?u ''assignee_id'' \<longleftrightarrow> task_AssigneeID t \<noteq> task_AssigneeID ?u"
    "field_differs t ?u ''due_date'' \<longleftrightarrow> task_DueDate t \<noteq> task_DueDate ?u"
    by (simp_all add: field_differs_def)
  have entries: "map f (filter P (x # xs)) = (if P x then [f x] else []) @ map f (filter P xs)" for f P x xs
    by simp
  show ?thesis
    unfolding buildHistoryEntries_def Let_def change_steps fields Task.select_convs
    by (subst u) (simp add: task_fields_def entries differs texts fields del: filter.simps split del: if_split cong: if_cong)
qed

section \<open>Properties\<close>

text \<open>C13. The change history of an update is exact: the task gets every given field and keeps the
  others, there is one entry for each field whose value changes, in the fixed order of the
  fields, each with the task, the caller and the old and new value; doing the same update
  again records nothing.\<close>

theorem history_exact:
  "fst (buildHistoryEntries str t input i c) = apply_update input t \<and>
   map th_Field (snd (buildHistoryEntries str t input i c)) = filter (field_differs t (apply_update input t)) task_fields \<and>
   list_all (\<lambda>e. th_TaskID e = i \<and> th_ChangedBy e = c \<and> th_OldValue e = field_text str t (th_Field e) \<and>
     th_NewValue e = field_text str (apply_update input t) (th_Field e)) (snd (buildHistoryEntries str t input i c)) \<and>
   snd (buildHistoryEntries str (fst (buildHistoryEntries str t input i c)) input i c) = []"
proof -
  have again: "apply_update input (apply_update input t) = apply_update input t"
    by (simp add: apply_update_def split: option.splits)
  have "filter (field_differs s s) task_fields = []" for s by (simp add: task_fields_def field_differs_def)
  then show ?thesis by (simp add: buildHistoryEntries_eq again new_entry_def list_all_iff o_def)
qed

text \<open>C33. Two list queries share a cache key exactly when they agree in team, assignee, page and
  limit and in the status, where no status counts as \<open>all\<close>.\<close>

theorem cache_key_exact:
  assumes "uuid_text str"
  shows "cacheKey str f = cacheKey str g \<longleftrightarrow>
    tf_TeamID f = tf_TeamID g \<and> case_option ''all'' (\<lambda>s. s) (tf_Status f) = case_option ''all'' (\<lambda>s. s) (tf_Status g) \<and>
    tf_AssigneeID f = tf_AssigneeID g \<and> tf_Page f = tf_Page g \<and> tf_Limit f = tf_Limit g"
  unfolding cacheKey_inject [OF assms] key_status_def ..

lemma cache_key_exact_witness:
  "uuid_text canonical_uuid \<and>
   cacheKey canonical_uuid \<lparr>tf_TeamID = None, tf_Status = None, tf_AssigneeID = None, tf_Page = 1, tf_Limit = 20\<rparr> \<noteq>
   cacheKey canonical_uuid \<lparr>tf_TeamID = None, tf_Status = Some ''done'', tf_AssigneeID = None, tf_Page = 1, tf_Limit = 20\<rparr>"
  unfolding cache_key_exact [OF canonical_uuid_text] using canonical_uuid_text by simp

text \<open>The pattern that is invalidated after a write to a team covers the cached lists of that
  team, whatever their other filters, and of no other team: it is a prefix followed by \<open>*\<close>,
  has no other glob character, and the prefix starts a key exactly when the key is of that team.\<close>

theorem cache_pattern_exact:
  assumes "uuid_text str"
  shows "\<exists>p. cachePattern str t = p @ ''*'' \<and> set p \<inter> insert (CHR 0x5C) (set ''*?[]^'') = {} \<and>
    (\<forall>f. HasPrefix (cacheKey str f) p \<longleftrightarrow> tf_TeamID f = Some t)"
  by (rule exI [of _ "key_prefix str t"])
    (simp only: cachePattern_prefix key_prefix_chars [OF assms] cacheKey_prefix [OF assms] simp_thms)

lemma cache_pattern_exact_witness:
  "\<exists>p. cachePattern canonical_uuid (uuid_copy []) = p @ ''*'' \<and>
    \<not> HasPrefix (cacheKey canonical_uuid \<lparr>tf_TeamID = None, tf_Status = None, tf_AssigneeID = None, tf_Page = 1, tf_Limit = 20\<rparr>) p"
proof -
  obtain p where p: "cachePattern canonical_uuid (uuid_copy []) = p @ ''*''"
    "\<forall>f. HasPrefix (cacheKey canonical_uuid f) p \<longleftrightarrow> tf_TeamID f = Some (uuid_copy [])"
    using cache_pattern_exact [OF canonical_uuid_text, of "uuid_copy []"] by (elim exE conjE)
  then show ?thesis by (intro exI [of _ p]) simp
qed

text \<open>Page and limit are brought into range: the page is at least 1 and the limit between 1 and
  100, values already in range are kept, and so is the rest of the filter.\<close>

theorem page_limit_bounds:
  "1 \<le> sint (tf_Page (normalize f)) \<and> 1 \<le> sint (tf_Limit (normalize f)) \<and> sint (tf_Limit (normalize f)) \<le> 100 \<and>
   normalize (normalize f) = normalize f \<and>
   (normalize f = f) = (1 \<le> sint (tf_Page f) \<and> 1 \<le> sint (tf_Limit f) \<and> sint (tf_Limit f) \<le> 100) \<and>
   (tf_TeamID (normalize f), tf_Status (normalize f), tf_AssigneeID (normalize f)) = (tf_TeamID f, tf_Status f, tf_AssigneeID f)"
proof -
  have keep: "normalize f = f" if "1 \<le> sint (tf_Page f) \<and> 1 \<le> sint (tf_Limit f) \<and> sint (tf_Limit f) \<le> 100" for f
    using that normalize_id by blast
  have range: "1 \<le> sint (tf_Page (normalize f)) \<and> 1 \<le> sint (tf_Limit (normalize f)) \<and> sint (tf_Limit (normalize f)) \<le> 100"
    using normalize_bounds by blast
  with keep [of "normalize f"] have "normalize (normalize f) = normalize f" by blast
  moreover have "(normalize f = f) = (1 \<le> sint (tf_Page f) \<and> 1 \<le> sint (tf_Limit f) \<and> sint (tf_Limit f) \<le> 100)"
    using keep [of f] range by metis
  ultimately show ?thesis using range by simp
qed

end
