(* ===== verification/Task_Contract.thy ===== *)
theory Task_Contract
  imports Task_Service
begin

text \<open>
  What the task service guarantees, proved once from the contracts of the interfaces it uses:
  every outcome of each operation, and that the cached lists stay equal to what the storage
  would answer as long as the cache does not fail.
\<close>

section \<open>What the operations guarantee\<close>

text \<open>Who may create a task, and what the created task looks like.\<close>

definition may_create :: "(uuid \<Rightarrow> uuid \<Rightarrow> Role option) \<Rightarrow> uuid \<Rightarrow> CreateTaskInput \<Rightarrow> bool" where
  "may_create rl creatorID input \<longleftrightarrow>
     rl (cti_TeamID input) creatorID \<noteq> None \<and>
     (\<forall>a. cti_AssigneeID input = Some a \<longrightarrow> rl (cti_TeamID input) a \<noteq> None)"

definition task_for :: "CreateTaskInput \<Rightarrow> uuid \<Rightarrow> Task \<Rightarrow> bool" where
  "task_for input creatorID t \<longleftrightarrow>
     task_TeamID t = cti_TeamID input \<and> task_CreatedBy t = creatorID \<and> task_AssigneeID t = cti_AssigneeID input \<and>
     task_Title t = cti_Title input \<and> task_Description t = cti_Description input \<and> task_Status t = StatusTodo \<and>
     task_Priority t = (if cti_Priority input = '''' then PriorityMedium else cti_Priority input) \<and>
     task_DueDate t = cti_DueDate input \<and> task_UpdatedAt t = task_CreatedAt t"

text \<open>Who may update a task, and the updated task with its history entries.\<close>

definition may_update :: "(uuid \<Rightarrow> uuid \<Rightarrow> Role option) \<Rightarrow> uuid \<Rightarrow> Task \<Rightarrow> UpdateTaskInput \<Rightarrow> bool" where
  "may_update rl callerID t input \<longleftrightarrow>
     rl (task_TeamID t) callerID \<noteq> None \<and>
     (\<forall>a. uti_AssigneeID input = Some a \<longrightarrow> task_AssigneeID t \<noteq> Some a \<longrightarrow> rl (task_TeamID t) a \<noteq> None)"

definition update_entries :: "(uuid \<Rightarrow> string) \<Rightarrow> Task \<Rightarrow> UpdateTaskInput \<Rightarrow> uuid \<Rightarrow> uuid \<Rightarrow> time \<Rightarrow> TaskHistory list" where
  "update_entries str t input taskID callerID now =
     map (\<lambda>e. e\<lparr>th_ChangedAt := now\<rparr>) (snd (buildHistoryEntries str t input taskID callerID))"

text \<open>
  A cached list is coherent when it decodes to a page the storage could answer now.  A filter
  with status \<open>all\<close> shares its key with the filter without status, so it is left out.
\<close>

definition coherent_cache ::
  "(uuid \<Rightarrow> string) \<Rightarrow> (bytes \<Rightarrow> err + Task list \<times> nat) \<Rightarrow> (Task \<Rightarrow> Task) \<Rightarrow>
   ('d \<Rightarrow> TaskFilter \<Rightarrow> Task list \<Rightarrow> nat \<Rightarrow> bool) \<Rightarrow> (string \<times> bytes) set \<Rightarrow> 'd \<Rightarrow> bool" where
  "coherent_cache str unmarshal coerce page_of es d \<longleftrightarrow> (\<forall>f T b ts n. (cacheKey str f, b) \<in> es \<longrightarrow>
     tf_TeamID f = Some T \<longrightarrow> tf_Status f \<noteq> Some ''all'' \<longrightarrow> unmarshal b = Inr (ts, n) \<longrightarrow>
     (\<exists>us. page_of d f us n \<and> ts = map coerce us))"

locale task_service_deps =
  task_store good data rest "tsv_GetTaskByID S" task_of "tsv_SaveTask S" "tsv_UpdateTaskWithHistory S"
    "tsv_ListTasks S" "tsv_ListHistory S" hist_of members_of others_of norm same_entry keep_columns page_of +
  member_checker good data rest "tsv_GetMemberRole S" role_of +
  cache_store good data rest "tsv_Get S" "tsv_Set S" "tsv_Invalidate S" stored
  for good :: "'w \<Rightarrow> bool" and data :: "'w \<Rightarrow> 'd" and rest :: "'w \<Rightarrow> 'r" and S :: "'w task_service"
    and task_of :: "'d \<Rightarrow> uuid \<Rightarrow> Task option" and hist_of :: "'d \<Rightarrow> uuid \<Rightarrow> TaskHistory list"
    and members_of :: "'d \<Rightarrow> 'v" and others_of :: "'d \<Rightarrow> 'u" and norm :: "Task \<Rightarrow> Task option"
    and same_entry :: "TaskHistory \<Rightarrow> TaskHistory \<Rightarrow> bool" and keep_columns :: "Task \<Rightarrow> Task \<Rightarrow> Task"
    and page_of :: "'d \<Rightarrow> TaskFilter \<Rightarrow> Task list \<Rightarrow> nat \<Rightarrow> bool"
    and role_of :: "'d \<Rightarrow> uuid \<Rightarrow> uuid \<Rightarrow> Role option" and stored :: "'r \<Rightarrow> (string \<times> bytes) set" +
  fixes coerce :: "Task \<Rightarrow> Task"
  assumes now_quiet: "quiet good data rest (tsv_Now S)"
    and newv7_quiet: "quiet good data rest (tsv_NewV7 S)"
    and newv7_failed: "good w \<Longrightarrow> run_state (tsv_NewV7 S) w = (Inl e, w') \<Longrightarrow> \<not> errors_Is e g"
    and text_form: "good w \<Longrightarrow> uuid_text (tsv_String S)"
    and decode: "good w \<Longrightarrow> tsv_Marshal S (ts, n) = Inr b \<Longrightarrow> tsv_Unmarshal S b = Inr (map coerce ts, n)"
    and role_members: "members_of d = members_of d' \<Longrightarrow> role_of d = role_of d'"
begin

lemma role_check_quiet:
  "quiet good data rest (case a of None \<Rightarrow> State_Monad.return (Inr '''') | Some u \<Rightarrow> tsv_GetMemberRole S T u)"
  by (cases a) (simp_all add: role_quiet quiet_return)

lemma check_assignee:
  assumes w: "good w"
    and run: "run_state (try_or (assignee_or pre) (case a of None \<Rightarrow> State_Monad.return (Inr '''')
      | Some u \<Rightarrow> tsv_GetMemberRole S T u) k) w = (r, w')"
  obtains (denied) e u where "r = Inl e" "a = Some u" "errors_Is e ErrForbidden \<Longrightarrow> role_of (data w) T u = None"
      "good w'" "data w' = data w" "rest w' = rest w" "\<not> errors_Is e ErrNotFound"
  | (passed) x v where "\<And>u. a = Some u \<Longrightarrow> role_of (data w) T u \<noteq> None" "good v" "data v = data w" "rest v = rest w"
      "run_state (k x) v = (r, w')"
  using role_check_quiet w run
proof (cases rule: quiet_try_or)
  case (err e)
  then obtain u where a: "a = Some u" and m: "run_state (tsv_GetMemberRole S T u) w = (Inl e, w')"
    by (cases a) auto
  have "role_of (data w) T u = None" if "errors_Is (assignee_or pre e) ErrForbidden"
    using that role_missing [OF w m] role_failed [OF m] by (auto simp: assignee_or_def split: if_splits)
  moreover have "\<not> errors_Is (assignee_or pre e) ErrNotFound" by (simp add: assignee_or_def)
  ultimately show thesis using err a that(1) by blast
next
  case (ok x v)
  have "role_of (data w) T u \<noteq> None" if "a = Some u" for u
    using ok(1) that role_found [OF w] by auto
  with ok that(2) show thesis by blast
qed

abbreviation saved where
  "saved \<equiv> task_saved task_of (\<lambda>d. (hist_of d, members_of d, others_of d)) norm"

abbreviation changed where
  "changed \<equiv> task_changed task_of hist_of (\<lambda>d. (members_of d, others_of d)) norm same_entry keep_columns"

text \<open>Every outcome of \<open>Create\<close>.\<close>

lemma Create_cases:
  assumes w: "good w" and run: "run_state (task_Create S c input) w = (r, w')"
  obtains (refused) e where "r = Inl e" "errors_Is e ErrForbidden \<Longrightarrow> \<not> may_create (role_of (data w)) c input"
      "good w'" "data w' = data w" "rest w' = rest w"
  | (unsure) e t where "r = Inl e" "\<And>g. \<not> errors_Is e g" "may_create (role_of (data w)) c input" "task_for input c t"
      "good w'" "rest w' = rest w" "data w' = data w \<or> saved t (data w) (data w')"
      "\<exists>v x. good v \<and> data v = data w \<and> run_state (tsv_SaveTask S t) v = (Inl x, w')"
  | (created) t v where "r = Inr t" "may_create (role_of (data w)) c input" "task_for input c t" "good v" "rest v = rest w"
      "saved t (data w) (data v)" "\<exists>u. run_state (tsv_Invalidate S (cachePattern (tsv_String S) (cti_TeamID input))) v = (u, w')"
  using w run [unfolded task_Create_def]
proof (cases rule: check_member)
  case (denied e)
  with that(1) show thesis by (auto simp: may_create_def)
next
  case (passed x v)
  from passed(2,5) show thesis
  proof (cases rule: check_assignee)
    case (denied e u)
    with passed that(1) show thesis by (auto simp: may_create_def)
  next
    case (passed y v2)
    with \<open>role_of (data w) _ c = Some x\<close> \<open>data v = data w\<close> have may: "may_create (role_of (data w)) c input"
      by (simp add: may_create_def)
    from newv7_quiet passed(2) passed(5) show thesis
    proof (cases rule: quiet_try_or)
      case (err e)
      with newv7_failed [OF passed(2) err(1)] that(1) passed \<open>data v = data w\<close> \<open>rest v = rest w\<close> show thesis by auto
    next
      case (ok i v3)
      from now_quiet ok(2) ok(5) obtain now v4 where v4: "good v4" "data v4 = data v3" "rest v4 = rest v3"
        and save: "run_state (try_or (errorf ''task.Service.Create: save task: '')
          (tsv_SaveTask S (new_task i now c input))
          (\<lambda>_. tsv_Invalidate S (cachePattern (tsv_String S) (cti_TeamID input)) \<bind>
             (\<lambda>_. State_Monad.return (Inr (new_task i now c input))))) v4 = (r, w')"
        (is "run_state (try_or _ (tsv_SaveTask S ?t) _) v4 = _")
        by (rule quiet_bind_step) (auto simp: Let_def)
      have t: "task_for input c ?t" by (simp add: task_for_def new_task_def)
      have d: "data v4 = data w" "rest v4 = rest w"
        using v4 ok passed \<open>data v = data w\<close> \<open>rest v = rest w\<close> by simp_all
      from save show thesis
      proof (cases rule: try_or_cases)
        case (err e)
        have "\<exists>v x. good v \<and> data v = data w \<and> run_state (tsv_SaveTask S (new_task i now c input)) v = (Inl x, w')"
          using v4(1) d(1) err(1) by blast
        with save_run [OF v4(1) err(1)] storesD [OF save_stores v4(1) err(1)] d
        show thesis by (intro that(2) [OF err(2) _ may t]) auto
      next
        case (ok x v5)
        then have inv: "\<exists>u. run_state (tsv_Invalidate S (cachePattern (tsv_String S) (cti_TeamID input))) v5 = (u, w')"
          and r: "r = Inr (new_task i now c input)" by (auto split: prod.splits)
        show thesis
          by (rule that(3) [OF r may t _ _ _ inv])
            (use save_run [OF v4(1) ok(1)] storesD [OF save_stores v4(1) ok(1)] d in auto)
      qed
    qed
  qed
qed

text \<open>Every outcome of \<open>Update\<close>.\<close>

lemma Update_cases:
  assumes w: "good w" and run: "run_state (task_Update S c i input) w = (r, w')"
  obtains (missing) e where "r = Inl e" "errors_Is e ErrNotFound \<Longrightarrow> task_of (data w) i = None" "\<not> errors_Is e ErrForbidden"
      "good w'" "data w' = data w" "rest w' = rest w"
  | (refused) e t where "r = Inl e" "task_of (data w) i = Some t"
      "errors_Is e ErrForbidden \<Longrightarrow> \<not> may_update (role_of (data w)) c t input"
      "good w'" "data w' = data w" "rest w' = rest w" "\<not> errors_Is e ErrNotFound"
  | (unsure) e t now where "r = Inl e" "\<And>g. \<not> errors_Is e g" "task_of (data w) i = Some t"
      "may_update (role_of (data w)) c t input" "good w'" "rest w' = rest w"
      "data w' = data w \<or> changed ((apply_update input t)\<lparr>task_UpdatedAt := now\<rparr>)
         (update_entries (tsv_String S) t input i c now) (data w) (data w')"
      "\<exists>v x u es. good v \<and> data v = data w \<and> run_state (tsv_UpdateTaskWithHistory S u es) v = (Inl x, w')"
  | (updated) t now v where "r = Inr ((apply_update input t)\<lparr>task_UpdatedAt := now\<rparr>)" "task_of (data w) i = Some t"
      "may_update (role_of (data w)) c t input" "good v" "rest v = rest w"
      "changed ((apply_update input t)\<lparr>task_UpdatedAt := now\<rparr>)
         (update_entries (tsv_String S) t input i c now) (data w) (data v)"
      "\<exists>u. run_state (tsv_Invalidate S (cachePattern (tsv_String S) (task_TeamID t))) v = (u, w')"
  using task_quiet w run [unfolded task_Update_def]
proof (cases rule: quiet_try_or)
  case (err e)
  with task_missing [OF w err(1)] task_failed [OF err(1)] that(1) show thesis by auto
next
  case (ok t v)
  have t: "task_of (data w) i = Some t" using task_found [OF w ok(1)] .
  note dv = ok(3,4)
  from ok(2,5) show thesis
  proof (cases rule: check_member)
    case (denied e)
    with that(2) [OF denied(1) t] dv show thesis by (simp add: may_update_def)
  next
    case (passed x v2)
    define a where "a = (if uuidPtrEqual (task_AssigneeID t) (uti_AssigneeID input) then None else uti_AssigneeID input)"
    have check: "(case uti_AssigneeID input of None \<Rightarrow> State_Monad.return (Inr '''')
        | Some a \<Rightarrow> if \<not> uuidPtrEqual (task_AssigneeID t) (uti_AssigneeID input)
            then tsv_GetMemberRole S (task_TeamID t) a else State_Monad.return (Inr '''')) =
      (case a of None \<Rightarrow> State_Monad.return (Inr '''') | Some u \<Rightarrow> tsv_GetMemberRole S (task_TeamID t) u)"
      by (auto simp: a_def split: option.splits)
    note member = passed(1)
    note dv2 = passed(3,4)
    from passed(2) passed(5) [unfolded check] show thesis
    proof (cases rule: check_assignee)
      case (denied e u)
      then have "errors_Is e ErrForbidden \<Longrightarrow> \<not> may_update (role_of (data w)) c t input"
        using dv dv2 by (auto simp: may_update_def a_def split: if_splits)
      with that(2) [OF denied(1) t] denied dv dv2 show thesis by simp
    next
      case (passed y v3)
      have may: "may_update (role_of (data w)) c t input"
        using member passed(1) dv dv2 by (auto simp: may_update_def a_def split: if_splits)
      let ?u = "\<lambda>now. (apply_update input t)\<lparr>task_UpdatedAt := now\<rparr>"
      let ?es = "update_entries (tsv_String S) t input i c"
      from now_quiet passed(2) passed(5) [unfolded buildHistoryEntries_eq prod.case]
      obtain now v4 where v4: "good v4" "data v4 = data v3" "rest v4 = rest v3"
        and upd: "run_state (try_or (errorf ''task.Service.Update: update task: '')
          (tsv_UpdateTaskWithHistory S (?u now) (?es now))
          (\<lambda>_. tsv_Invalidate S (cachePattern (tsv_String S) (task_TeamID t)) \<bind>
             (\<lambda>_. State_Monad.return (Inr (?u now))))) v4 = (r, w')"
        by (rule quiet_bind_step) (auto simp: Let_def update_entries_def buildHistoryEntries_eq apply_update_def)
      have d: "data v4 = data w" "rest v4 = rest w" using v4 passed dv dv2 by simp_all
      from upd show thesis
      proof (cases rule: try_or_cases)
        case (err e)
        have "\<exists>v x u es. good v \<and> data v = data w \<and> run_state (tsv_UpdateTaskWithHistory S u es) v = (Inl x, w')"
          using v4(1) d(1) err(1) by blast
        with update_run [OF v4(1) err(1)] storesD [OF update_stores v4(1) err(1)] d
        show thesis by (intro that(3) [OF err(2) _ t may]) auto
      next
        case (ok x v5)
        then have inv: "\<exists>u. run_state (tsv_Invalidate S (cachePattern (tsv_String S) (task_TeamID t))) v5 = (u, w')"
          and r: "r = Inr (?u now)" by (auto split: prod.splits)
        show thesis
          by (rule that(4) [OF r t may _ _ _ inv])
            (use update_run [OF v4(1) ok(1)] storesD [OF update_stores v4(1) ok(1)] d in auto)
      qed
    qed
  qed
qed

text \<open>Every outcome of \<open>History\<close>: it changes nothing.\<close>

lemma History_cases:
  assumes w: "good w" and run: "run_state (task_History S c i) w = (r, w')"
  shows "good w' \<and> data w' = data w \<and> rest w' = rest w" (is ?quiet)
    and "r = Inr hs \<Longrightarrow> \<exists>t. task_of (data w) i = Some t \<and> role_of (data w) (task_TeamID t) c \<noteq> None \<and>
      mset hs = mset (hist_of (data w) i) \<and> sorted_wrt (\<lambda>g h. th_ChangedAt g \<le> th_ChangedAt h) hs" (is "_ \<Longrightarrow> ?ok")
    and "r = Inl e \<Longrightarrow> errors_Is e ErrForbidden \<Longrightarrow>
      \<exists>t. task_of (data w) i = Some t \<and> role_of (data w) (task_TeamID t) c = None" (is "_ \<Longrightarrow> _ \<Longrightarrow> ?no")
proof -
  have "?quiet \<and> (r = Inr hs \<longrightarrow> ?ok) \<and> (r = Inl e \<longrightarrow> errors_Is e ErrForbidden \<longrightarrow> ?no)"
    using task_quiet w run [unfolded task_History_def]
  proof (cases rule: quiet_try_or)
    case (err x)
    with task_failed [OF err(1)] show ?thesis by auto
  next
    case (ok t v)
    note t = task_found [OF w ok(1)]
    note dv = ok(3,4)
    from ok(2,5) show ?thesis
    proof (cases rule: check_member)
      case (denied x)
      with t dv show ?thesis by auto
    next
      case (passed x v2)
      note v2 = passed
      from history_quiet passed(2,5) show ?thesis
      proof (cases rule: quiet_try_or)
        case (err x)
        with history_failed [OF err(1)] v2 dv show ?thesis by auto
      next
        case (ok gs v3)
        with history_found [OF v2(2) ok(1)] v2 dv t show ?thesis by auto
      qed
    qed
  qed
  then show ?quiet and "r = Inr hs \<Longrightarrow> ?ok" and "r = Inl e \<Longrightarrow> errors_Is e ErrForbidden \<Longrightarrow> ?no" by auto
qed

abbreviation coherent where
  "coherent w \<equiv> coherent_cache (tsv_String S) (tsv_Unmarshal S) coerce page_of (stored (rest w)) (data w)"

lemma coherentD:
  "coherent w \<Longrightarrow> (cacheKey (tsv_String S) f, b) \<in> stored (rest w) \<Longrightarrow> tf_TeamID f = Some T \<Longrightarrow>
     tf_Status f \<noteq> Some ''all'' \<Longrightarrow> tsv_Unmarshal S b = Inr (ts, n) \<Longrightarrow> \<exists>us. page_of (data w) f us n \<and> ts = map coerce us"
  unfolding coherent_cache_def by blast

text \<open>Entries may disappear, and tasks of teams without entries may change.\<close>

lemma coherent_change:
  assumes "good w" and "good w'" and "coherent w" and "stored (rest w') \<subseteq> stored (rest w)"
    and team: "\<And>f b T. (cacheKey (tsv_String S) f, b) \<in> stored (rest w') \<Longrightarrow> tf_TeamID f = Some T \<Longrightarrow>
      (\<forall>i t. task_TeamID t = T \<longrightarrow> (task_of (data w) i = Some t \<longleftrightarrow> task_of (data w') i = Some t))"
  shows "coherent w'"
  unfolding coherent_cache_def
proof (intro allI impI)
  fix f T b ts n
  assume key: "(cacheKey (tsv_String S) f, b) \<in> stored (rest w')" and T: "tf_TeamID f = Some T"
    and st: "tf_Status f \<noteq> Some ''all''" and un: "tsv_Unmarshal S b = Inr (ts, n)"
  from key assms(4) have "(cacheKey (tsv_String S) f, b) \<in> stored (rest w)" by blast
  from coherentD [OF assms(3) this T st un] obtain us where "page_of (data w) f us n" "ts = map coerce us" by blast
  moreover from team [OF key T] have "page_of (data w') f us n"
    by (intro page_local [OF assms(1,2) T _ \<open>page_of (data w) f us n\<close>]) blast
  ultimately show "\<exists>us. page_of (data w') f us n \<and> ts = map coerce us" by blast
qed

lemma coherent_frame:
  assumes "good w" and "good w'" and "coherent w" and "stored (rest w') \<subseteq> stored (rest w)"
    and "task_of (data w') = task_of (data w)"
  shows "coherent w'"
  by (rule coherent_change [OF assms(1-4)]) (simp add: assms(5))

lemma same_key:
  assumes "uuid_text str" and "cacheKey str f = cacheKey str g"
    and "tf_Status f \<noteq> Some ''all''" and "tf_Status g \<noteq> Some ''all''"
  shows "f = g"
proof -
  have "tf_Status f = tf_Status g"
    using assms cacheKey_inject by (auto simp: key_status_def split: option.splits)
  with assms(2) show ?thesis unfolding cacheKey_inject [OF assms(1)] by (cases f, cases g) simp
qed

lemma coherent_set:
  assumes "good w" and "coherent w" and "data w' = data w" and "page_of (data w) g us n" and "tf_Status g \<noteq> Some ''all''"
    and b: "tsv_Marshal S (us, n) = Inr b"
    and st: "stored (rest w') \<subseteq> insert (cacheKey (tsv_String S) g, b) (stored (rest w))"
  shows "coherent w'"
  unfolding coherent_cache_def
proof (intro allI impI)
  fix f T b' ts m
  assume key: "(cacheKey (tsv_String S) f, b') \<in> stored (rest w')" and T: "tf_TeamID f = Some T"
    and fs: "tf_Status f \<noteq> Some ''all''" and un: "tsv_Unmarshal S b' = Inr (ts, m)"
  show "\<exists>us. page_of (data w') f us m \<and> ts = map coerce us"
  proof (cases "(cacheKey (tsv_String S) f, b') \<in> stored (rest w)")
    case True
    from coherentD [OF assms(2) True T fs un] assms(3) show ?thesis by simp
  next
    case False
    with key st have "cacheKey (tsv_String S) f = cacheKey (tsv_String S) g" and b': "b' = b" by auto
    then have "f = g" using same_key text_form [OF assms(1)] fs assms(5) by blast
    moreover from decode [OF assms(1) b] un b' have "ts = map coerce us" "m = n" by auto
    ultimately show ?thesis using assms(3,4) by auto
  qed
qed

text \<open>The uncached query, and the whole of \<open>List\<close>.\<close>

lemma list_uncached_run:
  assumes w: "good w" and run: "run_state (list_uncached S f (cacheKey (tsv_String S) f)) w = (r, w')"
  shows "good w' \<and> data w' = data w \<and>
    (coherent w \<longrightarrow> tf_Status f \<noteq> Some ''all'' \<longrightarrow> coherent w') \<and>
    (case r of Inr (ts, n) \<Rightarrow> page_of (data w) f ts n | Inl e \<Rightarrow> (\<forall>g. \<not> errors_Is e g))"
  using list_quiet w run [unfolded list_uncached_def]
proof (cases rule: quiet_try_or)
  case (err e)
  with list_failed [OF err(1)] coherent_frame [OF w err(3)] show ?thesis by auto
next
  case (ok p v)
  obtain ts n where p: "p = (ts, n)" by fastforce
  have page: "page_of (data w) f ts n" using list_found [OF w] ok(1) p by blast
  have cv: "coherent w \<Longrightarrow> coherent v" using coherent_frame [OF w ok(2)] ok(3,4) by simp
  show ?thesis
  proof (cases "tsv_Marshal S (ts, n)")
    case (Inl x)
    with ok p page cv show ?thesis by auto
  next
    case (Inr b)
    with ok(5) p have "r = Inr (ts, n)" and "\<exists>u. run_state (tsv_Set S (cacheKey (tsv_String S) f) b (tsv_ttl S)) v = (u, w')"
      by (auto split: prod.splits)
    then obtain u where r: "r = Inr (ts, n)"
      and st: "run_state (tsv_Set S (cacheKey (tsv_String S) f) b (tsv_ttl S)) v = (u, w')" by blast
    have g: "good w'" "data w' = data v" using cache_keeps(2) [OF ok(2) st] by simp_all
    have "coherent w'" if "coherent w" "tf_Status f \<noteq> Some ''all''"
      by (rule coherent_set [OF ok(2) cv [OF that(1)] g(2) _ that(2) Inr set_stored [OF st]]) (simp add: ok(3) page)
    with r g ok(3) page show ?thesis by auto
  qed
qed

lemma List_run:
  assumes w: "good w" and run: "run_state (task_List S c f) w = (r, w')"
  shows "good w' \<and> data w' = data w \<and>
    (coherent w \<longrightarrow> tf_Status f \<noteq> Some ''all'' \<longrightarrow> coherent w') \<and>
    (case r of
       Inr (ts, n) \<Rightarrow> (\<exists>T. tf_TeamID f = Some T \<and> role_of (data w) T c \<noteq> None) \<and>
         (coherent w \<longrightarrow> tf_Status f \<noteq> Some ''all'' \<longrightarrow>
           (\<exists>us. page_of (data w) (normalize f) us n \<and> (ts = us \<or> ts = map coerce us)))
     | Inl e \<Rightarrow> errors_Is e ErrForbidden \<longrightarrow> (case tf_TeamID f of None \<Rightarrow> True | Some T \<Rightarrow> role_of (data w) T c = None))"
proof (cases "tf_TeamID f")
  case None
  with run w show ?thesis by (auto simp: task_List_def)
next
  case (Some T)
  let ?f = "normalize f"
  let ?key = "cacheKey (tsv_String S) ?f"
  from w run [unfolded task_List_def Some option.case] show ?thesis
  proof (cases rule: check_member)
    case (denied e)
    with Some coherent_frame [OF w denied(4)] show ?thesis by auto
  next
    case (passed x v)
    from passed(5) [unfolded Let_def] obtain d v2 where get: "run_state (tsv_Get S ?key) v = (d, v2)"
      and rest: "run_state (case d of Inl _ \<Rightarrow> list_uncached S ?f ?key | Inr data \<Rightarrow>
         (case tsv_Unmarshal S data of Inl _ \<Rightarrow> list_uncached S ?f ?key
          | Inr cached \<Rightarrow> State_Monad.return (Inr cached))) v2 = (r, w')" by (rule bind_cases)
    have v2: "good v2" "data v2 = data w" using cache_keeps(1) [OF passed(2) get] passed(3) by simp_all
    have cv: "coherent v" "coherent v2" if "coherent w"
      using that coherent_frame [OF w passed(2)] coherent_frame [OF passed(2) v2(1)] get_stored [OF get] passed(3,4) v2(2)
      by simp_all
    have team: "tf_TeamID ?f = Some T" and stat: "tf_Status ?f = tf_Status f" using Some by simp_all
    consider (miss) "run_state (list_uncached S ?f ?key) v2 = (r, w')"
      | (hit) data ts n where "d = Inr data" "tsv_Unmarshal S data = Inr (ts, n)" "r = Inr (ts, n)" "w' = v2"
      using rest by (auto split: sum.splits dest: sym [of "Inr _"])
    then show ?thesis
    proof cases
      case miss
      from list_uncached_run [OF v2(1) miss] v2(2) cv(2) stat passed(1) Some show ?thesis by (auto split: sum.splits)
    next
      case (hit b ts n)
      with get have "(?key, b) \<in> stored (rest v)" using get_found by blast
      then have "\<exists>us. page_of (data w) ?f us n \<and> ts = map coerce us" if "coherent w" "tf_Status f \<noteq> Some ''all''"
        using coherentD [OF cv(1) [OF that(1)] _ team _ hit(2)] that(2) stat passed(3) by auto
      with hit v2 cv(2) passed(1) Some show ?thesis by auto
    qed
  qed
qed

end

section \<open>Coherence of the cache\<close>

text \<open>A storage whose errors mean that nothing was written, and a cache whose deletions succeed.\<close>

locale reliable_task_service = task_service_deps +
  assumes inval_certain: "good w \<Longrightarrow> run_state (tsv_Invalidate S p) w = (u, w') \<Longrightarrow> u = Inr ()"
    and save_certain: "good w \<Longrightarrow> run_state (tsv_SaveTask S t) w = (Inl e, w') \<Longrightarrow> data w' = data w"
    and update_certain: "good w \<Longrightarrow> run_state (tsv_UpdateTaskWithHistory S t es) w = (Inl e, w') \<Longrightarrow> data w' = data w"
begin

text \<open>Invalidating a team makes the change of a task of that team invisible to the cache.\<close>

lemma coherent_invalidate:
  assumes w: "good w" and v: "good v" and coh: "coherent w" and "rest v = rest w"
    and inv: "run_state (tsv_Invalidate S (cachePattern (tsv_String S) T)) v = (u, w')"
    and team: "\<And>i t. task_TeamID t \<noteq> T \<Longrightarrow> task_of (data w) i = Some t \<longleftrightarrow> task_of (data v) i = Some t"
  shows "coherent w'"
proof (rule coherent_change [OF w _ coh])
  from cache_keeps(3) [OF v inv] show "good w'" by simp
  from inval_stored [OF v inv] \<open>rest v = rest w\<close> show "stored (rest w') \<subseteq> stored (rest w)" by simp
  fix f b T'
  assume key: "(cacheKey (tsv_String S) f, b) \<in> stored (rest w')" and T': "tf_TeamID f = Some T'"
  note str = text_form [OF w]
  have "u = Inr ()" using inval_certain [OF v inv] .
  with inval_prefix [OF v, of "key_prefix (tsv_String S) T"] inv key key_prefix_chars [OF str]
  have "\<not> HasPrefix (cacheKey (tsv_String S) f) (key_prefix (tsv_String S) T)"
    unfolding cachePattern_prefix by blast
  with T' have "T' \<noteq> T" by (simp add: cacheKey_prefix [OF str])
  with team cache_keeps(3) [OF v inv]
  show "\<forall>i t. task_TeamID t = T' \<longrightarrow> (task_of (data w) i = Some t \<longleftrightarrow> task_of (data w') i = Some t)" by simp
qed

lemma Create_coherent:
  assumes w: "good w" and coh: "coherent w" and run: "run_state (task_Create S c input) w = (r, w')"
  shows "coherent w'"
  using w run
proof (cases rule: Create_cases)
  case (refused e)
  with coherent_frame [OF w refused(3) coh] show ?thesis by simp
next
  case (unsure e t)
  then have "data w' = data w" using save_certain by metis
  with unsure coherent_frame [OF w unsure(5) coh] show ?thesis by simp
next
  case (created t v)
  from created(7) obtain u where inv: "run_state (tsv_Invalidate S (cachePattern (tsv_String S) (cti_TeamID input))) v = (u, w')"
    by blast
  from created(6) obtain s where s: "norm t = Some s" "task_of (data w) (task_ID t) = None"
    "task_of (data v) = (task_of (data w))(task_ID t \<mapsto> s)" by (auto simp: task_saved_def)
  have "task_TeamID s = cti_TeamID input" using norm_ids [OF s(1)] created(3) by (simp add: task_for_def)
  with s have "task_of (data w) i = Some x \<longleftrightarrow> task_of (data v) i = Some x" if "task_TeamID x \<noteq> cti_TeamID input" for i x
    using that by auto
  then show ?thesis by (rule coherent_invalidate [OF w created(4) coh created(5) inv])
qed

lemma Update_coherent:
  assumes w: "good w" and coh: "coherent w" and run: "run_state (task_Update S c i input) w = (r, w')"
  shows "coherent w'"
  using w run
proof (cases rule: Update_cases)
  case (missing e)
  with coherent_frame [OF w missing(4) coh] show ?thesis by simp
next
  case (refused e t)
  with coherent_frame [OF w refused(4) coh] show ?thesis by simp
next
  case (unsure e t now)
  then have "data w' = data w" using update_certain by metis
  with unsure coherent_frame [OF w unsure(5) coh] show ?thesis by simp
next
  case (updated t now v)
  from updated(7) obtain u where inv: "run_state (tsv_Invalidate S (cachePattern (tsv_String S) (task_TeamID t))) v = (u, w')"
    by blast
  have "task_ID t = i" using task_of_ID updated(2) by blast
  then have id: "task_ID ((apply_update input t)\<lparr>task_UpdatedAt := now\<rparr>) = i" by (simp add: apply_update_def)
  from updated(6) obtain s where s: "\<forall>j. task_of (data v) j = (if j = i then map_option (keep_columns s) (task_of (data w) j)
      else task_of (data w) j)" unfolding task_changed_def id by blast
  have "task_of (data w) j = Some x \<longleftrightarrow> task_of (data v) j = Some x" if "task_TeamID x \<noteq> task_TeamID t" for j x
    using that s updated(2) keep_ids by (cases "j = i") auto
  then show ?thesis by (rule coherent_invalidate [OF w updated(4) coh updated(5) inv])
qed

end

end
