(* ===== verification/Team_Service.thy ===== *)
theory Team_Service
  imports Runtime
begin

text \<open>
  \<open>internal/service/team/team.go\<close>: creating teams, listing a user's teams and inviting users;
  and the e-mail client of \<open>internal/circuitbreaker/email.go\<close> that sends the invitations.
\<close>

section \<open>The service\<close>

record 'w team_service =
  tms_CreateTeamWithOwner :: "Team \<Rightarrow> uuid \<Rightarrow> ('w, unit) op"
  tms_SaveMember :: "uuid \<Rightarrow> uuid \<Rightarrow> Role \<Rightarrow> ('w, unit) op"
  tms_GetTeamsByUser :: "uuid \<Rightarrow> ('w, Team list) op"
  tms_GetTeamByID :: "uuid \<Rightarrow> ('w, Team) op"
  tms_GetMemberRole :: "uuid \<Rightarrow> uuid \<Rightarrow> ('w, Role) op"
  tms_GetByID :: "uuid \<Rightarrow> ('w, User) op"
  tms_SendInvite :: "string \<Rightarrow> string \<Rightarrow> ('w, unit) op"
  tms_NewV7 :: "('w, uuid) op"
  tms_Now :: "('w, time) state"

text \<open>\<open>New\<close>: an interface is the tuple of its methods; the last argument holds the library functions.\<close>

fun team_New where
  "team_New (createTeamWithOwner, saveMember) (getTeamsByUser, getTeamByID, getMemberRole) userGetter mailer (newV7, now) =
     \<lparr>tms_CreateTeamWithOwner = createTeamWithOwner, tms_SaveMember = saveMember,
      tms_GetTeamsByUser = getTeamsByUser, tms_GetTeamByID = getTeamByID, tms_GetMemberRole = getMemberRole,
      tms_GetByID = userGetter, tms_SendInvite = mailer, tms_NewV7 = newV7, tms_Now = now\<rparr>"

definition team_Create :: "'w team_service \<Rightarrow> uuid \<Rightarrow> string \<Rightarrow> ('w, Team) op" where
  "team_Create s ownerID name =
     try_or (errorf ''team.Service.Create: generate team id: '') (tms_NewV7 s) (\<lambda>i. do {
       now \<leftarrow> tms_Now s;
       let team = \<lparr>team_ID = i, team_Name = name, team_CreatedBy = ownerID, team_CreatedAt = now\<rparr>;
       try_or (errorf ''team.Service.Create: create team with owner: '') (tms_CreateTeamWithOwner s team ownerID)
         (\<lambda>_. State_Monad.return (Inr team)) })"

definition team_ListForUser :: "'w team_service \<Rightarrow> uuid \<Rightarrow> ('w, Team list) op" where
  "team_ListForUser s userID =
     try_or (errorf ''team.Service.ListForUser: get teams by user: '') (tms_GetTeamsByUser s userID)
       (\<lambda>teams. State_Monad.return (Inr teams))"

definition team_Invite :: "'w team_service \<Rightarrow> uuid \<Rightarrow> uuid \<Rightarrow> uuid \<Rightarrow> ('w, unit) op" where
  "team_Invite s callerID teamID targetUserID =
     try_or (errorf ''team.Service.Invite: get team: '') (tms_GetTeamByID s teamID) (\<lambda>team.
     try_or (forbidden_or ''team.Service.Invite: get member role: '') (tms_GetMemberRole s teamID callerID) (\<lambda>role.
     if role = RoleMember then State_Monad.return (Inl (Sentinel ErrForbidden))
     else
     try_or (errorf ''team.Service.Invite: get target user: '') (tms_GetByID s targetUserID) (\<lambda>target.
     try_or (errorf ''team.Service.Invite: save member: '') (tms_SaveMember s teamID targetUserID RoleMember) (\<lambda>_. do {
       _ \<leftarrow> tms_SendInvite s (user_Email target) (team_Name team);
       State_Monad.return (Inr ()) }))))"

section \<open>The e-mail client\<close>

text \<open>
  \<open>gobreaker\<close> either refuses the call or runs it; the HTTP exchange reports whether the
  request reached the service and the status or transport error.
\<close>

definition http_Do :: "runtime \<Rightarrow> email \<Rightarrow> (world, nat) op" where
  "http_Do rt m = State (\<lambda>w.
     case rt_Do rt (tick w) of (reached, r) \<Rightarrow>
       (r, if reached then (advance w)\<lparr>outbox := outbox w @ [m]\<rparr> else advance w))"

definition send_request :: "runtime \<Rightarrow> string \<Rightarrow> string \<Rightarrow> string \<Rightarrow> (world, unit) op" where
  "send_request rt baseURL to teamName =
     (let url = baseURL @ ''/send'' in
      case rt_Request rt url of
        Some e \<Rightarrow> State_Monad.return (Inl (errorf ''build request: '' e))
      | None \<Rightarrow> try_or (errorf ''email service unreachable: '')
          (http_Do rt \<lparr>mail_url = url, mail_to = to, mail_team = teamName\<rparr>) (\<lambda>status.
            if status \<ge> 500 then State_Monad.return (Inl (ErrorString (''email service: status '' @ fmt_d (int status))))
            else State_Monad.return (Inr ())))"

definition SendInvite :: "runtime \<Rightarrow> string \<Rightarrow> string \<Rightarrow> string \<Rightarrow> (world, unit) op" where
  "SendInvite rt baseURL to teamName =
     (if baseURL = '''' then State_Monad.return (Inr ())
      else do {
        w \<leftarrow> State_Monad.get;
        case rt_Breaker rt (tick w) of
          Some e \<Rightarrow> State_Monad.return (Inl e)
        | None \<Rightarrow> send_request rt baseURL to teamName })"

definition mail_sent :: "string \<Rightarrow> string \<Rightarrow> string \<Rightarrow>
  (string \<times> bytes \<times> time option) list \<times> email list \<Rightarrow> (string \<times> bytes \<times> time option) list \<times> email list" where
  "mail_sent baseURL to teamName r =
     (fst r, snd r @ [\<lparr>mail_url = baseURL @ ''/send'', mail_to = to, mail_team = teamName\<rparr>])"

lemma SendInvite_run:
  assumes "run_state (SendInvite rt url to name) w = (x, w')"
  shows "db w' = db w \<and> tx w' = tx w \<and> tick w \<le> tick w' \<and>
    (outside w' = outside w \<or> outside w' = mail_sent url to name (outside w))"
  using assms
  by (auto simp: SendInvite_def send_request_def http_Do_def try_or_def Let_def outside_def mail_sent_def
      split: if_splits option.splits prod.splits sum.splits)

interpretation email_client: notifier "base_inv P srv" db outside "SendInvite rt url" "mail_sent url"
  for P srv rt url
proof (unfold_locales, goal_cases)
  case (1 w to name x w')
  from SendInvite_run [OF 1(2)] base_inv_frame [OF 1(1)] show ?case by simp
qed

section \<open>What the operations guarantee\<close>

text \<open>Who may invite: a member whose role is not the plain one.\<close>

definition may_invite :: "(uuid \<Rightarrow> uuid \<Rightarrow> Role option) \<Rightarrow> uuid \<Rightarrow> uuid \<Rightarrow> bool" where
  "may_invite rl callerID teamID \<longleftrightarrow> (\<exists>x. rl teamID callerID = Some x \<and> x \<noteq> RoleMember)"

locale team_service_deps =
  team_store good data rest "tms_GetMemberRole S" role_of "tms_CreateTeamWithOwner S" "tms_SaveMember S"
    "tms_GetTeamsByUser S" "tms_GetTeamByID S" "tms_GetByID S" team_of user_of teams_of others_of norm_team +
  notifier good data rest "tms_SendInvite S" mailed
  for good :: "'w \<Rightarrow> bool" and data :: "'w \<Rightarrow> 'd" and rest :: "'w \<Rightarrow> 'r" and S :: "'w team_service"
    and role_of :: "'d \<Rightarrow> uuid \<Rightarrow> uuid \<Rightarrow> Role option" and team_of :: "'d \<Rightarrow> uuid \<Rightarrow> Team option"
    and user_of :: "'d \<Rightarrow> uuid \<Rightarrow> User option" and teams_of :: "'d \<Rightarrow> Team list" and others_of :: "'d \<Rightarrow> 'v"
    and norm_team :: "Team \<Rightarrow> Team option" and mailed :: "string \<Rightarrow> string \<Rightarrow> 'r \<Rightarrow> 'r" +
  assumes now_quiet: "quiet good data rest (tms_Now S)"
    and newv7_quiet: "quiet good data rest (tms_NewV7 S)"
    and newv7_failed: "good w \<Longrightarrow> run_state (tms_NewV7 S) w = (Inl e, w') \<Longrightarrow> \<not> errors_Is e g"
begin

abbreviation saved where
  "saved \<equiv> member_saved role_of team_of others_of"

abbreviation added where
  "added \<equiv> team_added role_of team_of others_of norm_team"

text \<open>Every outcome of \<open>Create\<close>.\<close>

lemma Create_run:
  assumes w: "good w" and run: "run_state (team_Create S owner name) w = (r, w')"
  shows "good w' \<and> rest w' = rest w \<and>
    (case r of
       Inr team \<Rightarrow> team_Name team = name \<and> team_CreatedBy team = owner \<and> added team owner (data w) (data w')
     | Inl e \<Rightarrow> (\<forall>g. \<not> errors_Is e g) \<and> (data w' = data w \<or>
         (\<exists>team. team_Name team = name \<and> team_CreatedBy team = owner \<and> added team owner (data w) (data w'))))"
  using newv7_quiet w run [unfolded team_Create_def]
proof (cases rule: quiet_try_or)
  case (err e)
  with newv7_failed [OF w err(1)] show ?thesis by auto
next
  case (ok i v)
  let ?team = "\<lambda>now. \<lparr>team_ID = i, team_Name = name, team_CreatedBy = owner, team_CreatedAt = now\<rparr>"
  from now_quiet ok(2,5) obtain now v2 where v2: "good v2" "data v2 = data v" "rest v2 = rest v"
    and run2: "run_state (try_or (errorf ''team.Service.Create: create team with owner: '')
      (tms_CreateTeamWithOwner S (?team now) owner) (\<lambda>_. State_Monad.return (Inr (?team now)))) v2 = (r, w')"
    by (rule quiet_bind_step) (auto simp: Let_def)
  from run2 show ?thesis
  proof (cases rule: try_or_cases)
    case (err e)
    from create_run [OF v2(1) err(1)] storesD [OF create_stores v2(1) err(1)] v2 ok(3,4) err(2)
    show ?thesis by (force simp: ok(3))
  next
    case (ok x v3)
    from create_run [OF v2(1) ok(1)] storesD [OF create_stores v2(1) ok(1)] v2 \<open>data v = data w\<close> \<open>rest v = rest w\<close> ok(2)
    show ?thesis by auto
  qed
qed

text \<open>Every outcome of \<open>Invite\<close>.\<close>

lemma Invite_cases:
  assumes w: "good w" and run: "run_state (team_Invite S c t u) w = (r, w')"
  obtains (refused) e where "r = Inl e" "errors_Is e ErrForbidden \<Longrightarrow> \<not> may_invite (role_of (data w)) c t"
      "errors_Is e ErrNotFound \<Longrightarrow> team_of (data w) t = None \<or> may_invite (role_of (data w)) c t \<and> user_of (data w) u = None"
      "good w'" "data w' = data w" "rest w' = rest w"
  | (unsure) e where "r = Inl e" "\<And>g. \<not> errors_Is e g" "may_invite (role_of (data w)) c t"
      "good w'" "rest w' = rest w" "data w' = data w \<or> saved t u RoleMember (data w) (data w')"
  | (invited) team usr where "r = Inr ()" "team_of (data w) t = Some team" "may_invite (role_of (data w)) c t"
      "user_of (data w) u = Some usr" "good w'" "saved t u RoleMember (data w) (data w')"
      "rest w' = rest w \<or> rest w' = mailed (user_Email usr) (team_Name team) (rest w)"
  using team_quiet w run [unfolded team_Invite_def]
proof (cases rule: quiet_try_or)
  case (err e)
  with team_missing [OF w err(1)] team_failed [OF err(1)] that(1) show thesis by auto
next
  case (ok team v)
  note team = team_found [OF w ok(1)] and dv = ok(3,4)
  from ok(2,5) show thesis
  proof (cases rule: check_member)
    case (denied e)
    with dv that(1) show thesis by (auto simp: may_invite_def)
  next
    case (passed x v2)
    note dv2 = passed(3,4) and role = passed(1) and good2 = passed(2)
    show thesis
    proof (cases "x = RoleMember")
      case True
      with passed dv that(1) show thesis by (auto simp: may_invite_def)
    next
      case False
      with role dv have may: "may_invite (role_of (data w)) c t" by (simp add: may_invite_def)
      from passed(5) False have "run_state (try_or (errorf ''team.Service.Invite: get target user: '') (tms_GetByID S u) (\<lambda>target.
          try_or (errorf ''team.Service.Invite: save member: '') (tms_SaveMember S t u RoleMember) (\<lambda>_.
            tms_SendInvite S (user_Email target) (team_Name team) \<bind> (\<lambda>_. State_Monad.return (Inr ()))))) v2 = (r, w')"
        by simp
      with user_quiet good2 show thesis
      proof (cases rule: quiet_try_or)
        case (err e)
        with user_missing [OF good2 err(1)] user_failed [OF err(1)] dv dv2 may that(1) show thesis by auto
      next
        case (ok usr v3)
        have usr: "user_of (data w) u = Some usr" using user_found [OF good2 ok(1)] dv dv2 by simp
        have d3: "data v3 = data w" "rest v3 = rest w" using ok dv dv2 by simp_all
        from ok(5) show thesis
        proof (cases rule: try_or_cases)
          case (err e)
          with member_run [OF ok(2) err(1)] storesD [OF member_stores ok(2) err(1)] d3
          show thesis by (intro that(2) [OF err(2) _ may]) auto
        next
          case (ok y v4)
          note mem = member_run [OF \<open>good v3\<close> ok(1)] and st = storesD [OF member_stores \<open>good v3\<close> ok(1)]
          from ok(2) obtain z where send: "run_state (tms_SendInvite S (user_Email usr) (team_Name team)) v4 = (z, w')"
            and r: "r = Inr ()" by (auto split: prod.splits)
          from send_run [OF _ send] st mem d3 show thesis by (intro that(3) [OF r team may usr]) auto
        qed
      qed
    qed
  qed
qed

lemma ListForUser_run:
  assumes w: "good w" and run: "run_state (team_ListForUser S u) w = (Inr ts, w')"
  shows "good w' \<and> data w' = data w \<and> rest w' = rest w \<and>
    mset ts = mset (filter (\<lambda>t. role_of (data w) (team_ID t) u \<noteq> None) (teams_of (data w)))"
  using teams_quiet w run [unfolded team_ListForUser_def]
proof (cases rule: quiet_try_or)
  case (ok xs v)
  with teams_found [OF w ok(1)] show ?thesis by simp
qed simp

end

end
