(* ===== verification/Comment_Service.thy ===== *)
theory Comment_Service
  imports Runtime
begin

text \<open>\<open>internal/service/comment/comment.go\<close>: comments on tasks, for members of the task's team.\<close>

record 'w comment_service =
  csv_SaveComment :: "Comment \<Rightarrow> ('w, Comment) op"
  csv_ListComments :: "uuid \<Rightarrow> ('w, Comment list) op"
  csv_GetTaskByID :: "uuid \<Rightarrow> ('w, Task) op"
  csv_GetMemberRole :: "uuid \<Rightarrow> uuid \<Rightarrow> ('w, Role) op"

fun comment_New where
  "comment_New saver lister taskGetter members =
     \<lparr>csv_SaveComment = saver, csv_ListComments = lister, csv_GetTaskByID = taskGetter, csv_GetMemberRole = members\<rparr>"

definition comment_Add :: "'w comment_service \<Rightarrow> uuid \<Rightarrow> uuid \<Rightarrow> string \<Rightarrow> ('w, Comment) op" where
  "comment_Add s callerID taskID body =
     try_or (errorf ''comment.Service.Add: get task: '') (csv_GetTaskByID s taskID) (\<lambda>task.
     try_or (forbidden_or ''comment.Service.Add: get member role: '')
       (csv_GetMemberRole s (task_TeamID task) callerID) (\<lambda>_.
     try_or (errorf ''comment.Service.Add: save comment: '')
       (csv_SaveComment s \<lparr>comment_ID = 0, comment_TaskID = taskID, comment_UserID = callerID,
          comment_Body = body, comment_CreatedAt = zero_time\<rparr>) (\<lambda>c.
       State_Monad.return (Inr c))))"

definition comment_List :: "'w comment_service \<Rightarrow> uuid \<Rightarrow> uuid \<Rightarrow> ('w, Comment list) op" where
  "comment_List s callerID taskID =
     try_or (errorf ''comment.Service.List: get task: '') (csv_GetTaskByID s taskID) (\<lambda>task.
     try_or (forbidden_or ''comment.Service.List: get member role: '')
       (csv_GetMemberRole s (task_TeamID task) callerID) (\<lambda>_.
     try_or (errorf ''comment.Service.List: list comments: '') (csv_ListComments s taskID) (\<lambda>cs.
       State_Monad.return (Inr cs))))"

section \<open>What the operations guarantee\<close>

definition may_comment :: "(uuid \<Rightarrow> Task option) \<Rightarrow> (uuid \<Rightarrow> uuid \<Rightarrow> Role option) \<Rightarrow> uuid \<Rightarrow> uuid \<Rightarrow> bool" where
  "may_comment tk rl callerID taskID \<longleftrightarrow> (\<exists>t. tk taskID = Some t \<and> rl (task_TeamID t) callerID \<noteq> None)"

definition comment_added :: "('d \<Rightarrow> uuid \<Rightarrow> Comment list) \<Rightarrow> ('d \<Rightarrow> 'v) \<Rightarrow> uuid \<Rightarrow> Comment \<Rightarrow> 'd \<Rightarrow> 'd \<Rightarrow> bool" where
  "comment_added comments_of others_of i s d d' \<longleftrightarrow>
     comments_of d' = (comments_of d)(i := comments_of d i @ [s]) \<and> others_of d' = others_of d"

locale comment_service_deps =
  task_getter good data rest "csv_GetTaskByID S" task_of +
  member_checker good data rest "csv_GetMemberRole S" role_of +
  comment_store good data rest "csv_SaveComment S" "csv_ListComments S" comments_of others_of same_comment
  for good :: "'w \<Rightarrow> bool" and data :: "'w \<Rightarrow> 'd" and rest :: "'w \<Rightarrow> 'r" and S :: "'w comment_service"
    and task_of :: "'d \<Rightarrow> uuid \<Rightarrow> Task option" and role_of :: "'d \<Rightarrow> uuid \<Rightarrow> uuid \<Rightarrow> Role option"
    and comments_of :: "'d \<Rightarrow> uuid \<Rightarrow> Comment list" and others_of :: "'d \<Rightarrow> 'v"
    and same_comment :: "Comment \<Rightarrow> Comment \<Rightarrow> bool"
begin

text \<open>The check that both operations start with.\<close>

lemma check_task_member:
  assumes w: "good w" and run: "run_state (try_or (errorf p) (csv_GetTaskByID S i) (\<lambda>task.
      try_or (forbidden_or q) (csv_GetMemberRole S (task_TeamID task) c) (\<lambda>_. m))) w = (r, w')"
  obtains (refused) e where "r = Inl e" "\<not> (errors_Is e ErrForbidden \<and> may_comment (task_of (data w)) (role_of (data w)) c i)"
      "good w'" "data w' = data w" "rest w' = rest w"
  | (passed) v where "may_comment (task_of (data w)) (role_of (data w)) c i" "good v" "data v = data w" "rest v = rest w"
      "run_state m v = (r, w')"
  using task_quiet w run
proof (cases rule: quiet_try_or)
  case (err e)
  with task_failed [OF err(1)] that(1) show thesis by auto
next
  case (ok t v)
  note t = task_found [OF w ok(1)] and dv = ok(3,4)
  from ok(2,5) show thesis
  proof (cases rule: check_member)
    case (denied e)
    with t dv that(1) show thesis by (auto simp: may_comment_def)
  next
    case (passed x v2)
    with t dv that(2) show thesis by (auto simp: may_comment_def)
  qed
qed

abbreviation added where
  "added \<equiv> comment_added comments_of others_of"

lemma Add_run:
  assumes w: "good w" and run: "run_state (comment_Add S c i body) w = (r, w')"
  shows "good w' \<and> rest w' = rest w \<and>
    (case r of
       Inr k \<Rightarrow> may_comment (task_of (data w)) (role_of (data w)) c i \<and>
         comment_TaskID k = i \<and> comment_UserID k = c \<and> comment_Body k = body \<and> comment_CreatedAt k = zero_time \<and>
         (\<exists>s. same_comment (k\<lparr>comment_ID := 0\<rparr>) s \<and> comment_ID s = comment_ID k \<and> added i s (data w) (data w'))
     | Inl e \<Rightarrow> (data w' = data w \<or> may_comment (task_of (data w)) (role_of (data w)) c i \<and>
         (\<exists>s. added i s (data w) (data w'))) \<and>
         \<not> (errors_Is e ErrForbidden \<and> may_comment (task_of (data w)) (role_of (data w)) c i))"
  using w run [unfolded comment_Add_def]
proof (cases rule: check_task_member)
  case (refused e)
  then show ?thesis by auto
next
  case (passed v)
  from passed(5) show ?thesis
  proof (cases rule: try_or_cases)
    case (err e)
    from comment_run [OF passed(2) err(1)] storesD [OF comment_stores passed(2) err(1)] err(2) passed
    show ?thesis by (auto simp: comment_added_def)
  next
    case (ok k v2)
    from comment_run [OF passed(2) ok(1)] storesD [OF comment_stores passed(2) ok(1)] ok(2) passed
    show ?thesis by (auto simp: comment_added_def)
  qed
qed

lemma List_run:
  assumes w: "good w" and run: "run_state (comment_List S c i) w = (r, w')"
  shows "good w' \<and> data w' = data w \<and> rest w' = rest w \<and>
    (case r of
       Inr cs \<Rightarrow> may_comment (task_of (data w)) (role_of (data w)) c i \<and> mset cs = mset (comments_of (data w) i) \<and>
         sorted_wrt (\<lambda>a b. comment_CreatedAt a \<le> comment_CreatedAt b) cs
     | Inl e \<Rightarrow> \<not> (errors_Is e ErrForbidden \<and> may_comment (task_of (data w)) (role_of (data w)) c i))"
  using w run [unfolded comment_List_def]
proof (cases rule: check_task_member)
  case (refused e)
  then show ?thesis by auto
next
  case (passed v)
  from comments_quiet passed(2,5) show ?thesis
  proof (cases rule: quiet_try_or)
    case (err e)
    with comments_failed [OF err(1)] passed show ?thesis by auto
  next
    case (ok cs v2)
    with comments_found [OF passed(2) ok(1)] passed show ?thesis by auto
  qed
qed

end

end
