(* ===== verification/Auth_Service.thy ===== *)
theory Auth_Service
  imports Runtime
begin

text \<open>
  \<open>internal/service/auth/auth.go\<close>: registration and login.  bcrypt and the JWT library are
  parameters; a token is the signature over the subject and the expiry in seconds.
\<close>

record 'w auth_service =
  asv_SaveUser :: "User \<Rightarrow> ('w, unit) op"
  asv_GetByEmail :: "string \<Rightarrow> ('w, User) op"
  asv_secret :: string
  asv_expiry :: time
  asv_Generate :: "string \<Rightarrow> ('w, string) op"
  asv_Compare :: "string \<Rightarrow> string \<Rightarrow> bool"
  asv_NewV7 :: "('w, uuid) op"
  asv_Now :: "('w, time) state"
  asv_String :: "uuid \<Rightarrow> string"
  asv_Sign :: "string \<Rightarrow> string \<times> int \<Rightarrow> err + string"

text \<open>\<open>New\<close>, with the functions of the libraries as the last argument.\<close>

fun auth_New where
  "auth_New userSaver userGetter secret expiry (generate, compare, newV7, now, str, sign) =
     \<lparr>asv_SaveUser = userSaver, asv_GetByEmail = userGetter, asv_secret = secret, asv_expiry = expiry,
      asv_Generate = generate, asv_Compare = compare, asv_NewV7 = newV7, asv_Now = now, asv_String = str,
      asv_Sign = sign\<rparr>"

definition Unix :: "time \<Rightarrow> int" where
  "Unix t = t div 1000000000"

text \<open>The part of \<open>Register\<close> after the address was found to be free.\<close>

definition register_user :: "'w auth_service \<Rightarrow> string \<Rightarrow> string \<Rightarrow> string \<Rightarrow> ('w, unit) op" where
  "register_user s email name password =
     try_or (errorf ''auth.Service.Register: hash password: '') (asv_Generate s password) (\<lambda>hash.
     try_or (errorf ''auth.Service.Register: generate user id: '') (asv_NewV7 s) (\<lambda>i. do {
       now \<leftarrow> asv_Now s;
       try_or (errorf ''auth.Service.Register: save user: '')
         (asv_SaveUser s \<lparr>user_ID = i, user_Email = email, user_Name = name, user_Password = hash, user_CreatedAt = now\<rparr>)
         (\<lambda>_. State_Monad.return (Inr ())) }))"

definition auth_Register :: "'w auth_service \<Rightarrow> string \<Rightarrow> string \<Rightarrow> string \<Rightarrow> ('w, unit) op" where
  "auth_Register s email name password = do {
     u \<leftarrow> asv_GetByEmail s email;
     case u of
       Inr _ \<Rightarrow> State_Monad.return (Inl (Wrapped '''' (Sentinel ErrConflict) '': email already registered''))
     | Inl e \<Rightarrow>
         if \<not> errors_Is e ErrNotFound then State_Monad.return (Inl (errorf ''auth.Service.Register: get by email: '' e))
         else register_user s email name password }"

definition login_error :: "err \<Rightarrow> err" where
  "login_error e =
     (if errors_Is e ErrNotFound then Sentinel ErrUnauthorized else errorf ''auth.Service.Login: get by email: '' e)"

definition auth_Login :: "'w auth_service \<Rightarrow> string \<Rightarrow> string \<Rightarrow> ('w, string) op" where
  "auth_Login s email password =
     try_or login_error (asv_GetByEmail s email) (\<lambda>user.
     if \<not> asv_Compare s (user_Password user) password then State_Monad.return (Inl (Sentinel ErrUnauthorized))
     else do {
       now \<leftarrow> asv_Now s;
       State_Monad.return (on_err (errorf ''auth.Service.Login: sign token: '')
         (asv_Sign s (asv_secret s) (asv_String s (user_ID user), Unix (now + asv_expiry s)))) })"

section \<open>What the operations guarantee\<close>

text \<open>A new account: the stored form of the user, with a hash of the password.\<close>

definition account_added ::
  "('d \<Rightarrow> string \<Rightarrow> User option) \<Rightarrow> ('d \<Rightarrow> 'v) \<Rightarrow> (string \<Rightarrow> string \<Rightarrow> bool) \<Rightarrow> (User \<Rightarrow> User option) \<Rightarrow>
   (string \<Rightarrow> string \<Rightarrow> bool) \<Rightarrow> string \<Rightarrow> string \<Rightarrow> string \<Rightarrow> 'd \<Rightarrow> 'd \<Rightarrow> bool" where
  "account_added account_of others_of same_email norm_user compare email name password d d' \<longleftrightarrow>
     (\<exists>usr s. user_Email usr = email \<and> user_Name usr = name \<and>
        norm_user usr = Some s \<and> compare (user_Password s) password \<and> account_of d (user_Email s) = None \<and>
        (\<forall>m. account_of d' m = (if same_email m (user_Email s) then Some s else account_of d m)) \<and>
        others_of d' = others_of d)"

locale auth_service_deps =
  user_store good data rest "asv_SaveUser S" "asv_GetByEmail S" account_of others_of same_email norm_user
  for good :: "'w \<Rightarrow> bool" and data :: "'w \<Rightarrow> 'd" and rest :: "'w \<Rightarrow> 'r" and S :: "'w auth_service"
    and account_of :: "'d \<Rightarrow> string \<Rightarrow> User option" and others_of :: "'d \<Rightarrow> 'v"
    and same_email :: "string \<Rightarrow> string \<Rightarrow> bool" and norm_user :: "User \<Rightarrow> User option" +
  assumes now_quiet: "quiet good data rest (asv_Now S)"
    and newv7_quiet: "quiet good data rest (asv_NewV7 S)"
    and newv7_failed: "good w \<Longrightarrow> run_state (asv_NewV7 S) w = (Inl e, w') \<Longrightarrow> \<not> errors_Is e g"
    and hash_quiet: "quiet good data rest (asv_Generate S pw)"
    and hash_failed: "good w \<Longrightarrow> run_state (asv_Generate S pw) w = (Inl e, w') \<Longrightarrow> \<not> errors_Is e g"
    and hash_matches: "good w \<Longrightarrow> run_state (asv_Generate S pw) w = (Inr h, w') \<Longrightarrow> asv_Compare S h pw"
    and hash_stored: "good w \<Longrightarrow> run_state (asv_Generate S pw) w = (Inr h, w') \<Longrightarrow> user_Password usr = h \<Longrightarrow>
      norm_user usr = Some s \<Longrightarrow> user_Password s = h"
    and sign_failed: "asv_Sign S k claims = Inl e \<Longrightarrow> good w \<Longrightarrow> \<not> errors_Is e g"
begin

abbreviation registered where
  "registered \<equiv> account_added account_of others_of same_email norm_user (asv_Compare S)"

lemma register_user_run:
  assumes w: "good w" and run: "run_state (register_user S email name password) w = (r, w')"
  shows "good w' \<and> rest w' = rest w \<and>
    (registered email name password (data w) (data w') \<and> (case r of Inr _ \<Rightarrow> True | Inl e \<Rightarrow> \<forall>g. \<not> errors_Is e g) \<or>
     data w' = data w \<and> (\<exists>e. r = Inl e \<and> (\<forall>g. errors_Is e g \<longrightarrow> g = ErrConflict)))"
  using hash_quiet w run [unfolded register_user_def]
proof (cases rule: quiet_try_or)
  case (err x)
  with hash_failed [OF w err(1)] show ?thesis by auto
next
  case (ok h v)
  note h = ok
  from newv7_quiet h(2,5) show ?thesis
  proof (cases rule: quiet_try_or)
    case (err x)
    with newv7_failed [OF h(2) err(1)] h show ?thesis by auto
  next
    case (ok i v2)
    let ?u = "\<lambda>now. \<lparr>user_ID = i, user_Email = email, user_Name = name, user_Password = h, user_CreatedAt = now\<rparr>"
    from now_quiet ok(2,5) obtain now v3 where v3: "good v3" "data v3 = data v2" "rest v3 = rest v2"
      and save: "run_state (try_or (errorf ''auth.Service.Register: save user: '') (asv_SaveUser S (?u now))
        (\<lambda>_. State_Monad.return (Inr ()))) v3 = (r, w')" by (rule quiet_bind_step)
    have d: "data v3 = data w" "rest v3 = rest w" using v3 ok h by simp_all
    obtain x where sv: "run_state (asv_SaveUser S (?u now)) v3 = (x, w')"
      and r: "r = on_err (errorf ''auth.Service.Register: save user: '') x"
      using save by (cases rule: try_or_cases) auto
    from user_saved [OF v3(1) sv] show ?thesis
    proof (elim disjE exE conjE)
      fix s
      assume s: "norm_user (?u now) = Some s" "account_of (data v3) (user_Email s) = None"
        "\<forall>m. account_of (data w') m = (if same_email m (user_Email s) then Some s else account_of (data v3) m)"
        "others_of (data w') = others_of (data v3)" "case x of Inl e \<Rightarrow> \<forall>g. \<not> errors_Is e g | Inr _ \<Rightarrow> True"
      have "asv_Compare S (user_Password s) password"
        using hash_stored [OF w h(1) _ s(1)] hash_matches [OF w h(1)] by simp
      with s d have "registered email name password (data w) (data w')"
        unfolding account_added_def by (intro exI [of _ "?u now"] exI [of _ s]) simp
      with s(5) r storesD [OF user_stores v3(1) sv] d show ?thesis by (cases x) simp_all
    next
      fix e
      assume "data w' = data v3" "x = Inl e" "\<forall>g. errors_Is e g \<longrightarrow> g = ErrConflict"
      with r storesD [OF user_stores v3(1) sv] d show ?thesis by simp
    qed
  qed
qed

lemma Register_run:
  assumes w: "good w" and run: "run_state (auth_Register S email name password) w = (r, w')"
  shows "good w' \<and> rest w' = rest w \<and>
    (case r of
       Inr _ \<Rightarrow> account_of (data w) email = None \<and> registered email name password (data w) (data w')
     | Inl e \<Rightarrow> (data w' = data w \<or> account_of (data w) email = None \<and> registered email name password (data w) (data w')) \<and>
         (\<forall>g. errors_Is e g \<longrightarrow> g = ErrConflict \<and> data w' = data w))"
proof -
  from account_quiet w run [unfolded auth_Register_def]
  obtain u v where u: "run_state (asv_GetByEmail S email) w = (u, v)" "good v" "data v = data w" "rest v = rest w"
    and rest: "run_state (case u of
       Inr _ \<Rightarrow> State_Monad.return (Inl (Wrapped '''' (Sentinel ErrConflict) '': email already registered''))
     | Inl e \<Rightarrow>
         if \<not> errors_Is e ErrNotFound then State_Monad.return (Inl (errorf ''auth.Service.Register: get by email: '' e))
         else register_user S email name password) v = (r, w')" by (rule quiet_bind_step)
  consider (taken) x where "u = Inr x" | (missing) e where "u = Inl e" "errors_Is e ErrNotFound"
    | (failed) e where "u = Inl e" "\<not> errors_Is e ErrNotFound" by (cases u) auto
  then show ?thesis
  proof cases
    case taken
    with rest u show ?thesis by auto
  next
    case (failed e)
    with account_missing [OF w] u rest show ?thesis by fastforce
  next
    case (missing e)
    with account_missing [OF w] u have none: "account_of (data w) email = None" by blast
    from rest missing have "run_state (register_user S email name password) v = (r, w')" by simp
    from register_user_run [OF u(2) this] none u show ?thesis by (cases r) auto
  qed
qed

lemma Login_run:
  assumes w: "good w" and run: "run_state (auth_Login S email password) w = (r, w')"
  shows "good w' \<and> data w' = data w \<and> rest w' = rest w \<and>
    (case r of
       Inr token \<Rightarrow> (\<exists>usr now. account_of (data w) email = Some usr \<and> asv_Compare S (user_Password usr) password \<and>
         asv_Sign S (asv_secret S) (asv_String S (user_ID usr), Unix (now + asv_expiry S)) = Inr token)
     | Inl e \<Rightarrow> \<forall>g. errors_Is e g \<longrightarrow> g = ErrUnauthorized \<and>
         (case account_of (data w) email of None \<Rightarrow> True | Some usr \<Rightarrow> \<not> asv_Compare S (user_Password usr) password))"
  using account_quiet w run [unfolded auth_Login_def]
proof (cases rule: quiet_try_or)
  case (err e)
  with account_missing [OF w err(1)] show ?thesis by (auto simp: login_error_def)
next
  case (ok usr v)
  note usr = account_found [OF w ok(1)] and v = ok
  show ?thesis
  proof (cases "asv_Compare S (user_Password usr) password")
    case False
    with ok usr show ?thesis by auto
  next
    case True
    with ok(5) have "run_state (asv_Now S \<bind> (\<lambda>now. State_Monad.return (on_err (errorf ''auth.Service.Login: sign token: '')
         (asv_Sign S (asv_secret S) (asv_String S (user_ID usr), Unix (now + asv_expiry S)))))) v = (r, w')" by simp
    with now_quiet v(2) obtain now v2 where v2: "good v2" "data v2 = data v" "rest v2 = rest v"
      and ret: "run_state (State_Monad.return (on_err (errorf ''auth.Service.Login: sign token: '')
         (asv_Sign S (asv_secret S) (asv_String S (user_ID usr), Unix (now + asv_expiry S))))) v2 = (r, w')"
      by (rule quiet_bind_step)
    then have "w' = v2" and r: "r = on_err (errorf ''auth.Service.Login: sign token: '')
         (asv_Sign S (asv_secret S) (asv_String S (user_ID usr), Unix (now + asv_expiry S)))"
      by simp_all
    with True usr v v2 sign_failed w show ?thesis
      by (cases "asv_Sign S (asv_secret S) (asv_String S (user_ID usr), Unix (now + asv_expiry S))") auto
  qed
qed

end

end
