(* ===== verification/Analytics_Service.thy ===== *)
theory Analytics_Service
  imports Runtime
begin

text \<open>\<open>internal/service/analytics/analytics.go\<close>: the three reports, passed through.\<close>

record 'w analytics_service =
  nsv_TeamSummaries :: "('w, TeamSummary list) op"
  nsv_TopContributors :: "('w, TopContributor list) op"
  nsv_OrphanTasks :: "('w, OrphanTask list) op"

fun analytics_New where
  "analytics_New summaries contributors orphans =
     \<lparr>nsv_TeamSummaries = summaries, nsv_TopContributors = contributors, nsv_OrphanTasks = orphans\<rparr>"

definition analytics_TeamSummaries :: "'w analytics_service \<Rightarrow> ('w, TeamSummary list) op" where
  "analytics_TeamSummaries s =
     try_or (errorf ''analytics: team summaries: '') (nsv_TeamSummaries s) (\<lambda>r. State_Monad.return (Inr r))"

definition analytics_TopContributors :: "'w analytics_service \<Rightarrow> ('w, TopContributor list) op" where
  "analytics_TopContributors s =
     try_or (errorf ''analytics: top contributors: '') (nsv_TopContributors s) (\<lambda>r. State_Monad.return (Inr r))"

definition analytics_OrphanTasks :: "'w analytics_service \<Rightarrow> ('w, OrphanTask list) op" where
  "analytics_OrphanTasks s =
     try_or (errorf ''analytics: orphan tasks: '') (nsv_OrphanTasks s) (\<lambda>r. State_Monad.return (Inr r))"

lemma analytics_Inr:
  "run_state (analytics_TeamSummaries s) w = (Inr x, w') \<Longrightarrow> run_state (nsv_TeamSummaries s) w = (Inr x, w')"
  "run_state (analytics_TopContributors s) w = (Inr y, w') \<Longrightarrow> run_state (nsv_TopContributors s) w = (Inr y, w')"
  "run_state (analytics_OrphanTasks s) w = (Inr z, w') \<Longrightarrow> run_state (nsv_OrphanTasks s) w = (Inr z, w')"
  unfolding analytics_TeamSummaries_def analytics_TopContributors_def analytics_OrphanTasks_def
  by (auto elim!: try_or_cases)

end
