(* ===== verification/Handlers.thy ===== *)
theory Handlers
  imports Task_Service Team_Service Comment_Service Auth_Service Analytics_Service
begin

text \<open>
  \<open>internal/handler\<close>: the operations of the HTTP API.  A handler gets the user the middleware
  put into the context (if any) and the decoded request, calls one service and chooses the
  response; an error it does not recognise is returned and becomes status 500 with the
  error text (\<open>NewStrictHandler\<close> of \<open>api.gen.go\<close>).
\<close>

section \<open>API types\<close>

record api_Error =
  aer_Message :: string

record LoginResponse =
  lgr_Token :: string

record LoginRequest =
  lrq_Email :: string
  lrq_Password :: string

record RegisterRequest =
  rrq_Email :: string
  rrq_Name :: string
  rrq_Password :: string

record CreateTeamRequest =
  ctr_Name :: string

record InviteRequest =
  ivr_UserId :: uuid

record AddCommentRequest =
  acr_Body :: string

record CreateTaskRequest =
  ctr_AssigneeId :: "uuid option"
  ctr_Description :: "string option"
  ctr_DueDate :: "time option"
  ctr_Priority :: "string option"
  ctr_TeamId :: uuid
  ctr_Title :: string

record UpdateTaskRequest =
  utr_AssigneeId :: "uuid option"
  utr_Description :: "string option"
  utr_DueDate :: "time option"
  utr_Priority :: "string option"
  utr_Status :: "string option"
  utr_Title :: "string option"

record ListTasksParams =
  ltp_TeamId :: "uuid option"
  ltp_Status :: "string option"
  ltp_AssigneeId :: "uuid option"
  ltp_Page :: "goint option"
  ltp_Limit :: "goint option"

record api_task =
  at_AssigneeId :: "uuid option"
  at_CreatedAt :: time
  at_CreatedBy :: uuid
  at_Description :: "string option"
  at_DueDate :: "time option"
  at_Id :: uuid
  at_Priority :: string
  at_Status :: string
  at_TeamId :: uuid
  at_Title :: string
  at_UpdatedAt :: time

record api_history =
  ah_ChangedAt :: time
  ah_ChangedBy :: uuid
  ah_Field :: string
  ah_Id :: int
  ah_NewValue :: "string option"
  ah_OldValue :: "string option"
  ah_TaskId :: uuid

record api_team =
  am_CreatedAt :: time
  am_CreatedBy :: uuid
  am_Id :: uuid
  am_Name :: string

record api_comment =
  ac_Body :: string
  ac_CreatedAt :: time
  ac_Id :: int
  ac_TaskId :: uuid
  ac_UserId :: uuid

record TaskHistoryResponse =
  thr_History :: "api_history list"

record TaskListResponse =
  tlr_Limit :: goint
  tlr_Page :: goint
  tlr_Tasks :: "api_task list"
  tlr_Total :: nat

record ListTeams200JSONResponse =
  ltr_Teams :: "api_team list"

record api_summary =
  as_DoneLast7Days :: nat
  as_MemberCount :: nat
  as_Name :: string
  as_TeamId :: uuid

record api_contributor =
  aco_RankInTeam :: nat
  aco_TaskCount :: nat
  aco_TeamId :: uuid
  aco_UserId :: uuid

record api_orphan =
  ao_AssigneeId :: uuid
  ao_Id :: uuid
  ao_TeamId :: uuid
  ao_Title :: string

text \<open>A response with its status and body, an error message, or a returned error.\<close>

datatype 'a response = Reply nat 'a | Message nat string | Failed err

fun http_status :: "'a response \<Rightarrow> nat" where
  "http_status (Reply c _) = c"
| "http_status (Message c _) = c"
| "http_status (Failed _) = 500"

definition msgUnauthorized :: string where "msgUnauthorized = ''unauthorized''"
definition msgEmptyBody :: string where "msgEmptyBody = ''empty body''"
definition msgForbidden :: string where "msgForbidden = ''forbidden''"
definition msgTaskNotFound :: string where "msgTaskNotFound = ''task not found''"

record 'w handler =
  h_auth :: "'w auth_service"
  h_teams :: "'w team_service"
  h_tasks :: "'w task_service"
  h_comments :: "'w comment_service"
  h_analytics :: "'w analytics_service"

fun handler_New where
  "handler_New auth team task comment analytics =
     \<lparr>h_auth = auth, h_teams = team, h_tasks = task, h_comments = comment, h_analytics = analytics\<rparr>"

text \<open>The final \<open>switch\<close>: the first row whose sentinel the error is, in order.\<close>

fun switch_err :: "(sentinel \<times> nat \<times> string) list \<Rightarrow> err \<Rightarrow> 'a response" where
  "switch_err [] e = Failed e"
| "switch_err ((s, code, msg) # rows) e = (if errors_Is e s then Message code msg else switch_err rows e)"

definition respond ::
  "nat \<Rightarrow> ('a \<Rightarrow> 'b) \<Rightarrow> (sentinel \<times> nat \<times> string) list \<Rightarrow> ('w, 'a) op \<Rightarrow> ('w, 'b response) state" where
  "respond code f rows m = do {
     r \<leftarrow> m;
     State_Monad.return (case r of Inl e \<Rightarrow> switch_err rows e | Inr x \<Rightarrow> Reply code (f x)) }"

section \<open>Tasks\<close>

definition toAPITask :: "Task \<Rightarrow> api_task" where
  "toAPITask t =
     \<lparr>at_AssigneeId = task_AssigneeID t, at_CreatedAt = task_CreatedAt t, at_CreatedBy = task_CreatedBy t,
      at_Description = task_Description t, at_DueDate = task_DueDate t, at_Id = task_ID t,
      at_Priority = task_Priority t, at_Status = task_Status t, at_TeamId = task_TeamID t,
      at_Title = task_Title t, at_UpdatedAt = task_UpdatedAt t\<rparr>"

definition toAPIHistory :: "TaskHistory \<Rightarrow> api_history" where
  "toAPIHistory e =
     \<lparr>ah_ChangedAt = th_ChangedAt e, ah_ChangedBy = th_ChangedBy e, ah_Field = th_Field e, ah_Id = th_ID e,
      ah_NewValue = th_NewValue e, ah_OldValue = th_OldValue e, ah_TaskId = th_TaskID e\<rparr>"

definition create_input :: "CreateTaskRequest \<Rightarrow> CreateTaskInput" where
  "create_input b =
     \<lparr>cti_TeamID = ctr_TeamId b, cti_Title = ctr_Title b, cti_Description = ctr_Description b,
      cti_AssigneeID = ctr_AssigneeId b, cti_DueDate = ctr_DueDate b,
      cti_Priority = (case ctr_Priority b of None \<Rightarrow> '''' | Some p \<Rightarrow> p)\<rparr>"

definition CreateTask :: "'w handler \<Rightarrow> uuid option \<Rightarrow> CreateTaskRequest option \<Rightarrow> ('w, api_task response) state" where
  "CreateTask h user body =
     (case user of
        None \<Rightarrow> State_Monad.return (Message 401 msgUnauthorized)
      | Some userID \<Rightarrow>
          (case body of
             None \<Rightarrow> State_Monad.return (Message 400 msgEmptyBody)
           | Some b \<Rightarrow> respond 201 toAPITask [(ErrForbidden, 403, ''not a team member'')]
               (task_Create (h_tasks h) userID (create_input b))))"

definition list_filter :: "ListTasksParams \<Rightarrow> TaskFilter" where
  "list_filter p =
     \<lparr>tf_TeamID = ltp_TeamId p, tf_Status = ltp_Status p, tf_AssigneeID = ltp_AssigneeId p,
      tf_Page = (case ltp_Page p of None \<Rightarrow> 0 | Some n \<Rightarrow> n),
      tf_Limit = (case ltp_Limit p of None \<Rightarrow> 0 | Some n \<Rightarrow> n)\<rparr>"

definition ListTasks_handler :: "'w handler \<Rightarrow> uuid option \<Rightarrow> ListTasksParams \<Rightarrow> ('w, TaskListResponse response) state" where
  "ListTasks_handler h user params =
     (case user of
        None \<Rightarrow> State_Monad.return (Message 401 msgUnauthorized)
      | Some userID \<Rightarrow>
          (let flt = list_filter params in
           respond 200 (\<lambda>(ts, n). \<lparr>tlr_Limit = tf_Limit flt, tlr_Page = tf_Page flt,
                                  tlr_Tasks = map toAPITask ts, tlr_Total = n\<rparr>)
             [(ErrForbidden, 403, msgForbidden)] (task_List (h_tasks h) userID flt)))"

definition update_input :: "UpdateTaskRequest \<Rightarrow> UpdateTaskInput" where
  "update_input b =
     \<lparr>uti_Title = utr_Title b, uti_Description = utr_Description b, uti_Status = utr_Status b,
      uti_AssigneeID = utr_AssigneeId b, uti_DueDate = utr_DueDate b, uti_Priority = utr_Priority b\<rparr>"

definition UpdateTask ::
  "'w handler \<Rightarrow> uuid option \<Rightarrow> uuid \<Rightarrow> UpdateTaskRequest option \<Rightarrow> ('w, api_task response) state" where
  "UpdateTask h user i body =
     (case user of
        None \<Rightarrow> State_Monad.return (Message 401 msgUnauthorized)
      | Some userID \<Rightarrow>
          (case body of
             None \<Rightarrow> State_Monad.return (Message 400 msgEmptyBody)
           | Some b \<Rightarrow> respond 200 toAPITask [(ErrNotFound, 404, msgTaskNotFound), (ErrForbidden, 403, msgForbidden)]
               (task_Update (h_tasks h) userID i (update_input b))))"

definition GetTaskHistory :: "'w handler \<Rightarrow> uuid option \<Rightarrow> uuid \<Rightarrow> ('w, TaskHistoryResponse response) state" where
  "GetTaskHistory h user i =
     (case user of
        None \<Rightarrow> State_Monad.return (Message 401 msgUnauthorized)
      | Some userID \<Rightarrow> respond 200 (\<lambda>es. \<lparr>thr_History = map toAPIHistory es\<rparr>)
          [(ErrNotFound, 404, msgTaskNotFound), (ErrForbidden, 403, msgForbidden)]
          (task_History (h_tasks h) userID i))"

section \<open>Teams\<close>

definition toAPITeam :: "Team \<Rightarrow> api_team" where
  "toAPITeam t =
     \<lparr>am_CreatedAt = team_CreatedAt t, am_CreatedBy = team_CreatedBy t, am_Id = team_ID t, am_Name = team_Name t\<rparr>"

definition ListTeams :: "'w handler \<Rightarrow> uuid option \<Rightarrow> ('w, ListTeams200JSONResponse response) state" where
  "ListTeams h user =
     (case user of
        None \<Rightarrow> State_Monad.return (Message 401 msgUnauthorized)
      | Some userID \<Rightarrow> respond 200 (\<lambda>ts. \<lparr>ltr_Teams = map toAPITeam ts\<rparr>) [] (team_ListForUser (h_teams h) userID))"

definition CreateTeam :: "'w handler \<Rightarrow> uuid option \<Rightarrow> CreateTeamRequest option \<Rightarrow> ('w, api_team response) state" where
  "CreateTeam h user body =
     (case user of
        None \<Rightarrow> State_Monad.return (Message 401 msgUnauthorized)
      | Some userID \<Rightarrow>
          (case body of
             None \<Rightarrow> State_Monad.return (Message 400 msgEmptyBody)
           | Some req \<Rightarrow> respond 201 toAPITeam [] (team_Create (h_teams h) userID (ctr_Name req))))"

definition InviteToTeam :: "'w handler \<Rightarrow> uuid option \<Rightarrow> uuid \<Rightarrow> InviteRequest option \<Rightarrow> ('w, unit response) state" where
  "InviteToTeam h user i body =
     (case user of
        None \<Rightarrow> State_Monad.return (Message 401 msgUnauthorized)
      | Some userID \<Rightarrow>
          (case body of
             None \<Rightarrow> State_Monad.return (Message 400 msgEmptyBody)
           | Some req \<Rightarrow> respond 200 (\<lambda>_. ()) [(ErrForbidden, 403, msgForbidden), (ErrNotFound, 404, ''not found'')]
               (team_Invite (h_teams h) userID i (ivr_UserId req))))"

section \<open>Accounts\<close>

definition Register :: "'w handler \<Rightarrow> RegisterRequest option \<Rightarrow> ('w, unit response) state" where
  "Register h body =
     (case body of
        None \<Rightarrow> State_Monad.return (Message 400 msgEmptyBody)
      | Some req \<Rightarrow> respond 201 (\<lambda>_. ()) [(ErrConflict, 409, ''email already registered'')]
          (auth_Register (h_auth h) (rrq_Email req) (rrq_Name req) (rrq_Password req)))"

definition Login :: "'w handler \<Rightarrow> LoginRequest option \<Rightarrow> ('w, LoginResponse response) state" where
  "Login h body =
     (case body of
        None \<Rightarrow> State_Monad.return (Message 400 msgEmptyBody)
      | Some req \<Rightarrow> respond 200 (\<lambda>token. \<lparr>lgr_Token = token\<rparr>) [(ErrUnauthorized, 401, ''invalid credentials'')]
          (auth_Login (h_auth h) (lrq_Email req) (lrq_Password req)))"

section \<open>Comments\<close>

definition toAPIComment :: "Comment \<Rightarrow> api_comment" where
  "toAPIComment c =
     \<lparr>ac_Body = comment_Body c, ac_CreatedAt = comment_CreatedAt c, ac_Id = comment_ID c,
      ac_TaskId = comment_TaskID c, ac_UserId = comment_UserID c\<rparr>"

definition ListTaskComments :: "'w handler \<Rightarrow> uuid option \<Rightarrow> uuid \<Rightarrow> ('w, api_comment list response) state" where
  "ListTaskComments h user i =
     (case user of
        None \<Rightarrow> State_Monad.return (Message 401 msgUnauthorized)
      | Some callerID \<Rightarrow> respond 200 (map toAPIComment)
          [(ErrNotFound, 404, msgTaskNotFound), (ErrForbidden, 403, msgForbidden)]
          (comment_List (h_comments h) callerID i))"

definition AddTaskComment :: "'w handler \<Rightarrow> uuid option \<Rightarrow> uuid \<Rightarrow> AddCommentRequest option \<Rightarrow> ('w, api_comment response) state" where
  "AddTaskComment h user i body =
     (case user of
        None \<Rightarrow> State_Monad.return (Message 401 msgUnauthorized)
      | Some callerID \<Rightarrow>
          (case body of
             None \<Rightarrow> State_Monad.return (Message 400 ''body is required'')
           | Some req \<Rightarrow>
               if acr_Body req = '''' then State_Monad.return (Message 400 ''body is required'')
               else respond 201 toAPIComment [(ErrNotFound, 404, msgTaskNotFound), (ErrForbidden, 403, msgForbidden)]
                 (comment_Add (h_comments h) callerID i (acr_Body req))))"

section \<open>Analytics\<close>

text \<open>The bodies of the three loops over the rows of a report.\<close>

definition toAPISummary :: "TeamSummary \<Rightarrow> api_summary" where
  "toAPISummary s =
     \<lparr>as_DoneLast7Days = ts_DoneLast7Days s, as_MemberCount = ts_MemberCount s, as_Name = ts_Name s,
      as_TeamId = ts_TeamID s\<rparr>"

definition toAPIContributor :: "TopContributor \<Rightarrow> api_contributor" where
  "toAPIContributor c =
     \<lparr>aco_RankInTeam = tc_RankInTeam c, aco_TaskCount = tc_TaskCount c, aco_TeamId = tc_TeamID c,
      aco_UserId = tc_UserID c\<rparr>"

definition toAPIOrphan :: "OrphanTask \<Rightarrow> api_orphan" where
  "toAPIOrphan t =
     \<lparr>ao_AssigneeId = ot_AssigneeID t, ao_Id = ot_ID t, ao_TeamId = ot_TeamID t, ao_Title = ot_Title t\<rparr>"

definition GetTeamSummaries :: "'w handler \<Rightarrow> uuid option \<Rightarrow> ('w, api_summary list response) state" where
  "GetTeamSummaries h user =
     (case user of
        None \<Rightarrow> State_Monad.return (Message 401 msgUnauthorized)
      | Some _ \<Rightarrow> respond 200 (map toAPISummary) [] (analytics_TeamSummaries (h_analytics h)))"

definition GetTopContributors :: "'w handler \<Rightarrow> uuid option \<Rightarrow> ('w, api_contributor list response) state" where
  "GetTopContributors h user =
     (case user of
        None \<Rightarrow> State_Monad.return (Message 401 msgUnauthorized)
      | Some _ \<Rightarrow> respond 200 (map toAPIContributor) [] (analytics_TopContributors (h_analytics h)))"

definition GetOrphanTasks :: "'w handler \<Rightarrow> uuid option \<Rightarrow> ('w, api_orphan list response) state" where
  "GetOrphanTasks h user =
     (case user of
        None \<Rightarrow> State_Monad.return (Message 401 msgUnauthorized)
      | Some _ \<Rightarrow> respond 200 (map toAPIOrphan) [] (analytics_OrphanTasks (h_analytics h)))"

lemma respond_run:
  assumes "run_state (respond code f rows m) w = (resp, w')"
  obtains r where "run_state m w = (r, w')" "resp = (case r of Inl e \<Rightarrow> switch_err rows e | Inr x \<Rightarrow> Reply code (f x))"
  using assms unfolding respond_def by (auto split: prod.splits)

end
