(* ===== verification/Api.thy ===== *)
theory Api
  imports Handlers
begin

text \<open>
  \<open>internal/handler/api/v1/api.gen.go\<close>: the generated server, first half: requests and
  responses, the two interfaces of the server, and the strict handlers, which decode the JSON
  body, call the operation of the handler and write its response object.  The JSON decoders are
  parameters; a response body is the value that is encoded.
\<close>

section \<open>Requests and responses\<close>

record http_request =
  rq_Method :: string
  rq_Path :: string
  rq_Query :: "(string \<times> string) list"
  rq_Body :: bytes
  rq_Authorization :: string
  rq_RequestID :: string
  rq_RemoteAddr :: string

datatype api_body =
    BodyNone
  | BodyText string
  | BodyError api_Error
  | BodyToken LoginResponse
  | BodyTask api_task
  | BodyTaskList TaskListResponse
  | BodyHistory TaskHistoryResponse
  | BodyTeam api_team
  | BodyTeams ListTeams200JSONResponse
  | BodyComment api_comment
  | BodyComments "api_comment list"
  | BodySummaries "api_summary list"
  | BodyContributors "api_contributor list"
  | BodyOrphans "api_orphan list"

record http_response =
  hr_Status :: nat
  hr_Body :: api_body
  hr_RequestID :: string

text \<open>\<open>http.Error\<close>: plain text.\<close>

definition http_Error :: "string \<Rightarrow> nat \<Rightarrow> http_response" where
  "http_Error msg code = \<lparr>hr_Status = code, hr_Body = BodyText msg, hr_RequestID = ''''\<rparr>"

record api_lib =
  al_Match :: "string \<Rightarrow> string \<Rightarrow> string option"
  al_Pattern :: "string \<Rightarrow> string \<Rightarrow> string"
  al_Other :: "http_request \<Rightarrow> http_response"
  al_BindUUID :: "string \<Rightarrow> err + uuid"
  al_QueryUUID :: "string \<Rightarrow> (string \<times> string) list \<Rightarrow> err + uuid option"
  al_QueryString :: "string \<Rightarrow> (string \<times> string) list \<Rightarrow> err + string option"
  al_QueryInt :: "string \<Rightarrow> (string \<times> string) list \<Rightarrow> err + goint option"
  al_LoginRequest :: "bytes \<Rightarrow> err + LoginRequest"
  al_RegisterRequest :: "bytes \<Rightarrow> err + RegisterRequest"
  al_CreateTaskRequest :: "bytes \<Rightarrow> err + CreateTaskRequest"
  al_UpdateTaskRequest :: "bytes \<Rightarrow> err + UpdateTaskRequest"
  al_AddCommentRequest :: "bytes \<Rightarrow> err + AddCommentRequest"
  al_CreateTeamRequest :: "bytes \<Rightarrow> err + CreateTeamRequest"
  al_InviteRequest :: "bytes \<Rightarrow> err + InviteRequest"

text \<open>A handler is called with the user found in the context of the request, if any.\<close>

type_synonym 'w http_handler = "uuid option \<Rightarrow> http_request \<Rightarrow> ('w, http_response) state"

section \<open>The interface of the server\<close>

type_synonym LoginJSONRequestBody = LoginRequest
type_synonym RegisterJSONRequestBody = RegisterRequest
type_synonym CreateTaskJSONRequestBody = CreateTaskRequest
type_synonym UpdateTaskJSONRequestBody = UpdateTaskRequest
type_synonym AddTaskCommentJSONRequestBody = AddCommentRequest
type_synonym CreateTeamJSONRequestBody = CreateTeamRequest
type_synonym InviteToTeamJSONRequestBody = InviteRequest

record 'w ServerInterface =
  si_GetOrphanTasks :: "'w http_handler"
  si_GetTeamSummaries :: "'w http_handler"
  si_GetTopContributors :: "'w http_handler"
  si_Login :: "'w http_handler"
  si_Register :: "'w http_handler"
  si_ListTasks :: "uuid option \<Rightarrow> http_request \<Rightarrow> ListTasksParams \<Rightarrow> ('w, http_response) state"
  si_CreateTask :: "'w http_handler"
  si_UpdateTask :: "uuid option \<Rightarrow> http_request \<Rightarrow> uuid \<Rightarrow> ('w, http_response) state"
  si_ListTaskComments :: "uuid option \<Rightarrow> http_request \<Rightarrow> uuid \<Rightarrow> ('w, http_response) state"
  si_AddTaskComment :: "uuid option \<Rightarrow> http_request \<Rightarrow> uuid \<Rightarrow> ('w, http_response) state"
  si_GetTaskHistory :: "uuid option \<Rightarrow> http_request \<Rightarrow> uuid \<Rightarrow> ('w, http_response) state"
  si_ListTeams :: "'w http_handler"
  si_CreateTeam :: "'w http_handler"
  si_InviteToTeam :: "uuid option \<Rightarrow> http_request \<Rightarrow> uuid \<Rightarrow> ('w, http_response) state"

text \<open>The server that implements nothing: 501 without a body for every operation.\<close>

definition StatusNotImplemented :: "('w, http_response) state" where
  "StatusNotImplemented = State_Monad.return \<lparr>hr_Status = 501, hr_Body = BodyNone, hr_RequestID = ''''\<rparr>"

definition Unimplemented :: "'w ServerInterface" where
  "Unimplemented =
     \<lparr>si_GetOrphanTasks = (\<lambda>user rq. StatusNotImplemented),
      si_GetTeamSummaries = (\<lambda>user rq. StatusNotImplemented),
      si_GetTopContributors = (\<lambda>user rq. StatusNotImplemented),
      si_Login = (\<lambda>user rq. StatusNotImplemented),
      si_Register = (\<lambda>user rq. StatusNotImplemented),
      si_ListTasks = (\<lambda>user rq params. StatusNotImplemented),
      si_CreateTask = (\<lambda>user rq. StatusNotImplemented),
      si_UpdateTask = (\<lambda>user rq i. StatusNotImplemented),
      si_ListTaskComments = (\<lambda>user rq i. StatusNotImplemented),
      si_AddTaskComment = (\<lambda>user rq i. StatusNotImplemented),
      si_GetTaskHistory = (\<lambda>user rq i. StatusNotImplemented),
      si_ListTeams = (\<lambda>user rq. StatusNotImplemented),
      si_CreateTeam = (\<lambda>user rq. StatusNotImplemented),
      si_InviteToTeam = (\<lambda>user rq i. StatusNotImplemented)\<rparr>"

section \<open>The interface of the strict server\<close>

text \<open>The request objects: path and query parameters and the decoded body.\<close>

datatype GetOrphanTasksRequestObject = GetOrphanTasksRequestObject

datatype GetTeamSummariesRequestObject = GetTeamSummariesRequestObject

datatype GetTopContributorsRequestObject = GetTopContributorsRequestObject

record LoginRequestObject =
  lro_Body :: "LoginJSONRequestBody option"

record RegisterRequestObject =
  rro_Body :: "RegisterJSONRequestBody option"

record ListTasksRequestObject =
  ltro_Params :: ListTasksParams

record CreateTaskRequestObject =
  cto_Body :: "CreateTaskJSONRequestBody option"

record UpdateTaskRequestObject =
  uto_Id :: uuid
  uto_Body :: "UpdateTaskJSONRequestBody option"

record ListTaskCommentsRequestObject =
  lco_Id :: uuid

record AddTaskCommentRequestObject =
  atc_Id :: uuid
  atc_Body :: "AddTaskCommentJSONRequestBody option"

record GetTaskHistoryRequestObject =
  gho_Id :: uuid

datatype ListTeamsRequestObject = ListTeamsRequestObject

record CreateTeamRequestObject =
  cmo_Body :: "CreateTeamJSONRequestBody option"

record InviteToTeamRequestObject =
  ivo_Id :: uuid
  ivo_Body :: "InviteToTeamJSONRequestBody option"

record 'w StrictServerInterface =
  ssi_GetOrphanTasks :: "uuid option \<Rightarrow> GetOrphanTasksRequestObject \<Rightarrow> ('w, api_orphan list response) state"
  ssi_GetTeamSummaries :: "uuid option \<Rightarrow> GetTeamSummariesRequestObject \<Rightarrow> ('w, api_summary list response) state"
  ssi_GetTopContributors :: "uuid option \<Rightarrow> GetTopContributorsRequestObject \<Rightarrow> ('w, api_contributor list response) state"
  ssi_Login :: "uuid option \<Rightarrow> LoginRequestObject \<Rightarrow> ('w, LoginResponse response) state"
  ssi_Register :: "uuid option \<Rightarrow> RegisterRequestObject \<Rightarrow> ('w, unit response) state"
  ssi_ListTasks :: "uuid option \<Rightarrow> ListTasksRequestObject \<Rightarrow> ('w, TaskListResponse response) state"
  ssi_CreateTask :: "uuid option \<Rightarrow> CreateTaskRequestObject \<Rightarrow> ('w, api_task response) state"
  ssi_UpdateTask :: "uuid option \<Rightarrow> UpdateTaskRequestObject \<Rightarrow> ('w, api_task response) state"
  ssi_ListTaskComments :: "uuid option \<Rightarrow> ListTaskCommentsRequestObject \<Rightarrow> ('w, api_comment list response) state"
  ssi_AddTaskComment :: "uuid option \<Rightarrow> AddTaskCommentRequestObject \<Rightarrow> ('w, api_comment response) state"
  ssi_GetTaskHistory :: "uuid option \<Rightarrow> GetTaskHistoryRequestObject \<Rightarrow> ('w, TaskHistoryResponse response) state"
  ssi_ListTeams :: "uuid option \<Rightarrow> ListTeamsRequestObject \<Rightarrow> ('w, ListTeams200JSONResponse response) state"
  ssi_CreateTeam :: "uuid option \<Rightarrow> CreateTeamRequestObject \<Rightarrow> ('w, api_team response) state"
  ssi_InviteToTeam :: "uuid option \<Rightarrow> InviteToTeamRequestObject \<Rightarrow> ('w, unit response) state"

text \<open>The methods of \<open>handler.Handler\<close> implement the interface.\<close>

definition strict_server :: "'w handler \<Rightarrow> 'w StrictServerInterface" where
  "strict_server h =
     \<lparr>ssi_GetOrphanTasks = (\<lambda>user ro. GetOrphanTasks h user),
      ssi_GetTeamSummaries = (\<lambda>user ro. GetTeamSummaries h user),
      ssi_GetTopContributors = (\<lambda>user ro. GetTopContributors h user),
      ssi_Login = (\<lambda>user ro. Login h (lro_Body ro)),
      ssi_Register = (\<lambda>user ro. Register h (rro_Body ro)),
      ssi_ListTasks = (\<lambda>user ro. ListTasks_handler h user (ltro_Params ro)),
      ssi_CreateTask = (\<lambda>user ro. CreateTask h user (cto_Body ro)),
      ssi_UpdateTask = (\<lambda>user ro. UpdateTask h user (uto_Id ro) (uto_Body ro)),
      ssi_ListTaskComments = (\<lambda>user ro. ListTaskComments h user (lco_Id ro)),
      ssi_AddTaskComment = (\<lambda>user ro. AddTaskComment h user (atc_Id ro) (atc_Body ro)),
      ssi_GetTaskHistory = (\<lambda>user ro. GetTaskHistory h user (gho_Id ro)),
      ssi_ListTeams = (\<lambda>user ro. ListTeams h user),
      ssi_CreateTeam = (\<lambda>user ro. CreateTeam h user (cmo_Body ro)),
      ssi_InviteToTeam = (\<lambda>user ro. InviteToTeam h user (ivo_Id ro) (ivo_Body ro))\<rparr>"

section \<open>Responses and request bodies\<close>

text \<open>
  \<open>Visit...Response\<close> of the response objects: the status, and the body as JSON or none; a
  returned error goes to \<open>ResponseErrorHandlerFunc\<close>.
\<close>

definition visit_response :: "(err \<Rightarrow> http_response) \<Rightarrow> ('a \<Rightarrow> api_body) \<Rightarrow> 'a response \<Rightarrow> http_response" where
  "visit_response on_error f r =
     (case r of
        Reply code x \<Rightarrow> \<lparr>hr_Status = code, hr_Body = f x, hr_RequestID = ''''\<rparr>
      | Message code msg \<Rightarrow> \<lparr>hr_Status = code, hr_Body = BodyError \<lparr>aer_Message = msg\<rparr>, hr_RequestID = ''''\<rparr>
      | Failed e \<Rightarrow> on_error e)"

record StrictHTTPServerOptions =
  so_RequestErrorHandlerFunc :: "http_request \<Rightarrow> err \<Rightarrow> http_response"
  so_ResponseErrorHandlerFunc :: "http_request \<Rightarrow> err \<Rightarrow> http_response"

record 'w strictHandler =
  sh_ssi :: "'w StrictServerInterface"
  sh_options :: StrictHTTPServerOptions

text \<open>The common part of the strict handlers; the service passes no strict middlewares.\<close>

definition strict ::
  "StrictHTTPServerOptions \<Rightarrow> http_request \<Rightarrow> ('a \<Rightarrow> api_body) \<Rightarrow> ('w, 'a response) state \<Rightarrow> ('w, http_response) state" where
  "strict opts rq f m =
     do { r \<leftarrow> m; State_Monad.return (visit_response (so_ResponseErrorHandlerFunc opts rq) f r) }"

definition with_body ::
  "StrictHTTPServerOptions \<Rightarrow> http_request \<Rightarrow> err + 'b \<Rightarrow> ('b \<Rightarrow> ('w, http_response) state) \<Rightarrow> ('w, http_response) state" where
  "with_body opts rq b k =
     (case b of
        Inl e \<Rightarrow> State_Monad.return (so_RequestErrorHandlerFunc opts rq (errorf (''can'' @ [CHR 0x27] @ ''t decode JSON body: '') e))
      | Inr x \<Rightarrow> k x)"

section \<open>Strict handlers\<close>

definition strict_GetOrphanTasks ::
  "'w strictHandler \<Rightarrow> uuid option \<Rightarrow> http_request \<Rightarrow> ('w, http_response) state" where
  "strict_GetOrphanTasks sh user rq =
     strict (sh_options sh) rq BodyOrphans (ssi_GetOrphanTasks (sh_ssi sh) user GetOrphanTasksRequestObject)"

definition strict_GetTeamSummaries ::
  "'w strictHandler \<Rightarrow> uuid option \<Rightarrow> http_request \<Rightarrow> ('w, http_response) state" where
  "strict_GetTeamSummaries sh user rq =
     strict (sh_options sh) rq BodySummaries (ssi_GetTeamSummaries (sh_ssi sh) user GetTeamSummariesRequestObject)"

definition strict_GetTopContributors ::
  "'w strictHandler \<Rightarrow> uuid option \<Rightarrow> http_request \<Rightarrow> ('w, http_response) state" where
  "strict_GetTopContributors sh user rq =
     strict (sh_options sh) rq BodyContributors (ssi_GetTopContributors (sh_ssi sh) user GetTopContributorsRequestObject)"

definition strict_Login ::
  "api_lib \<Rightarrow> 'w strictHandler \<Rightarrow> uuid option \<Rightarrow> http_request \<Rightarrow> ('w, http_response) state" where
  "strict_Login lib sh user rq =
     with_body (sh_options sh) rq (al_LoginRequest lib (rq_Body rq)) (\<lambda>b.
       strict (sh_options sh) rq BodyToken (ssi_Login (sh_ssi sh) user \<lparr>lro_Body = Some b\<rparr>))"

definition strict_Register ::
  "api_lib \<Rightarrow> 'w strictHandler \<Rightarrow> uuid option \<Rightarrow> http_request \<Rightarrow> ('w, http_response) state" where
  "strict_Register lib sh user rq =
     with_body (sh_options sh) rq (al_RegisterRequest lib (rq_Body rq)) (\<lambda>b.
       strict (sh_options sh) rq (\<lambda>_. BodyNone) (ssi_Register (sh_ssi sh) user \<lparr>rro_Body = Some b\<rparr>))"

definition strict_ListTasks ::
  "'w strictHandler \<Rightarrow> uuid option \<Rightarrow> http_request \<Rightarrow> ListTasksParams \<Rightarrow> ('w, http_response) state" where
  "strict_ListTasks sh user rq params =
     strict (sh_options sh) rq BodyTaskList (ssi_ListTasks (sh_ssi sh) user \<lparr>ltro_Params = params\<rparr>)"

definition strict_CreateTask ::
  "api_lib \<Rightarrow> 'w strictHandler \<Rightarrow> uuid option \<Rightarrow> http_request \<Rightarrow> ('w, http_response) state" where
  "strict_CreateTask lib sh user rq =
     with_body (sh_options sh) rq (al_CreateTaskRequest lib (rq_Body rq)) (\<lambda>b.
       strict (sh_options sh) rq BodyTask (ssi_CreateTask (sh_ssi sh) user \<lparr>cto_Body = Some b\<rparr>))"

definition strict_UpdateTask ::
  "api_lib \<Rightarrow> 'w strictHandler \<Rightarrow> uuid option \<Rightarrow> http_request \<Rightarrow> uuid \<Rightarrow> ('w, http_response) state" where
  "strict_UpdateTask lib sh user rq i =
     with_body (sh_options sh) rq (al_UpdateTaskRequest lib (rq_Body rq)) (\<lambda>b.
       strict (sh_options sh) rq BodyTask (ssi_UpdateTask (sh_ssi sh) user \<lparr>uto_Id = i, uto_Body = Some b\<rparr>))"

definition strict_ListTaskComments ::
  "'w strictHandler \<Rightarrow> uuid option \<Rightarrow> http_request \<Rightarrow> uuid \<Rightarrow> ('w, http_response) state" where
  "strict_ListTaskComments sh user rq i =
     strict (sh_options sh) rq BodyComments (ssi_ListTaskComments (sh_ssi sh) user \<lparr>lco_Id = i\<rparr>)"

definition strict_AddTaskComment ::
  "api_lib \<Rightarrow> 'w strictHandler \<Rightarrow> uuid option \<Rightarrow> http_request \<Rightarrow> uuid \<Rightarrow> ('w, http_response) state" where
  "strict_AddTaskComment lib sh user rq i =
     with_body (sh_options sh) rq (al_AddCommentRequest lib (rq_Body rq)) (\<lambda>b.
       strict (sh_options sh) rq BodyComment (ssi_AddTaskComment (sh_ssi sh) user \<lparr>atc_Id = i, atc_Body = Some b\<rparr>))"

definition strict_GetTaskHistory ::
  "'w strictHandler \<Rightarrow> uuid option \<Rightarrow> http_request \<Rightarrow> uuid \<Rightarrow> ('w, http_response) state" where
  "strict_GetTaskHistory sh user rq i =
     strict (sh_options sh) rq BodyHistory (ssi_GetTaskHistory (sh_ssi sh) user \<lparr>gho_Id = i\<rparr>)"

definition strict_ListTeams ::
  "'w strictHandler \<Rightarrow> uuid option \<Rightarrow> http_request \<Rightarrow> ('w, http_response) state" where
  "strict_ListTeams sh user rq =
     strict (sh_options sh) rq BodyTeams (ssi_ListTeams (sh_ssi sh) user ListTeamsRequestObject)"

definition strict_CreateTeam ::
  "api_lib \<Rightarrow> 'w strictHandler \<Rightarrow> uuid option \<Rightarrow> http_request \<Rightarrow> ('w, http_response) state" where
  "strict_CreateTeam lib sh user rq =
     with_body (sh_options sh) rq (al_CreateTeamRequest lib (rq_Body rq)) (\<lambda>b.
       strict (sh_options sh) rq BodyTeam (ssi_CreateTeam (sh_ssi sh) user \<lparr>cmo_Body = Some b\<rparr>))"

definition strict_InviteToTeam ::
  "api_lib \<Rightarrow> 'w strictHandler \<Rightarrow> uuid option \<Rightarrow> http_request \<Rightarrow> uuid \<Rightarrow> ('w, http_response) state" where
  "strict_InviteToTeam lib sh user rq i =
     with_body (sh_options sh) rq (al_InviteRequest lib (rq_Body rq)) (\<lambda>b.
       strict (sh_options sh) rq (\<lambda>_. BodyNone) (ssi_InviteToTeam (sh_ssi sh) user \<lparr>ivo_Id = i, ivo_Body = Some b\<rparr>))"

text \<open>The strict handler as a server.\<close>

definition NewStrictHandlerWithOptions ::
  "api_lib \<Rightarrow> 'w StrictServerInterface \<Rightarrow> StrictHTTPServerOptions \<Rightarrow> 'w ServerInterface" where
  "NewStrictHandlerWithOptions lib ssi opts =
     (let sh = \<lparr>sh_ssi = ssi, sh_options = opts\<rparr> in
      \<lparr>si_GetOrphanTasks = strict_GetOrphanTasks sh,
       si_GetTeamSummaries = strict_GetTeamSummaries sh,
       si_GetTopContributors = strict_GetTopContributors sh,
       si_Login = strict_Login lib sh,
       si_Register = strict_Register lib sh,
       si_ListTasks = strict_ListTasks sh,
       si_CreateTask = strict_CreateTask lib sh,
       si_UpdateTask = strict_UpdateTask lib sh,
       si_ListTaskComments = strict_ListTaskComments sh,
       si_AddTaskComment = strict_AddTaskComment lib sh,
       si_GetTaskHistory = strict_GetTaskHistory sh,
       si_ListTeams = strict_ListTeams sh,
       si_CreateTeam = strict_CreateTeam lib sh,
       si_InviteToTeam = strict_InviteToTeam lib sh\<rparr>)"

definition default_options :: StrictHTTPServerOptions where
  "default_options =
     \<lparr>so_RequestErrorHandlerFunc = (\<lambda>rq e. http_Error (Error e) 400),
      so_ResponseErrorHandlerFunc = (\<lambda>rq e. http_Error (Error e) 500)\<rparr>"

definition NewStrictHandler :: "api_lib \<Rightarrow> 'w StrictServerInterface \<Rightarrow> 'w ServerInterface" where
  "NewStrictHandler lib ssi = NewStrictHandlerWithOptions lib ssi default_options"

lemma default_options_simps [simp]:
  "so_RequestErrorHandlerFunc default_options rq e = http_Error (Error e) 400"
  "so_ResponseErrorHandlerFunc default_options rq = (\<lambda>e. http_Error (Error e) 500)"
  by (simp_all add: default_options_def)

end
