(* ===== verification/Api_Server.thy ===== *)
theory Api_Server
  imports Api
begin

text \<open>
  The second half of \<open>internal/handler/api/v1/api.gen.go\<close>: the wrappers that bind parameters and
  call the methods of a \<open>ServerInterface\<close> through the middlewares, the table of routes and the
  constructors of the router, and \<open>mountV1\<close> of \<open>internal/app/app.go\<close>.
\<close>

section \<open>Parameters\<close>

text \<open>The errors of parameter binding, their texts and what they wrap.\<close>

datatype param_error =
    UnescapedCookieParamError string err
  | UnmarshalingParamError string err
  | RequiredParamError string
  | RequiredHeaderError string err
  | InvalidParamFormatError string err
  | TooManyValuesForParamError string int

fun param_error_Error :: "param_error \<Rightarrow> string" where
  "param_error_Error (UnescapedCookieParamError name e) =
     ''error unescaping cookie parameter '' @ [CHR 0x27] @ name @ [CHR 0x27]"
| "param_error_Error (UnmarshalingParamError name e) =
     ''Error unmarshaling parameter '' @ name @ '' as JSON: '' @ Error e"
| "param_error_Error (RequiredParamError name) = ''Query argument '' @ name @ '' is required, but not found''"
| "param_error_Error (RequiredHeaderError name e) = ''Header parameter '' @ name @ '' is required, but not found''"
| "param_error_Error (InvalidParamFormatError name e) = ''Invalid format for parameter '' @ name @ '': '' @ Error e"
| "param_error_Error (TooManyValuesForParamError name n) = ''Expected one value for '' @ name @ '', got '' @ fmt_d n"

fun param_error_Unwrap :: "param_error \<Rightarrow> err option" where
  "param_error_Unwrap (UnescapedCookieParamError name e) = Some e"
| "param_error_Unwrap (UnmarshalingParamError name e) = Some e"
| "param_error_Unwrap (RequiredHeaderError name e) = Some e"
| "param_error_Unwrap (InvalidParamFormatError name e) = Some e"
| "param_error_Unwrap _ = None"

text \<open>\<open>runtime.BindStyledParameterWithOptions\<close> failed: the error handler answers.\<close>

definition with_param ::
  "(param_error \<Rightarrow> http_response) \<Rightarrow> string \<Rightarrow> err + 'b \<Rightarrow> ('b \<Rightarrow> ('w, http_response) state) \<Rightarrow> ('w, http_response) state" where
  "with_param on_error name b k =
     (case b of
        Inl e \<Rightarrow> State_Monad.return (on_error (InvalidParamFormatError name e))
      | Inr x \<Rightarrow> k x)"

text \<open>The five optional query parameters of the task list, bound in this order.\<close>

definition bind_list_params :: "api_lib \<Rightarrow> (string \<times> string) list \<Rightarrow> (string \<times> err) + ListTasksParams" where
  "bind_list_params lib q =
     and_then (on_err (Pair ''team_id'') (al_QueryUUID lib ''team_id'' q)) (\<lambda>t.
     and_then (on_err (Pair ''status'') (al_QueryString lib ''status'' q)) (\<lambda>s.
     and_then (on_err (Pair ''assignee_id'') (al_QueryUUID lib ''assignee_id'' q)) (\<lambda>a.
     and_then (on_err (Pair ''page'') (al_QueryInt lib ''page'' q)) (\<lambda>p.
     and_then (on_err (Pair ''limit'') (al_QueryInt lib ''limit'' q)) (\<lambda>l.
       Inr \<lparr>ltp_TeamId = t, ltp_Status = s, ltp_AssigneeId = a, ltp_Page = p, ltp_Limit = l\<rparr>)))))"

section \<open>Wrappers\<close>

type_synonym 'w MiddlewareFunc = "'w http_handler \<Rightarrow> 'w http_handler"

record 'w ServerInterfaceWrapper =
  siw_Handler :: "'w ServerInterface"
  siw_HandlerMiddlewares :: "'w MiddlewareFunc list"
  siw_ErrorHandlerFunc :: "http_request \<Rightarrow> param_error \<Rightarrow> http_response"

text \<open>The loop \<open>handler = middleware(handler)\<close>: the last middleware is the outermost.\<close>

fun through :: "'w MiddlewareFunc list \<Rightarrow> 'w http_handler \<Rightarrow> 'w http_handler" where
  "through [] handler = handler"
| "through (middleware # ms) handler = through ms (middleware handler)"

definition wrap_GetOrphanTasks ::
  "api_lib \<Rightarrow> 'w ServerInterfaceWrapper \<Rightarrow> uuid option \<Rightarrow> string \<Rightarrow> http_request \<Rightarrow> ('w, http_response) state" where
  "wrap_GetOrphanTasks lib siw user idp rq =
     through (siw_HandlerMiddlewares siw) (\<lambda>user rq. si_GetOrphanTasks (siw_Handler siw) user rq) user rq"

definition wrap_GetTeamSummaries ::
  "api_lib \<Rightarrow> 'w ServerInterfaceWrapper \<Rightarrow> uuid option \<Rightarrow> string \<Rightarrow> http_request \<Rightarrow> ('w, http_response) state" where
  "wrap_GetTeamSummaries lib siw user idp rq =
     through (siw_HandlerMiddlewares siw) (\<lambda>user rq. si_GetTeamSummaries (siw_Handler siw) user rq) user rq"

definition wrap_GetTopContributors ::
  "api_lib \<Rightarrow> 'w ServerInterfaceWrapper \<Rightarrow> uuid option \<Rightarrow> string \<Rightarrow> http_request \<Rightarrow> ('w, http_response) state" where
  "wrap_GetTopContributors lib siw user idp rq =
     through (siw_HandlerMiddlewares siw) (\<lambda>user rq. si_GetTopContributors (siw_Handler siw) user rq) user rq"

definition wrap_Login ::
  "api_lib \<Rightarrow> 'w ServerInterfaceWrapper \<Rightarrow> uuid option \<Rightarrow> string \<Rightarrow> http_request \<Rightarrow> ('w, http_response) state" where
  "wrap_Login lib siw user idp rq =
     through (siw_HandlerMiddlewares siw) (\<lambda>user rq. si_Login (siw_Handler siw) user rq) user rq"

definition wrap_Register ::
  "api_lib \<Rightarrow> 'w ServerInterfaceWrapper \<Rightarrow> uuid option \<Rightarrow> string \<Rightarrow> http_request \<Rightarrow> ('w, http_response) state" where
  "wrap_Register lib siw user idp rq =
     through (siw_HandlerMiddlewares siw) (\<lambda>user rq. si_Register (siw_Handler siw) user rq) user rq"

definition wrap_ListTasks ::
  "api_lib \<Rightarrow> 'w ServerInterfaceWrapper \<Rightarrow> uuid option \<Rightarrow> string \<Rightarrow> http_request \<Rightarrow> ('w, http_response) state" where
  "wrap_ListTasks lib siw user idp rq =
     (case bind_list_params lib (rq_Query rq) of
        Inl (name, e) \<Rightarrow> State_Monad.return (siw_ErrorHandlerFunc siw rq (InvalidParamFormatError name e))
      | Inr params \<Rightarrow>
          through (siw_HandlerMiddlewares siw) (\<lambda>user rq. si_ListTasks (siw_Handler siw) user rq params) user rq)"

definition wrap_CreateTask ::
  "api_lib \<Rightarrow> 'w ServerInterfaceWrapper \<Rightarrow> uuid option \<Rightarrow> string \<Rightarrow> http_request \<Rightarrow> ('w, http_response) state" where
  "wrap_CreateTask lib siw user idp rq =
     through (siw_HandlerMiddlewares siw) (\<lambda>user rq. si_CreateTask (siw_Handler siw) user rq) user rq"

definition wrap_UpdateTask ::
  "api_lib \<Rightarrow> 'w ServerInterfaceWrapper \<Rightarrow> uuid option \<Rightarrow> string \<Rightarrow> http_request \<Rightarrow> ('w, http_response) state" where
  "wrap_UpdateTask lib siw user idp rq =
     with_param (siw_ErrorHandlerFunc siw rq) ''id'' (al_BindUUID lib idp) (\<lambda>i.
       through (siw_HandlerMiddlewares siw) (\<lambda>user rq. si_UpdateTask (siw_Handler siw) user rq i) user rq)"

definition wrap_ListTaskComments ::
  "api_lib \<Rightarrow> 'w ServerInterfaceWrapper \<Rightarrow> uuid option \<Rightarrow> string \<Rightarrow> http_request \<Rightarrow> ('w, http_response) state" where
  "wrap_ListTaskComments lib siw user idp rq =
     with_param (siw_ErrorHandlerFunc siw rq) ''id'' (al_BindUUID lib idp) (\<lambda>i.
       through (siw_HandlerMiddlewares siw) (\<lambda>user rq. si_ListTaskComments (siw_Handler siw) user rq i) user rq)"

definition wrap_AddTaskComment ::
  "api_lib \<Rightarrow> 'w ServerInterfaceWrapper \<Rightarrow> uuid option \<Rightarrow> string \<Rightarrow> http_request \<Rightarrow> ('w, http_response) state" where
  "wrap_AddTaskComment lib siw user idp rq =
     with_param (siw_ErrorHandlerFunc siw rq) ''id'' (al_BindUUID lib idp) (\<lambda>i.
       through (siw_HandlerMiddlewares siw) (\<lambda>user rq. si_AddTaskComment (siw_Handler siw) user rq i) user rq)"

definition wrap_GetTaskHistory ::
  "api_lib \<Rightarrow> 'w ServerInterfaceWrapper \<Rightarrow> uuid option \<Rightarrow> string \<Rightarrow> http_request \<Rightarrow> ('w, http_response) state" where
  "wrap_GetTaskHistory lib siw user idp rq =
     with_param (siw_ErrorHandlerFunc siw rq) ''id'' (al_BindUUID lib idp) (\<lambda>i.
       through (siw_HandlerMiddlewares siw) (\<lambda>user rq. si_GetTaskHistory (siw_Handler siw) user rq i) user rq)"

definition wrap_ListTeams ::
  "api_lib \<Rightarrow> 'w ServerInterfaceWrapper \<Rightarrow> uuid option \<Rightarrow> string \<Rightarrow> http_request \<Rightarrow> ('w, http_response) state" where
  "wrap_ListTeams lib siw user idp rq =
     through (siw_HandlerMiddlewares siw) (\<lambda>user rq. si_ListTeams (siw_Handler siw) user rq) user rq"

definition wrap_CreateTeam ::
  "api_lib \<Rightarrow> 'w ServerInterfaceWrapper \<Rightarrow> uuid option \<Rightarrow> string \<Rightarrow> http_request \<Rightarrow> ('w, http_response) state" where
  "wrap_CreateTeam lib siw user idp rq =
     through (siw_HandlerMiddlewares siw) (\<lambda>user rq. si_CreateTeam (siw_Handler siw) user rq) user rq"

definition wrap_InviteToTeam ::
  "api_lib \<Rightarrow> 'w ServerInterfaceWrapper \<Rightarrow> uuid option \<Rightarrow> string \<Rightarrow> http_request \<Rightarrow> ('w, http_response) state" where
  "wrap_InviteToTeam lib siw user idp rq =
     with_param (siw_ErrorHandlerFunc siw rq) ''id'' (al_BindUUID lib idp) (\<lambda>i.
       through (siw_HandlerMiddlewares siw) (\<lambda>user rq. si_InviteToTeam (siw_Handler siw) user rq i) user rq)"

section \<open>The router\<close>

text \<open>\<open>HandlerWithOptions\<close>: method, pattern and wrapper of every route.\<close>

definition routes :: "(string \<times> string \<times> (api_lib \<Rightarrow> 'w ServerInterfaceWrapper \<Rightarrow> uuid option \<Rightarrow> string \<Rightarrow> http_request \<Rightarrow> ('w, http_response) state)) list" where
  "routes =
     [(''GET'', ''/analytics/orphan-tasks'', wrap_GetOrphanTasks),
      (''GET'', ''/analytics/team-summaries'', wrap_GetTeamSummaries),
      (''GET'', ''/analytics/top-contributors'', wrap_GetTopContributors),
      (''POST'', ''/login'', wrap_Login),
      (''POST'', ''/register'', wrap_Register),
      (''GET'', ''/tasks'', wrap_ListTasks),
      (''POST'', ''/tasks'', wrap_CreateTask),
      (''PUT'', ''/tasks/{id}'', wrap_UpdateTask),
      (''GET'', ''/tasks/{id}/comments'', wrap_ListTaskComments),
      (''POST'', ''/tasks/{id}/comments'', wrap_AddTaskComment),
      (''GET'', ''/tasks/{id}/history'', wrap_GetTaskHistory),
      (''GET'', ''/teams'', wrap_ListTeams),
      (''POST'', ''/teams'', wrap_CreateTeam),
      (''POST'', ''/teams/{id}/invite'', wrap_InviteToTeam)]"

text \<open>
  A router is the list of its registrations: method, pattern and handler, which gets the value
  of the path parameter.  \<open>al_Match\<close> decides whether a pattern matches a path and gives the value
  of \<open>{id}\<close>; other requests (\<open>/metrics\<close>, 404, 405) are answered by the libraries.
\<close>

type_synonym 'w router = "(string \<times> string \<times> (uuid option \<Rightarrow> string \<Rightarrow> http_request \<Rightarrow> ('w, http_response) state)) list"

definition router_ServeHTTP :: "api_lib \<Rightarrow> 'w router \<Rightarrow> 'w http_handler" where
  "router_ServeHTTP lib r user rq =
     (case List.find (\<lambda>(m, p, _). m = rq_Method rq \<and> al_Match lib p (rq_Path rq) \<noteq> None) r of
        None \<Rightarrow> State_Monad.return (al_Other lib rq)
      | Some (m, p, f) \<Rightarrow>
          (case al_Match lib p (rq_Path rq) of
             None \<Rightarrow> State_Monad.return (al_Other lib rq)
           | Some idp \<Rightarrow> f user idp rq))"

text \<open>\<open>r.Route(prefix, fn)\<close>: the registrations of \<open>fn\<close> below a prefix.\<close>

definition router_Route :: "string \<Rightarrow> 'w router \<Rightarrow> 'w router" where
  "router_Route pattern sub = map (\<lambda>(m, p, f). (m, pattern @ p, f)) sub"

record 'w ChiServerOptions =
  co_BaseURL :: string
  co_BaseRouter :: "'w router option"
  co_Middlewares :: "'w MiddlewareFunc list"
  co_ErrorHandlerFunc :: "(http_request \<Rightarrow> param_error \<Rightarrow> http_response) option"

definition bad_param :: "http_request \<Rightarrow> param_error \<Rightarrow> http_response" where
  "bad_param rq e = http_Error (param_error_Error e) 400"

definition HandlerWithOptions :: "api_lib \<Rightarrow> 'w ServerInterface \<Rightarrow> 'w ChiServerOptions \<Rightarrow> 'w router" where
  "HandlerWithOptions lib si options =
     (let r = (case co_BaseRouter options of None \<Rightarrow> [] | Some r \<Rightarrow> r);
          wrapper =
            \<lparr>siw_Handler = si,
             siw_HandlerMiddlewares = co_Middlewares options,
             siw_ErrorHandlerFunc = (case co_ErrorHandlerFunc options of None \<Rightarrow> bad_param | Some f \<Rightarrow> f)\<rparr>
      in r @ map (\<lambda>(m, p, f). (m, co_BaseURL options @ p, f lib wrapper)) routes)"

definition Handler :: "api_lib \<Rightarrow> 'w ServerInterface \<Rightarrow> 'w router" where
  "Handler lib si =
     HandlerWithOptions lib si
       \<lparr>co_BaseURL = '''', co_BaseRouter = None, co_Middlewares = [], co_ErrorHandlerFunc = None\<rparr>"

definition HandlerFromMux :: "api_lib \<Rightarrow> 'w ServerInterface \<Rightarrow> 'w router \<Rightarrow> 'w router" where
  "HandlerFromMux lib si r =
     HandlerWithOptions lib si
       \<lparr>co_BaseURL = '''', co_BaseRouter = Some r, co_Middlewares = [], co_ErrorHandlerFunc = None\<rparr>"

definition HandlerFromMuxWithBaseURL :: "api_lib \<Rightarrow> 'w ServerInterface \<Rightarrow> 'w router \<Rightarrow> string \<Rightarrow> 'w router" where
  "HandlerFromMuxWithBaseURL lib si r baseURL =
     HandlerWithOptions lib si
       \<lparr>co_BaseURL = baseURL, co_BaseRouter = Some r, co_Middlewares = [], co_ErrorHandlerFunc = None\<rparr>"

text \<open>\<open>mountV1\<close>, served.\<close>

definition mountV1 :: "api_lib \<Rightarrow> 'w handler \<Rightarrow> 'w http_handler" where
  "mountV1 lib h =
     router_ServeHTTP lib (router_Route ''/api/v1'' (HandlerFromMux lib (NewStrictHandler lib (strict_server h)) []))"

section \<open>Response objects\<close>

text \<open>
  The statuses for which an operation has a response object, one per \<open>Visit...Response\<close>
  method: the handlers can return no others.
\<close>

definition GetOrphanTasks_responses :: "nat list" where
  "GetOrphanTasks_responses = [200, 401]"

definition GetTeamSummaries_responses :: "nat list" where
  "GetTeamSummaries_responses = [200, 401]"

definition GetTopContributors_responses :: "nat list" where
  "GetTopContributors_responses = [200, 401]"

definition Login_responses :: "nat list" where
  "Login_responses = [200, 400, 401]"

definition Register_responses :: "nat list" where
  "Register_responses = [201, 400, 409]"

definition ListTasks_responses :: "nat list" where
  "ListTasks_responses = [200, 401, 403]"

definition CreateTask_responses :: "nat list" where
  "CreateTask_responses = [201, 400, 401, 403]"

definition UpdateTask_responses :: "nat list" where
  "UpdateTask_responses = [200, 400, 401, 403, 404]"

definition ListTaskComments_responses :: "nat list" where
  "ListTaskComments_responses = [200, 401, 403, 404]"

definition AddTaskComment_responses :: "nat list" where
  "AddTaskComment_responses = [201, 400, 401, 403, 404]"

definition GetTaskHistory_responses :: "nat list" where
  "GetTaskHistory_responses = [200, 401, 403, 404]"

definition ListTeams_responses :: "nat list" where
  "ListTeams_responses = [200, 401]"

definition CreateTeam_responses :: "nat list" where
  "CreateTeam_responses = [201, 400, 401]"

definition InviteToTeam_responses :: "nat list" where
  "InviteToTeam_responses = [200, 400, 401, 403, 404]"

definition declared :: "((string \<times> string) \<times> nat list) list" where
  "declared =
     [((''GET'', ''/analytics/orphan-tasks''), GetOrphanTasks_responses),
      ((''GET'', ''/analytics/team-summaries''), GetTeamSummaries_responses),
      ((''GET'', ''/analytics/top-contributors''), GetTopContributors_responses),
      ((''POST'', ''/login''), Login_responses),
      ((''POST'', ''/register''), Register_responses),
      ((''GET'', ''/tasks''), ListTasks_responses),
      ((''POST'', ''/tasks''), CreateTask_responses),
      ((''PUT'', ''/tasks/{id}''), UpdateTask_responses),
      ((''GET'', ''/tasks/{id}/comments''), ListTaskComments_responses),
      ((''POST'', ''/tasks/{id}/comments''), AddTaskComment_responses),
      ((''GET'', ''/tasks/{id}/history''), GetTaskHistory_responses),
      ((''GET'', ''/teams''), ListTeams_responses),
      ((''POST'', ''/teams''), CreateTeam_responses),
      ((''POST'', ''/teams/{id}/invite''), InviteToTeam_responses)]"

text \<open>The route that answers a request, with the value of its path parameter.\<close>

definition route_of :: "api_lib \<Rightarrow> http_request \<Rightarrow> ((string \<times> string) \<times> string) option" where
  "route_of lib rq =
     (case List.find (\<lambda>(m, p). m = rq_Method rq \<and> al_Match lib (''/api/v1'' @ p) (rq_Path rq) \<noteq> None) (map fst declared) of
        None \<Rightarrow> None
      | Some (m, p) \<Rightarrow> map_option (Pair (m, p)) (al_Match lib (''/api/v1'' @ p) (rq_Path rq)))"

lemma find_map: "List.find P (map f xs) = map_option f (List.find (\<lambda>x. P (f x)) xs)"
  by (induction xs) auto

lemma find_in_set: "List.find P xs = Some x \<Longrightarrow> x \<in> set xs"
  by (auto simp: find_Some_iff)

section \<open>The router of the service\<close>

lemmas strict_defs = strict_GetOrphanTasks_def strict_GetTeamSummaries_def strict_GetTopContributors_def strict_ListTeams_def
  strict_GetTaskHistory_def strict_ListTaskComments_def strict_Login_def strict_Register_def
  strict_CreateTask_def strict_UpdateTask_def strict_AddTaskComment_def strict_CreateTeam_def
  strict_InviteToTeam_def

lemmas wrap_defs = wrap_GetOrphanTasks_def wrap_GetTeamSummaries_def wrap_GetTopContributors_def wrap_ListTeams_def
  wrap_GetTaskHistory_def wrap_ListTaskComments_def wrap_Login_def wrap_Register_def
  wrap_CreateTask_def wrap_UpdateTask_def wrap_AddTaskComment_def wrap_CreateTeam_def
  wrap_InviteToTeam_def

lemma declared_routes: "map fst declared = map (\<lambda>(m, p, f). (m, p)) routes"
  by (simp add: declared_def routes_def)

text \<open>The wrapper object that \<open>mountV1\<close> registers.\<close>

definition app_wrapper :: "api_lib \<Rightarrow> 'w handler \<Rightarrow> 'w ServerInterfaceWrapper" where
  "app_wrapper lib h =
     \<lparr>siw_Handler = NewStrictHandler lib (strict_server h), siw_HandlerMiddlewares = [], siw_ErrorHandlerFunc = bad_param\<rparr>"

lemma wrap_app:
  "wrap_GetOrphanTasks lib (app_wrapper lib h) user i rq = strict default_options rq BodyOrphans (GetOrphanTasks h user)"
  "wrap_GetTeamSummaries lib (app_wrapper lib h) user i rq = strict default_options rq BodySummaries (GetTeamSummaries h user)"
  "wrap_GetTopContributors lib (app_wrapper lib h) user i rq =
     strict default_options rq BodyContributors (GetTopContributors h user)"
  "wrap_ListTeams lib (app_wrapper lib h) user i rq = strict default_options rq BodyTeams (ListTeams h user)"
  "wrap_GetTaskHistory lib (app_wrapper lib h) user i rq =
     with_param (bad_param rq) ''id'' (al_BindUUID lib i) (\<lambda>i. strict default_options rq BodyHistory (GetTaskHistory h user i))"
  "wrap_ListTaskComments lib (app_wrapper lib h) user i rq =
     with_param (bad_param rq) ''id'' (al_BindUUID lib i) (\<lambda>i. strict default_options rq BodyComments (ListTaskComments h user i))"
  "wrap_Login lib (app_wrapper lib h) user i rq =
     with_body default_options rq (al_LoginRequest lib (rq_Body rq)) (\<lambda>b. strict default_options rq BodyToken (Login h (Some b)))"
  "wrap_Register lib (app_wrapper lib h) user i rq =
     with_body default_options rq (al_RegisterRequest lib (rq_Body rq)) (\<lambda>b.
       strict default_options rq (\<lambda>_. BodyNone) (Register h (Some b)))"
  "wrap_CreateTask lib (app_wrapper lib h) user i rq =
     with_body default_options rq (al_CreateTaskRequest lib (rq_Body rq)) (\<lambda>b.
       strict default_options rq BodyTask (CreateTask h user (Some b)))"
  "wrap_UpdateTask lib (app_wrapper lib h) user i rq =
     with_param (bad_param rq) ''id'' (al_BindUUID lib i) (\<lambda>i.
       with_body default_options rq (al_UpdateTaskRequest lib (rq_Body rq)) (\<lambda>b.
         strict default_options rq BodyTask (UpdateTask h user i (Some b))))"
  "wrap_AddTaskComment lib (app_wrapper lib h) user i rq =
     with_param (bad_param rq) ''id'' (al_BindUUID lib i) (\<lambda>i.
       with_body default_options rq (al_AddCommentRequest lib (rq_Body rq)) (\<lambda>b.
         strict default_options rq BodyComment (AddTaskComment h user i (Some b))))"
  "wrap_CreateTeam lib (app_wrapper lib h) user i rq =
     with_body default_options rq (al_CreateTeamRequest lib (rq_Body rq)) (\<lambda>b.
       strict default_options rq BodyTeam (CreateTeam h user (Some b)))"
  "wrap_InviteToTeam lib (app_wrapper lib h) user i rq =
     with_param (bad_param rq) ''id'' (al_BindUUID lib i) (\<lambda>i.
       with_body default_options rq (al_InviteRequest lib (rq_Body rq)) (\<lambda>b.
         strict default_options rq (\<lambda>_. BodyNone) (InviteToTeam h user i (Some b))))"
  by (simp_all add: wrap_defs strict_defs app_wrapper_def NewStrictHandler_def NewStrictHandlerWithOptions_def strict_server_def Let_def)

lemma wrap_app_ListTasks:
  "wrap_ListTasks lib (app_wrapper lib h) user i rq =
     (case bind_list_params lib (rq_Query rq) of
        Inl (name, e) \<Rightarrow> State_Monad.return (bad_param rq (InvalidParamFormatError name e))
      | Inr params \<Rightarrow> strict default_options rq BodyTaskList (ListTasks_handler h user params))"
  by (simp add: wrap_ListTasks_def strict_ListTasks_def app_wrapper_def NewStrictHandler_def
      NewStrictHandlerWithOptions_def strict_server_def Let_def split: sum.splits)

text \<open>A router whose entries come from the table of routes finds the entry of the table.\<close>

lemma ServeHTTP_routes:
  "router_ServeHTTP lib (map (\<lambda>(m, p, f). (m, base @ p, f lib siw)) routes) user rq =
     (case List.find (\<lambda>(m, p, _). m = rq_Method rq \<and> al_Match lib (base @ p) (rq_Path rq) \<noteq> None) routes of
        None \<Rightarrow> State_Monad.return (al_Other lib rq)
      | Some (m, p, f) \<Rightarrow>
          (case al_Match lib (base @ p) (rq_Path rq) of
             None \<Rightarrow> State_Monad.return (al_Other lib rq)
           | Some idp \<Rightarrow> f lib siw user idp rq))"
  unfolding router_ServeHTTP_def by (subst find_map) (simp add: case_prod_unfold split: option.split)

lemma mountV1_routes:
  "mountV1 lib h user rq =
     (case List.find (\<lambda>(m, p, _). m = rq_Method rq \<and> al_Match lib (''/api/v1'' @ p) (rq_Path rq) \<noteq> None) routes of
        None \<Rightarrow> State_Monad.return (al_Other lib rq)
      | Some (m, p, f) \<Rightarrow>
          (case al_Match lib (''/api/v1'' @ p) (rq_Path rq) of
             None \<Rightarrow> State_Monad.return (al_Other lib rq)
           | Some idp \<Rightarrow> f lib (app_wrapper lib h) user idp rq))"
proof -
  have "mountV1 lib h =
      router_ServeHTTP lib (map (\<lambda>(m, p, f). (m, ''/api/v1'' @ p, f lib (app_wrapper lib h))) routes)"
    unfolding mountV1_def HandlerFromMux_def HandlerWithOptions_def router_Route_def app_wrapper_def
    by (simp add: Let_def case_prod_unfold o_def)
  then show ?thesis unfolding ServeHTTP_routes [symmetric] by simp
qed

text \<open>
  The same router with its operations written out, which is what a request is evaluated with.
\<close>

datatype operation =
    OpGetOrphanTasks
  | OpGetTeamSummaries
  | OpGetTopContributors
  | OpLogin
  | OpRegister
  | OpListTasks
  | OpCreateTask
  | OpUpdateTask
  | OpListTaskComments
  | OpAddTaskComment
  | OpGetTaskHistory
  | OpListTeams
  | OpCreateTeam
  | OpInviteToTeam

definition operations :: "(string \<times> string \<times> operation) list" where
  "operations =
     [(''GET'', ''/analytics/orphan-tasks'', OpGetOrphanTasks),
      (''GET'', ''/analytics/team-summaries'', OpGetTeamSummaries),
      (''GET'', ''/analytics/top-contributors'', OpGetTopContributors),
      (''POST'', ''/login'', OpLogin),
      (''POST'', ''/register'', OpRegister),
      (''GET'', ''/tasks'', OpListTasks),
      (''POST'', ''/tasks'', OpCreateTask),
      (''PUT'', ''/tasks/{id}'', OpUpdateTask),
      (''GET'', ''/tasks/{id}/comments'', OpListTaskComments),
      (''POST'', ''/tasks/{id}/comments'', OpAddTaskComment),
      (''GET'', ''/tasks/{id}/history'', OpGetTaskHistory),
      (''GET'', ''/teams'', OpListTeams),
      (''POST'', ''/teams'', OpCreateTeam),
      (''POST'', ''/teams/{id}/invite'', OpInviteToTeam)]"

fun served :: "api_lib \<Rightarrow> 'w handler \<Rightarrow> operation \<Rightarrow> uuid option \<Rightarrow> string \<Rightarrow> http_request \<Rightarrow> ('w, http_response) state" where
  "served lib h OpGetOrphanTasks user idp rq =
     strict default_options rq BodyOrphans (GetOrphanTasks h user)"
| "served lib h OpGetTeamSummaries user idp rq =
     strict default_options rq BodySummaries (GetTeamSummaries h user)"
| "served lib h OpGetTopContributors user idp rq =
     strict default_options rq BodyContributors (GetTopContributors h user)"
| "served lib h OpLogin user idp rq =
     with_body default_options rq (al_LoginRequest lib (rq_Body rq)) (\<lambda>b.
       strict default_options rq BodyToken (Login h (Some b)))"
| "served lib h OpRegister user idp rq =
     with_body default_options rq (al_RegisterRequest lib (rq_Body rq)) (\<lambda>b.
       strict default_options rq (\<lambda>_. BodyNone) (Register h (Some b)))"
| "served lib h OpListTasks user idp rq =
     (case bind_list_params lib (rq_Query rq) of
        Inl (name, e) \<Rightarrow> State_Monad.return (bad_param rq (InvalidParamFormatError name e))
      | Inr params \<Rightarrow> strict default_options rq BodyTaskList (ListTasks_handler h user params))"
| "served lib h OpCreateTask user idp rq =
     with_body default_options rq (al_CreateTaskRequest lib (rq_Body rq)) (\<lambda>b.
       strict default_options rq BodyTask (CreateTask h user (Some b)))"
| "served lib h OpUpdateTask user idp rq =
     with_param (bad_param rq) ''id'' (al_BindUUID lib idp) (\<lambda>i.
       with_body default_options rq (al_UpdateTaskRequest lib (rq_Body rq)) (\<lambda>b.
       strict default_options rq BodyTask (UpdateTask h user i (Some b))))"
| "served lib h OpListTaskComments user idp rq =
     with_param (bad_param rq) ''id'' (al_BindUUID lib idp) (\<lambda>i.
       strict default_options rq BodyComments (ListTaskComments h user i))"
| "served lib h OpAddTaskComment user idp rq =
     with_param (bad_param rq) ''id'' (al_BindUUID lib idp) (\<lambda>i.
       with_body default_options rq (al_AddCommentRequest lib (rq_Body rq)) (\<lambda>b.
       strict default_options rq BodyComment (AddTaskComment h user i (Some b))))"
| "served lib h OpGetTaskHistory user idp rq =
     with_param (bad_param rq) ''id'' (al_BindUUID lib idp) (\<lambda>i.
       strict default_options rq BodyHistory (GetTaskHistory h user i))"
| "served lib h OpListTeams user idp rq =
     strict default_options rq BodyTeams (ListTeams h user)"
| "served lib h OpCreateTeam user idp rq =
     with_body default_options rq (al_CreateTeamRequest lib (rq_Body rq)) (\<lambda>b.
       strict default_options rq BodyTeam (CreateTeam h user (Some b)))"
| "served lib h OpInviteToTeam user idp rq =
     with_param (bad_param rq) ''id'' (al_BindUUID lib idp) (\<lambda>i.
       with_body default_options rq (al_InviteRequest lib (rq_Body rq)) (\<lambda>b.
       strict default_options rq (\<lambda>_. BodyNone) (InviteToTeam h user i (Some b))))"

lemma routes_served:
  "map (\<lambda>(m, p, f). (m, p, f lib (app_wrapper lib h))) routes = map (\<lambda>(m, p, op). (m, p, served lib h op)) operations"
  by (simp add: routes_def operations_def fun_eq_iff wrap_app wrap_app_ListTasks)

lemma find_routes:
  "List.find (\<lambda>(m, p, _). P m p) (map (\<lambda>(m, p, f). (m, p, g f)) xs) = map_option (\<lambda>(m, p, f). (m, p, g f)) (List.find (\<lambda>(m, p, _). P m p) xs)"
  by (subst find_map) (simp add: case_prod_unfold)

lemma mountV1_code [code]:
  "mountV1 lib h user rq =
     (case List.find (\<lambda>(m, p, _). m = rq_Method rq \<and> al_Match lib (''/api/v1'' @ p) (rq_Path rq) \<noteq> None) operations of
        None \<Rightarrow> State_Monad.return (al_Other lib rq)
      | Some (m, p, op) \<Rightarrow>
          (case al_Match lib (''/api/v1'' @ p) (rq_Path rq) of
             None \<Rightarrow> State_Monad.return (al_Other lib rq)
           | Some idp \<Rightarrow> served lib h op user idp rq))"
proof -
  let ?P = "\<lambda>(m, p, _). m = rq_Method rq \<and> al_Match lib (''/api/v1'' @ p) (rq_Path rq) \<noteq> None"
  have "map_option (\<lambda>(m, p, f). (m, p, f lib (app_wrapper lib h))) (List.find ?P routes) =
      map_option (\<lambda>(m, p, op). (m, p, served lib h op)) (List.find ?P operations)"
    unfolding find_routes [symmetric] routes_served ..
  then show ?thesis unfolding mountV1_routes by (auto split: option.splits)
qed

lemma route_of_routes:
  "route_of lib rq =
     (case List.find (\<lambda>(m, p, _). m = rq_Method rq \<and> al_Match lib (''/api/v1'' @ p) (rq_Path rq) \<noteq> None) routes of
        None \<Rightarrow> None
      | Some (m, p, f) \<Rightarrow> map_option (Pair (m, p)) (al_Match lib (''/api/v1'' @ p) (rq_Path rq)))"
  unfolding route_of_def declared_routes [where 'a = 'a] by (subst find_map) (simp add: case_prod_unfold split: option.split)

lemma mount_route:
  fixes h :: "'w handler"
  assumes "route_of lib rq = Some ((m, p), i)"
  obtains f where "(m, p, f) \<in> set routes" "\<And>user. mountV1 lib h user rq = f lib (app_wrapper lib h) user i rq"
proof -
  let ?P = "\<lambda>(m, p, _). m = rq_Method rq \<and> al_Match lib (''/api/v1'' @ p) (rq_Path rq) \<noteq> None"
  from assms obtain f :: "api_lib \<Rightarrow> 'w ServerInterfaceWrapper \<Rightarrow> uuid option \<Rightarrow> string \<Rightarrow> http_request \<Rightarrow> ('w, http_response) state"
    where f: "List.find ?P routes = Some (m, p, f)" and i: "al_Match lib (''/api/v1'' @ p) (rq_Path rq) = Some i"
    unfolding route_of_routes [where 'a = 'w] by (auto split: option.splits)
  show thesis
  proof (rule that)
    from f show "(m, p, f) \<in> set routes" by (rule find_in_set)
    show "mountV1 lib h user rq = f lib (app_wrapper lib h) user i rq" for user unfolding mountV1_routes f using i by simp
  qed
qed

lemma mount_other:
  fixes h :: "'w handler"
  shows "route_of lib rq = None \<Longrightarrow> mountV1 lib h user rq = State_Monad.return (al_Other lib rq)"
  unfolding route_of_routes [where 'a = 'w] mountV1_routes by (auto split: option.splits)

end
