(* ===== verification/Middleware.thy ===== *)
theory Middleware
  imports Api_Server
begin

text \<open>
  \<open>internal/middleware\<close>: the request identifier, the metrics, the caller's identity and the rate
  limiter.  A middleware is a function from the rest of the chain to a computation on the state
  of the process: the limiters by key, the recorded metrics, the route pattern in chi's context of the
  request at hand, and the shared world.
\<close>

section \<open>The state of the process\<close>

record 'l node =
  nd_limiters :: "string \<Rightarrow> ('l \<times> time) option"
  nd_total :: "(string \<times> string \<times> string) list"
  nd_duration :: "(string \<times> string \<times> time) list"
  nd_RoutePattern :: string
  nd_world :: world

definition on_world :: "(world, 'a) state \<Rightarrow> ('l node, 'a) state" where
  "on_world m = State (\<lambda>n. case run_state m (nd_world n) of (x, w) \<Rightarrow> (x, n\<lparr>nd_world := w\<rparr>))"

definition message_json :: "string \<Rightarrow> string" where
  "message_json msg = ''{\"message\":\"'' @ msg @ ''\"}''"

section \<open>Who the caller is\<close>

text \<open>
  \<open>jwt.go\<close>: a request without an Authorization header continues without a user; any other
  header must be a valid bearer token.
\<close>

definition keyfunc :: "string \<Rightarrow> signing_method \<Rightarrow> err + string" where
  "keyfunc secret m =
     (case m of
        SigningMethodHMAC \<Rightarrow> Inr secret
      | OtherMethod _ \<Rightarrow> Inl (ErrorString ''signature is invalid''))"

definition authenticate :: "runtime \<Rightarrow> string \<Rightarrow> time \<Rightarrow> string \<Rightarrow> string + uuid option" where
  "authenticate rt secret now auth =
     (if auth = '''' then Inr None
      else case CutPrefix auth ''Bearer '' of (raw, ok) \<Rightarrow>
        if \<not> ok then Inl ''invalid authorization header''
        else case rt_ParseJWT rt (keyfunc secret) now raw of
          Inl _ \<Rightarrow> Inl ''invalid token''
        | Inr (valid, subject) \<Rightarrow>
            if \<not> valid then Inl ''invalid token''
            else case subject of
              Inl _ \<Rightarrow> Inl ''invalid token claims''
            | Inr sub \<Rightarrow> (case rt_Parse rt sub of Inl _ \<Rightarrow> Inl ''invalid token subject'' | Inr i \<Rightarrow> Inr (Some i)))"

text \<open>\<open>jwt.Parse\<close> reads the clock to check the expiry; without a bearer token it is not called.\<close>

definition JWT ::
  "runtime \<Rightarrow> string \<Rightarrow> http_request \<Rightarrow> (uuid option \<Rightarrow> ('l node, http_response) state) \<Rightarrow> ('l node, http_response) state" where
  "JWT rt secret rq next = do {
     now \<leftarrow> (if snd (CutPrefix (rq_Authorization rq) ''Bearer '') then on_world (time_Now rt) else State_Monad.return 0);
     case authenticate rt secret now (rq_Authorization rq) of
       Inl msg \<Rightarrow> State_Monad.return (http_Error (message_json msg) 401)
     | Inr user \<Rightarrow> next user }"

section \<open>Request identifiers\<close>

definition RequestID ::
  "runtime \<Rightarrow> http_request \<Rightarrow> ('l node, http_response) state \<Rightarrow> ('l node, http_response) state" where
  "RequestID rt rq next =
     (if rq_RequestID rq = '''' then do {
        r \<leftarrow> on_world (uuid_NewV7 rt);
        case r of
          Inl e \<Rightarrow> State_Monad.return (http_Error ''internal server error'' 500)
        | Inr i \<Rightarrow> do { resp \<leftarrow> next; State_Monad.return (resp\<lparr>hr_RequestID := rt_String rt i\<rparr>) } }
      else do { resp \<leftarrow> next; State_Monad.return (resp\<lparr>hr_RequestID := rq_RequestID rq\<rparr>) })"

section \<open>Metrics\<close>

text \<open>
  chi's route context: the router empties it when a request arrives and fills in the pattern
  when it has come through the middlewares and is routed.
\<close>

definition ctx_Reset :: "('l node, unit) state" where
  "ctx_Reset = State (\<lambda>n. ((), n\<lparr>nd_RoutePattern := ''''\<rparr>))"

definition routeHTTP :: "api_lib \<Rightarrow> http_request \<Rightarrow> ('l node, http_response) state \<Rightarrow> ('l node, http_response) state" where
  "routeHTTP lib rq next = do {
     _ \<leftarrow> State (\<lambda>n. ((), n\<lparr>nd_RoutePattern := al_Pattern lib (rq_Method rq) (rq_Path rq)\<rparr>));
     next }"

text \<open>
  The counter and the histogram are recorded with method, route pattern and status; the raw path
  is used where the context has no pattern.
\<close>

definition route_label :: "string \<Rightarrow> http_request \<Rightarrow> string" where
  "route_label pattern rq = (if pattern \<noteq> '''' then pattern else rq_Path rq)"

definition Metrics :: "runtime \<Rightarrow> http_request \<Rightarrow> ('l node, http_response) state \<Rightarrow> ('l node, http_response) state" where
  "Metrics rt rq next = do {
     start \<leftarrow> on_world (time_Now rt);
     resp \<leftarrow> next;
     pattern \<leftarrow> State (\<lambda>n. (nd_RoutePattern n, n));
     let path = route_label pattern rq;
     let status = fmt_d (int (hr_Status resp));
     _ \<leftarrow> State (\<lambda>n. ((), n\<lparr>nd_total := nd_total n @ [(rq_Method rq, path, status)]\<rparr>));
     stop \<leftarrow> on_world (time_Now rt);
     _ \<leftarrow> State (\<lambda>n. ((), n\<lparr>nd_duration := nd_duration n @ [(rq_Method rq, path, stop - start)]\<rparr>));
     State_Monad.return resp }"

section \<open>The rate limiter\<close>

text \<open>\<open>net.SplitHostPort\<close>: host and port at the last colon, an IPv6 host in brackets.\<close>

definition last_index :: "char \<Rightarrow> string \<Rightarrow> nat option" where
  "last_index c s = (if c \<in> set s then Some (length s - 1 - length (takeWhile (\<lambda>x. x \<noteq> c) (rev s))) else None)"

definition SplitHostPort :: "string \<Rightarrow> err + string \<times> string" where
  "SplitHostPort s =
     (let addr = (\<lambda>m. ErrorString (''address '' @ s @ '': '' @ m)) in
      case last_index (CHR '':'') s of
        None \<Rightarrow> Inl (addr ''missing port in address'')
      | Some i \<Rightarrow>
          if take 1 s = ''['' then
            (if CHR '']'' \<notin> set s then Inl (addr ''missing ']' in address'')
             else let end = length (takeWhile (\<lambda>x. x \<noteq> CHR '']'') s) in
               if end + 1 = length s then Inl (addr ''missing port in address'')
               else if end + 1 \<noteq> i then
                 Inl (addr (if s ! (end + 1) = CHR '':'' then ''too many colons in address'' else ''missing port in address''))
               else if CHR ''['' \<in> set (drop 1 s) then Inl (addr ''unexpected '[' in address'')
               else if CHR '']'' \<in> set (drop (end + 1) s) then Inl (addr ''unexpected ']' in address'')
               else Inr (take (end - 1) (drop 1 s), drop (i + 1) s))
          else if CHR '':'' \<in> set (take i s) then Inl (addr ''too many colons in address'')
          else if CHR ''['' \<in> set s then Inl (addr ''unexpected '[' in address'')
          else if CHR '']'' \<in> set s then Inl (addr ''unexpected ']' in address'')
          else Inr (take i s, drop (i + 1) s))"

text \<open>
  \<open>golang.org/x/time/rate\<close> is a parameter: a new limiter for so many requests per minute, and
  whether an event may happen now.
\<close>

record 'l rate_lib =
  rl_NewLimiter :: "int \<Rightarrow> 'l"
  rl_Allow :: "time \<Rightarrow> 'l \<Rightarrow> bool \<times> 'l"

definition limiter_key :: "(uuid \<Rightarrow> string) \<Rightarrow> uuid option \<Rightarrow> string \<Rightarrow> string" where
  "limiter_key str user remote =
     (case user of
        Some i \<Rightarrow> ''u:'' @ str i
      | None \<Rightarrow> ''ip:'' @ (case SplitHostPort remote of Inl _ \<Rightarrow> remote | Inr (host, _) \<Rightarrow> host))"

definition getLimiter ::
  "'l rate_lib \<Rightarrow> int \<Rightarrow> time \<Rightarrow> string \<Rightarrow> (string \<Rightarrow> ('l \<times> time) option) \<Rightarrow> 'l \<times> (string \<Rightarrow> ('l \<times> time) option)" where
  "getLimiter rl rpm now key limiters =
     (let l = (case limiters key of None \<Rightarrow> rl_NewLimiter rl rpm | Some (l, _) \<Rightarrow> l)
      in (l, limiters(key \<mapsto> (l, now))))"

definition RateLimit ::
  "runtime \<Rightarrow> 'l rate_lib \<Rightarrow> int \<Rightarrow> http_request \<Rightarrow> uuid option \<Rightarrow> ('l node, http_response) state \<Rightarrow> ('l node, http_response) state" where
  "RateLimit rt rl rpm rq user next = do {
     let key = limiter_key (rt_String rt) user (rq_RemoteAddr rq);
     seen \<leftarrow> on_world (time_Now rt);
     l \<leftarrow> State (\<lambda>n. case getLimiter rl rpm seen key (nd_limiters n) of (l, ls) \<Rightarrow> (l, n\<lparr>nd_limiters := ls\<rparr>));
     now \<leftarrow> on_world (time_Now rt);
     case rl_Allow rl now l of (ok, l') \<Rightarrow> do {
       _ \<leftarrow> State (\<lambda>n. ((), n\<lparr>nd_limiters := (nd_limiters n)(key \<mapsto> (l', seen))\<rparr>));
       if \<not> ok then State_Monad.return (http_Error (message_json ''too many requests'') 429) else next } }"

text \<open>
  One round of the cleanup goroutine: every key not seen for more than ten minutes is deleted.
  The clock is read for each key, so each may see another time.
\<close>

definition cleanup_idle :: time where
  "cleanup_idle = 10 * 60 * 1000000000"

definition cleanup :: "(string \<Rightarrow> time) \<Rightarrow> (string \<Rightarrow> ('l \<times> time) option) \<Rightarrow> string \<Rightarrow> ('l \<times> time) option" where
  "cleanup now limiters =
     (\<lambda>key. case limiters key of
        None \<Rightarrow> None
      | Some (l, lastSeen) \<Rightarrow> if now key - lastSeen > cleanup_idle then None else Some (l, lastSeen))"

section \<open>Identifying the caller of a token\<close>

lemma authenticate_issued:
  assumes "runtime_laws rt" and "rt_Sign rt secret (rt_String rt u, ex) = Inr token" and "now < ex * 1000000000"
  shows "authenticate rt secret now (''Bearer '' @ token) = Inr (Some u)"
proof -
  have "rt_ParseJWT rt (keyfunc secret) now token = Inr (True, Inr (rt_String rt u))"
    using assms by (simp add: runtime_laws_def jwt_laws_def keyfunc_def)
  moreover have "rt_Parse rt (rt_String rt u) = Inr u" using assms(1) by (simp add: runtime_laws_def uuid_laws_def)
  moreover have "CutPrefix (''Bearer '' @ token) ''Bearer '' = (token, True)" by (rule CutPrefix_append)
  ultimately show ?thesis by (simp add: authenticate_def del: append.simps)
qed

end
