(* ===== verification/System.thy ===== *)
theory System
  imports MySQL_User MySQL_Comment MySQL_Analytics Task_Contract Middleware
begin

text \<open>
  \<open>internal/app/app.go\<close>: the services wired to the MySQL storages, the Redis cache and the
  e-mail client; the contracts of the services interpreted on that wiring; and the states
  the running service can reach.
\<close>

section \<open>The wiring\<close>

record config =
  cfg_JWTSecret :: string
  cfg_JWTExpiry :: time
  cfg_TaskListTTL :: time
  cfg_EmailBaseURL :: string
  cfg_RequestsPerMinute :: int

definition taskSvc :: "server \<Rightarrow> redis_server \<Rightarrow> runtime \<Rightarrow> config \<Rightarrow> world task_service" where
  "taskSvc srv rds rt cfg =
     task_New (SaveTask srv) (GetTaskByID srv, ListTasks srv) (UpdateTaskWithHistory srv) (ListHistory srv)
       (GetMemberRole srv) (cache_Get rds, cache_Set rds, cache_Invalidate rds) (cfg_TaskListTTL cfg)
       (uuid_NewV7 rt, time_Now rt, rt_String rt, rt_Marshal rt, rt_Unmarshal rt)"

definition teamSvc :: "server \<Rightarrow> runtime \<Rightarrow> config \<Rightarrow> world team_service" where
  "teamSvc srv rt cfg =
     team_New (CreateTeamWithOwner srv, SaveMember srv) (GetTeamsByUser srv, GetTeamByID srv, GetMemberRole srv)
       (GetByID srv) (SendInvite rt (cfg_EmailBaseURL cfg)) (uuid_NewV7 rt, time_Now rt)"

definition authSvc :: "server \<Rightarrow> runtime \<Rightarrow> config \<Rightarrow> world auth_service" where
  "authSvc srv rt cfg =
     auth_New (SaveUser srv) (GetByEmail srv) (cfg_JWTSecret cfg) (cfg_JWTExpiry cfg)
       (bcrypt_Generate rt, rt_Compare rt, uuid_NewV7 rt, time_Now rt, rt_String rt, rt_Sign rt)"

definition commentSvc :: "server \<Rightarrow> world comment_service" where
  "commentSvc srv = comment_New (SaveComment srv) (ListComments srv) (GetTaskByID srv) (GetMemberRole srv)"

definition analyticsSvc :: "server \<Rightarrow> world analytics_service" where
  "analyticsSvc srv = analytics_New (TeamSummaries srv) (TopContributors srv) (OrphanTasks srv)"

definition app_handler :: "server \<Rightarrow> redis_server \<Rightarrow> runtime \<Rightarrow> config \<Rightarrow> world handler" where
  "app_handler srv rds rt cfg =
     handler_New (authSvc srv rt cfg) (teamSvc srv rt cfg) (taskSvc srv rds rt cfg) (commentSvc srv) (analyticsSvc srv)"

text \<open>The invariant of the running service: the libraries keep their laws, the data is in order.\<close>

abbreviation sys_inv :: "server \<Rightarrow> redis_server \<Rightarrow> runtime \<Rightarrow> world \<Rightarrow> bool" where
  "sys_inv srv rds rt \<equiv> base_inv (runtime_laws rt \<and> redis_laws rds) srv"

lemma sys_invI:
  "server_laws srv \<Longrightarrow> redis_laws rds \<Longrightarrow> runtime_laws rt \<Longrightarrow> world_ok srv w \<Longrightarrow> sys_inv srv rds rt w"
  by (simp add: base_inv_def store_inv_def)

lemma sys_invD:
  assumes "sys_inv srv rds rt w"
  shows "server_laws srv" "redis_laws rds" "runtime_laws rt" "world_ok srv w" "db_ok srv (tick w) (db w)"
  using assms by (simp_all add: base_inv_def store_inv_def world_ok_def)

section \<open>The contracts hold\<close>

lemma team_members_roles: "team_members d = team_members d' \<Longrightarrow> role_view d = role_view d'"
  by (simp add: role_view_def fun_eq_iff)

lemma wired_laws: "(Q \<Longrightarrow> runtime_laws rt) \<Longrightarrow> base_inv (Q \<and> redis_laws rds) srv w \<Longrightarrow> runtime_laws rt"
  by (simp add: base_inv_def)

lemma task_service_wired:
  assumes Q: "Q \<Longrightarrow> runtime_laws rt"
  shows "task_service_deps (base_inv (Q \<and> redis_laws rds) srv) db outside (taskSvc srv rds rt cfg) task_view
    history_view team_members other_tables (stored_task srv) (entry_stored srv) replace_task (task_page srv)
    role_view cache_entries (coerce_task (rt_Coerce rt))"
proof (rule task_service_deps.intro, goal_cases)
  case 1
  show ?case unfolding taskSvc_def by simp (rule mysql_tasks.task_store_axioms)
next
  case 2
  show ?case unfolding taskSvc_def by simp (rule mysql_members.member_checker_axioms)
next
  case 3
  show ?case unfolding taskSvc_def by simp (rule redis_cache.cache_store_axioms)
next
  case 4
  note laws = wired_laws [of Q rt rds srv, OF Q]
  show ?case
  proof (unfold_locales, goal_cases)
    case (3 w e w' g)
    then show ?case using NewV7_Inl [OF laws [OF _ 3(1)]] by (simp add: taskSvc_def)
  next
    case (4 w)
    then show ?case using laws by (auto simp: taskSvc_def runtime_laws_def uuid_laws_def)
  next
    case (5 w ts n b)
    then show ?case using Unmarshal_Marshal [OF laws [OF _ 5(1)]] by (simp add: taskSvc_def)
  qed (auto simp: taskSvc_def intro: quiet_base reads_runtime team_members_roles)
qed

interpretation task_svc: task_service_deps "sys_inv srv rds rt" db outside "taskSvc srv rds rt cfg" task_view
    history_view team_members other_tables "stored_task srv" "entry_stored srv" replace_task "task_page srv"
    role_view cache_entries "coerce_task (rt_Coerce rt)"
  for srv rds rt cfg
  by (rule task_service_wired)

interpretation team_svc: team_service_deps "sys_inv srv rds rt" db outside "teamSvc srv rt cfg" role_view team_view
    user_view all_teams non_team_tables "stored_team srv" "mail_sent (cfg_EmailBaseURL cfg)"
  for srv rds rt cfg
proof (rule team_service_deps.intro, goal_cases)
  case 1
  show ?case unfolding teamSvc_def by simp (rule mysql_teams.team_store_axioms)
next
  case 2
  show ?case unfolding teamSvc_def by simp (rule email_client.notifier_axioms)
next
  case 3
  show ?case
  proof (unfold_locales, goal_cases)
    case (3 w e w' g)
    then show ?case using NewV7_Inl [OF sys_invD(3) [OF 3(1)]] by (simp add: teamSvc_def)
  qed (auto simp: teamSvc_def intro: quiet_base reads_runtime)
qed

interpretation comment_svc: comment_service_deps "sys_inv srv rds rt" db outside "commentSvc srv" task_view role_view
    comment_view non_comment_tables "comment_stored srv"
  for srv rds rt
proof (rule comment_service_deps.intro, goal_cases)
  case 1
  show ?case unfolding commentSvc_def by simp (rule mysql_tasks.task_getter_axioms)
next
  case 2
  show ?case unfolding commentSvc_def by simp (rule mysql_members.member_checker_axioms)
next
  case 3
  show ?case unfolding commentSvc_def by simp (rule mysql_comments.comment_store_axioms)
qed

lemma stored_user_password:
  assumes "text_kept srv" and "length (user_Password u) = 60" and "stored_user srv u = Some s"
  shows "user_Password s = user_Password u"
proof -
  from assms(3) have "srv_text srv (Varchar 255) (user_Password u) = Some (user_Password s)"
    by (auto simp: stored_user_def col_text_def split: sum.splits option.splits)
  moreover have "length (user_Password u) \<le> 255" using assms(2) by simp
  ultimately show ?thesis using assms(1) unfolding text_kept_def by blast
qed

interpretation auth_svc: auth_service_deps "sys_inv srv rds rt" db outside "authSvc srv rt cfg" "email_view srv"
    non_user_tables "same_email srv" "stored_user srv"
  for srv rds rt cfg
proof (rule auth_service_deps.intro, goal_cases)
  case 1
  show ?case unfolding authSvc_def by simp (rule mysql_users.user_store_axioms)
next
  case 2
  show ?case
  proof (unfold_locales, goal_cases)
    case (3 w e w' g)
    then show ?case using NewV7_Inl [OF sys_invD(3) [OF 3(1)]] by (simp add: authSvc_def)
  next
    case (5 w pw e w' g)
    then show ?case using Generate_Inl [OF sys_invD(3) [OF 5(1)]] by (simp add: authSvc_def)
  next
    case (6 w pw h w')
    then show ?case using Generate_Inr [OF sys_invD(3) [OF 6(1)]] by (simp add: authSvc_def)
  next
    case (7 w pw h w' usr s)
    then have "length h = 60" "text_kept srv"
      using Generate_Inr [OF sys_invD(3) [OF 7(1)]] sys_invD(1) by (simp_all add: authSvc_def server_laws_def)
    with 7 stored_user_password show ?case by metis
  next
    case (8 k claims e w g)
    then show ?case using Sign_Inl [OF sys_invD(3) [OF 8(2)]] by (simp add: authSvc_def)
  qed (auto simp: authSvc_def intro: quiet_base reads_runtime)
qed

section \<open>A cache that never fails\<close>

text \<open>
  The cache can only be trusted when its deletions succeed and a write that reports an error
  has not happened: no call to Redis loses its connection, and no call to MySQL loses it after
  the server has acted.
\<close>

definition dependable :: "server \<Rightarrow> redis_server \<Rightarrow> bool" where
  "dependable srv rds \<longleftrightarrow> (\<forall>n. rds_fault rds n = NoFault) \<and> (\<forall>n m. srv_fault srv n \<noteq> LostAfter m)"

lemma Exec_certain:
  assumes "\<forall>n m. srv_fault srv n \<noteq> LostAfter m" and "run_state (db_Exec srv stmt) w = (Inl e, w')"
  shows "db w' = db w"
  using assms by (auto simp: db_Exec_def Let_def split: fault.splits sum.splits)

lemma SaveTask_certain:
  assumes "\<forall>n m. srv_fault srv n \<noteq> LostAfter m" and "run_state (SaveTask srv t) w = (Inl e, w')"
  shows "db w' = db w"
proof -
  obtain x v where x: "run_state (db_Exec srv (\<lambda>k. insert_tasks srv (task_args t))) w = (x, v)" by fastforce
  with assms(2) have "w' = v" and "\<exists>e. x = Inl e" by (auto simp: SaveTask_def on_err_def split: sum.splits)
  with Exec_certain [OF assms(1)] x show ?thesis by blast
qed

lemma update_in_tx_certain:
  assumes sure: "\<forall>n m. srv_fault srv n \<noteq> LostAfter m" and tx: "tx w = Some d"
    and run: "run_state (update_in_tx srv t es) w = (Inl e, w')"
  shows "db w' = db w"
proof -
  obtain u v where u: "run_state (tx_Exec srv (\<lambda>k. update_tasks srv (task_args t))) w = (u, v)" by fastforce
  with tx have v: "db v = db w" "\<exists>d'. tx v = Some d'" by (auto simp: tx_Exec_def split: fault.splits sum.splits)
  then obtain d' where d': "tx v = Some d'" by blast
  obtain h v2 where h: "run_state (insert_entries srv es) v = (h, v2)" by fastforce
  from insert_entries_run [OF d' h] have v2: "db v2 = db v" by simp
  obtain c v3 where c: "run_state (tx_Commit srv) v2 = (c, v3)" by fastforce
  have v3: "db v3 = db v2" if "c = Inl x" for x
    using c that sure by (auto simp: tx_Commit_def split: fault.splits option.splits)
  have "w' = v \<or> w' = v2 \<or> w' = v3 \<and> (\<exists>x. c = Inl x)"
    using run u h c by (cases u; cases h; cases c) (simp_all add: update_in_tx_def)
  then show ?thesis using v(1) v2 v3 by auto
qed

lemma UpdateTaskWithHistory_certain:
  assumes sure: "\<forall>n m. srv_fault srv n \<noteq> LostAfter m" and run: "run_state (UpdateTaskWithHistory srv t es) w = (Inl e, w')"
  shows "db w' = db w"
proof (cases "srv_fault srv (tick w)")
  case NoFault
  obtain x v where xv: "run_state (update_in_tx srv t es) ((advance w)\<lparr>tx := Some (db w)\<rparr>) = (x, v)" by fastforce
  with run NoFault have "x = Inl e" and "w' = v\<lparr>tx := None\<rparr>"
    by (simp_all add: UpdateTaskWithHistory_def with_tx_def db_Begin_def tx_Rollback_def)
  with update_in_tx_certain [OF sure _ xv [unfolded \<open>x = Inl e\<close>]] show ?thesis by simp
qed (use sure run in \<open>auto simp: UpdateTaskWithHistory_def with_tx_def db_Begin_def\<close>)

lemma scan_loop_certain:
  assumes "\<forall>n. rds_fault rds n = NoFault"
  shows "fst (run_state (scan_loop rds pat n c) w) \<in> {Inr (), Inl out_of_fuel}"
proof (induction n arbitrary: c w)
  case (Suc n)
  obtain keys c' where sc: "scan_here rds pat c w = (keys, c')" by fastforce
  have del: "\<exists>v. run_state (if length keys > 0 then client_Del rds keys else State_Monad.return (Inr ())) u = (Inr (), v)" for u
    using assms by (simp add: client_Del_def client_Do_def Let_def)
  obtain v where v: "run_state (if length keys > 0 then client_Del rds keys else State_Monad.return (Inr ()))
      ((advance w)\<lparr>redis := live_entries rds w\<rparr>) = (Inr (), v)" using del by blast
  have "run_state (scan_loop rds pat (Suc n) c) w =
      (if c' = 0 then (Inr (), v) else run_state (scan_loop rds pat n c') v)"
    using v by (simp add: client_Scan_def client_Do_def Let_def assms sc)
  then show ?case using Suc [of c' v] by (cases "c' = 0") simp_all
qed simp

lemma Invalidate_certain:
  assumes "\<forall>n. rds_fault rds n = NoFault" and "redis_laws rds" and "run_state (cache_Invalidate rds pat) w = (u, w')"
  shows "u = Inr ()"
proof (cases "HasSuffix pat ''*''")
  case True
  with assms(3) have "run_state (scan_loop rds pat (rds_calls rds (length (redis w))) 0) w = (u, w')"
    by (simp add: cache_Invalidate_def)
  with scan_loop_enough [OF assms(2), of pat w] scan_loop_certain [OF assms(1), of pat _ 0 w] show ?thesis
    by (metis fst_conv insert_iff singletonD)
next
  case False
  with assms(1,3) show ?thesis
    by (auto simp: cache_Invalidate_def client_Del_def client_Do_def Let_def on_err_def split: prod.splits sum.splits)
qed

abbreviation dependable_inv :: "server \<Rightarrow> redis_server \<Rightarrow> runtime \<Rightarrow> world \<Rightarrow> bool" where
  "dependable_inv srv rds rt \<equiv> base_inv ((dependable srv rds \<and> runtime_laws rt) \<and> redis_laws rds) srv"

lemma dependable_invI: "dependable srv rds \<Longrightarrow> sys_inv srv rds rt w \<Longrightarrow> dependable_inv srv rds rt w"
  by (simp add: base_inv_def)

lemma dependable_invD: "dependable_inv srv rds rt w \<Longrightarrow> dependable srv rds \<and> redis_laws rds"
  by (simp add: base_inv_def)

interpretation sure_tasks: reliable_task_service "dependable_inv srv rds rt" db outside "taskSvc srv rds rt cfg" task_view
    history_view team_members other_tables "stored_task srv" "entry_stored srv" replace_task "task_page srv"
    role_view cache_entries "coerce_task (rt_Coerce rt)"
  for srv rds rt cfg
proof (rule reliable_task_service.intro)
  show "task_service_deps (dependable_inv srv rds rt) db outside (taskSvc srv rds rt cfg) task_view
    history_view team_members other_tables (stored_task srv) (entry_stored srv) replace_task (task_page srv)
    role_view cache_entries (coerce_task (rt_Coerce rt))"
    by (rule task_service_wired) simp
  show "reliable_task_service_axioms (dependable_inv srv rds rt) db (taskSvc srv rds rt cfg)"
  proof (unfold_locales, goal_cases)
    case (1 w p u w')
    with dependable_invD [OF 1(1)] show ?case by (auto simp: taskSvc_def dependable_def dest: Invalidate_certain)
  next
    case (2 w t e w')
    with dependable_invD [OF 2(1)] show ?case by (auto simp: taskSvc_def dependable_def dest: SaveTask_certain)
  next
    case (3 w t es e w')
    with dependable_invD [OF 3(1)] show ?case by (auto simp: taskSvc_def dependable_def dest: UpdateTaskWithHistory_certain)
  qed
qed

end
