(* ===== verification/Reachable.thy ===== *)
theory Reachable
  imports System
begin

text \<open>
  The service as a state machine.  A step is one call of a service method on the wired
  application, with any arguments and any outcome the outside allows, or the passing of time;
  requests to the HTTP API are sequences of such steps.  The invariants are proved by rule
  induction: integrity of the tables, no open transaction, assignees are team members, and a
  coherent cache.
\<close>

section \<open>Steps\<close>

text \<open>The list queries that occur are restricted by \<open>allowed\<close>.\<close>

inductive svc_step ::
  "(TaskFilter \<Rightarrow> bool) \<Rightarrow> server \<Rightarrow> redis_server \<Rightarrow> runtime \<Rightarrow> config \<Rightarrow> world \<Rightarrow> world \<Rightarrow> bool"
  for allowed srv rds rt cfg where
  time_passes: "svc_step allowed srv rds rt cfg w (advance w)"
| register: "run_state (auth_Register (authSvc srv rt cfg) email name pw) w = (r1, w') \<Longrightarrow> svc_step allowed srv rds rt cfg w w'"
| login: "run_state (auth_Login (authSvc srv rt cfg) email pw) w = (r2, w') \<Longrightarrow> svc_step allowed srv rds rt cfg w w'"
| team_create: "run_state (team_Create (teamSvc srv rt cfg) c name) w = (r3, w') \<Longrightarrow> svc_step allowed srv rds rt cfg w w'"
| team_list: "run_state (team_ListForUser (teamSvc srv rt cfg) c) w = (r4, w') \<Longrightarrow> svc_step allowed srv rds rt cfg w w'"
| team_invite: "run_state (team_Invite (teamSvc srv rt cfg) c t u) w = (r5, w') \<Longrightarrow> svc_step allowed srv rds rt cfg w w'"
| task_create: "run_state (task_Create (taskSvc srv rds rt cfg) c cinput) w = (r6, w') \<Longrightarrow> svc_step allowed srv rds rt cfg w w'"
| task_list: "run_state (task_List (taskSvc srv rds rt cfg) c f) w = (r7, w') \<Longrightarrow> allowed f \<Longrightarrow> svc_step allowed srv rds rt cfg w w'"
| task_update: "run_state (task_Update (taskSvc srv rds rt cfg) c i uinput) w = (r8, w') \<Longrightarrow> svc_step allowed srv rds rt cfg w w'"
| task_history: "run_state (task_History (taskSvc srv rds rt cfg) c i) w = (r9, w') \<Longrightarrow> svc_step allowed srv rds rt cfg w w'"
| comment_add: "run_state (comment_Add (commentSvc srv) c i body) w = (r10, w') \<Longrightarrow> svc_step allowed srv rds rt cfg w w'"
| comment_list: "run_state (comment_List (commentSvc srv) c i) w = (r11, w') \<Longrightarrow> svc_step allowed srv rds rt cfg w w'"
| summaries: "run_state (analytics_TeamSummaries (analyticsSvc srv)) w = (r12, w') \<Longrightarrow> svc_step allowed srv rds rt cfg w w'"
| contributors: "run_state (analytics_TopContributors (analyticsSvc srv)) w = (r13, w') \<Longrightarrow> svc_step allowed srv rds rt cfg w w'"
| orphans: "run_state (analytics_OrphanTasks (analyticsSvc srv)) w = (r14, w') \<Longrightarrow> svc_step allowed srv rds rt cfg w w'"

inductive reachable ::
  "(TaskFilter \<Rightarrow> bool) \<Rightarrow> server \<Rightarrow> redis_server \<Rightarrow> runtime \<Rightarrow> config \<Rightarrow> world \<Rightarrow> bool"
  for allowed srv rds rt cfg where
  reach_init: "reachable allowed srv rds rt cfg init_world"
| reach_step: "reachable allowed srv rds rt cfg w \<Longrightarrow> svc_step allowed srv rds rt cfg w w' \<Longrightarrow>
    reachable allowed srv rds rt cfg w'"

section \<open>Integrity\<close>

lemma reads_try_or [keeps_intros]: "reads m \<Longrightarrow> (\<And>x. reads (k x)) \<Longrightarrow> reads (try_or g m k)"
  unfolding try_or_def by (intro keeps_intros)

lemma reads_report:
  "reads (analytics_TeamSummaries (analyticsSvc srv))" "reads (analytics_TopContributors (analyticsSvc srv))"
  "reads (analytics_OrphanTasks (analyticsSvc srv))"
  by (simp_all add: analytics_TeamSummaries_def analytics_TopContributors_def analytics_OrphanTasks_def analyticsSvc_def
      reads_try_or reads_return reads_analytics)

lemma quiet_report:
  assumes "sys_inv srv rds rt w" and "reads m" and "run_state m w = (r, w')"
  shows "sys_inv srv rds rt w' \<and> db w' = db w \<and> outside w' = outside w"
  using quietD [OF quiet_base [OF assms(2)] assms(1,3)] .

lemma sys_inv_advance: "sys_inv srv rds rt w \<Longrightarrow> sys_inv srv rds rt (advance w)"
  by (erule base_inv_frame) simp_all

lemma step_sys_inv:
  assumes "svc_step allowed srv rds rt cfg w w'" and inv: "sys_inv srv rds rt w"
  shows "sys_inv srv rds rt w'"
  using assms(1)
proof cases
  case time_passes
  with sys_inv_advance [OF inv] show ?thesis by simp
next
  case register
  with auth_svc.Register_run [OF inv] show ?thesis by blast
next
  case login
  with auth_svc.Login_run [OF inv] show ?thesis by blast
next
  case team_create
  with team_svc.Create_run [OF inv] show ?thesis by blast
next
  case team_list
  then show ?thesis using team_svc.teams_quiet
    by (auto simp: team_ListForUser_def intro: quietD [OF quiet_try_orI [OF team_svc.teams_quiet quiet_return] inv, THEN conjunct1])
next
  case (team_invite c t u r)
  from inv team_invite show ?thesis by (cases rule: team_svc.Invite_cases) auto
next
  case (task_create c input r)
  from inv task_create show ?thesis
    by (cases rule: task_svc.Create_cases) (auto dest: task_svc.cache_keeps(3))
next
  case task_list
  with task_svc.List_run [OF inv] show ?thesis by blast
next
  case (task_update c i input r)
  from inv task_update show ?thesis
    by (cases rule: task_svc.Update_cases) (auto dest: task_svc.cache_keeps(3))
next
  case task_history
  with task_svc.History_cases(1) [OF inv] show ?thesis by blast
next
  case comment_add
  with comment_svc.Add_run [OF inv] show ?thesis by blast
next
  case comment_list
  with comment_svc.List_run [OF inv] show ?thesis by blast
next
  case (summaries r)
  from quiet_report [OF inv reads_report(1) summaries] show ?thesis by simp
next
  case (contributors r)
  from quiet_report [OF inv reads_report(2) contributors] show ?thesis by simp
next
  case (orphans r)
  from quiet_report [OF inv reads_report(3) orphans] show ?thesis by simp
qed

lemma reachable_sys_inv:
  assumes laws: "server_laws srv" "redis_laws rds" "runtime_laws rt" and "reachable allowed srv rds rt cfg w"
  shows "sys_inv srv rds rt w"
  using assms(4)
proof induction
  case reach_init
  then show ?case using laws world_ok_init by (rule sys_invI)
next
  case (reach_step w w')
  then show ?case using step_sys_inv by blast
qed

section \<open>No transaction stays open\<close>

definition idle :: "world \<Rightarrow> bool" where
  "idle w \<longleftrightarrow> tx w = None"

lemma idle_reads: "reads m \<Longrightarrow> keeps idle m"
  by (rule keepsI) (simp add: idle_def reads_def)

lemma idle_cache: "cache_only m \<Longrightarrow> keeps idle m"
  by (rule keepsI) (simp add: idle_def cache_only_def)

lemma idle_Exec: "keeps idle (db_Exec srv stmt)"
  by (rule keepsI) (auto simp: idle_def elim!: db_Exec_cases)

lemma idle_with_tx: "keeps idle (with_tx srv body)"
  by (rule keepsI) (simp add: idle_def with_tx_closed)

lemma keeps_try_or [keeps_intros]: "keeps I m \<Longrightarrow> (\<And>x. keeps I (k x)) \<Longrightarrow> keeps I (try_or g m k)"
  unfolding try_or_def by (intro keeps_intros)

lemma idle_writes:
  "keeps idle (SaveTask srv t)" "keeps idle (UpdateTaskWithHistory srv t es)" "keeps idle (SaveUser srv u)"
  "keeps idle (CreateTeamWithOwner srv team c)" "keeps idle (SaveMember srv x y role)" "keeps idle (SaveComment srv k)"
  unfolding SaveTask_def UpdateTaskWithHistory_def SaveUser_def CreateTeamWithOwner_def SaveMember_def SaveComment_def db_Exec_id_def
  by (intro keeps_intros idle_Exec idle_with_tx idle_reads reads_get)+

lemma idle_SendInvite: "keeps idle (SendInvite rt url addr name)"
  by (rule keepsI) (auto simp: idle_def dest: SendInvite_run)

lemmas idle_ops = idle_writes idle_SendInvite
  idle_reads [OF reads_GetTaskByID] idle_reads [OF reads_ListTasks] idle_reads [OF reads_ListHistory]
  idle_reads [OF reads_GetMemberRole] idle_reads [OF reads_GetTeamByID] idle_reads [OF reads_GetTeamsByUser]
  idle_reads [OF reads_GetByEmail] idle_reads [OF reads_GetByID] idle_reads [OF reads_ListComments]
  idle_reads [OF reads_runtime(1)] idle_reads [OF reads_runtime(2)] idle_reads [OF reads_runtime(3)]
  idle_cache [OF cache_only_cache(1)] idle_cache [OF cache_only_cache(2)] idle_cache [OF cache_only_cache(3)]

lemma idle_services:
  "keeps idle (auth_Register (authSvc srv rt cfg) email name pw)" "keeps idle (auth_Login (authSvc srv rt cfg) email pw)"
  "keeps idle (team_Create (teamSvc srv rt cfg) c name)" "keeps idle (team_ListForUser (teamSvc srv rt cfg) c)"
  "keeps idle (team_Invite (teamSvc srv rt cfg) c t u)"
  "keeps idle (comment_Add (commentSvc srv) c i body)" "keeps idle (comment_List (commentSvc srv) c i)"
  unfolding auth_Register_def register_user_def auth_Login_def team_Create_def team_ListForUser_def team_Invite_def
    comment_Add_def comment_List_def
  by (intro keeps_intros; simp add: authSvc_def teamSvc_def commentSvc_def idle_ops)+

lemma idle_tasks:
  "keeps idle (task_Create (taskSvc srv rds rt cfg) c cinput)" "keeps idle (task_List (taskSvc srv rds rt cfg) c f)"
  "keeps idle (task_Update (taskSvc srv rds rt cfg) c i uinput)" "keeps idle (task_History (taskSvc srv rds rt cfg) c i)"
  unfolding task_Create_def task_List_def list_uncached_def task_Update_def task_History_def buildHistoryEntries_eq prod.case
  by (intro keeps_intros; simp add: taskSvc_def idle_ops)+

lemma idle_run: "keeps idle m \<Longrightarrow> run_state m w = (r, w') \<Longrightarrow> idle w \<Longrightarrow> idle w'"
  by (rule keepsD)

lemma step_idle:
  assumes "svc_step allowed srv rds rt cfg w w'" and "idle w"
  shows "idle w'"
  using assms
proof cases
  case time_passes
  with \<open>idle w\<close> show ?thesis by (simp add: idle_def)
qed (erule (1) idle_run [rotated], rule idle_services idle_tasks idle_reads [OF reads_report(1)]
    idle_reads [OF reads_report(2)] idle_reads [OF reads_report(3)])+

lemma reachable_idle: "reachable allowed srv rds rt cfg w \<Longrightarrow> idle w"
proof (induction rule: reachable.induct)
  case reach_init
  show ?case by (simp add: idle_def init_world_def)
next
  case (reach_step w w')
  then show ?case using step_idle by blast
qed

section \<open>Assignees are members of the team\<close>

definition assignees_ok :: "database \<Rightarrow> bool" where
  "assignees_ok d \<longleftrightarrow> (\<forall>i t a. task_view d i = Some t \<longrightarrow> task_AssigneeID t = Some a \<longrightarrow>
     role_view d (task_TeamID t) a \<noteq> None)"

text \<open>
  A calm step leaves the tasks and their history alone, ends no membership and caches nothing
  new.  All steps but three are calm.
\<close>

definition calm :: "world \<Rightarrow> world \<Rightarrow> bool" where
  "calm w w' \<longleftrightarrow> task_view (db w') = task_view (db w) \<and> history_view (db w') = history_view (db w) \<and>
     (\<forall>t u. role_view (db w) t u \<noteq> None \<longrightarrow> role_view (db w') t u \<noteq> None) \<and>
     cache_entries (outside w') \<subseteq> cache_entries (outside w)"

lemma tables_views:
  "tasks d' = tasks d \<Longrightarrow> task_view d' = task_view d" "team_members d' = team_members d \<Longrightarrow> role_view d' = role_view d"
  "task_history d' = task_history d \<Longrightarrow> history_view d' = history_view d"
  by (simp_all add: task_view_def role_view_def history_view_def fun_eq_iff)

lemma calm_same: "db w' = db w \<Longrightarrow> outside w' = outside w \<Longrightarrow> calm w w'"
  by (simp add: calm_def)

lemma calm_tables:
  "tasks (db w') = tasks (db w) \<Longrightarrow> task_history (db w') = task_history (db w) \<Longrightarrow>
     team_members (db w') = team_members (db w) \<Longrightarrow> outside w' = outside w \<Longrightarrow> calm w w'"
  unfolding calm_def by (drule tables_views(1), drule tables_views(2), drule tables_views(3)) simp

lemma calm_roles:
  "tasks (db w') = tasks (db w) \<Longrightarrow> task_history (db w') = task_history (db w) \<Longrightarrow>
     role_view (db w') = set_role (role_view (db w)) t u v \<Longrightarrow>
     cache_entries (outside w') = cache_entries (outside w) \<Longrightarrow> calm w w'"
  unfolding calm_def by (drule tables_views(1), drule tables_views(3)) (simp add: set_role_def)

lemma register_calm:
  assumes inv: "sys_inv srv rds rt w" and run: "run_state (auth_Register (authSvc srv rt cfg) email name pw) w = (r, w')"
  shows "calm w w'"
proof -
  have "non_user_tables (db w') = non_user_tables (db w)" if "auth_svc.registered srv rt cfg email name pw (db w) (db w')"
    using that by (auto simp: account_added_def)
  with auth_svc.Register_run [OF inv run] have "non_user_tables (db w') = non_user_tables (db w)" "outside w' = outside w"
    by (auto split: sum.splits)
  then show ?thesis by (intro calm_tables) (simp_all add: non_user_tables_def)
qed

lemma team_create_calm:
  assumes inv: "sys_inv srv rds rt w" and run: "run_state (team_Create (teamSvc srv rt cfg) c name) w = (r, w')"
  shows "calm w w'"
proof -
  have added: "calm w w'" if "team_added role_view team_view non_team_tables (stored_team srv) team c (db w) (db w')"
    "outside w' = outside w" for team
    using that by (intro calm_roles) (auto simp: team_added_def non_team_tables_def)
  with team_svc.Create_run [OF inv run] calm_same show ?thesis by (cases r) auto
qed

lemma team_invite_calm:
  assumes inv: "sys_inv srv rds rt w" and run: "run_state (team_Invite (teamSvc srv rt cfg) c t u) w = (r, w')"
  shows "calm w w'"
proof -
  have saved: "calm w w'" if "member_saved role_view team_view non_team_tables t u RoleMember (db w) (db w')"
    "cache_entries (outside w') = cache_entries (outside w)"
    using that by (intro calm_roles) (auto simp: member_saved_def non_team_tables_def)
  from inv run show ?thesis
  proof (cases rule: team_svc.Invite_cases)
    case (refused e)
    then show ?thesis by (intro calm_same)
  next
    case (unsure e)
    with saved calm_same show ?thesis by auto
  next
    case (invited team usr)
    then have "cache_entries (outside w') = cache_entries (outside w)" by (auto simp: mail_sent_def cache_entries_def)
    with saved invited(6) show ?thesis by blast
  qed
qed

lemma comment_add_calm:
  assumes inv: "sys_inv srv rds rt w" and run: "run_state (comment_Add (commentSvc srv) c i body) w = (r, w')"
  shows "calm w w'"
proof -
  from comment_svc.Add_run [OF inv run] have "non_comment_tables (db w') = non_comment_tables (db w)" "outside w' = outside w"
    by (auto simp: comment_added_def split: sum.splits)
  then show ?thesis by (intro calm_tables) (simp_all add: non_comment_tables_def)
qed

lemma team_list_quiet:
  assumes "sys_inv srv rds rt w" and "run_state (team_ListForUser (teamSvc srv rt cfg) c) w = (r, w')"
  shows "sys_inv srv rds rt w' \<and> db w' = db w \<and> outside w' = outside w"
  using quietD [OF quiet_try_orI [OF team_svc.teams_quiet quiet_return] assms(1) assms(2) [unfolded team_ListForUser_def]] .

lemma step_kinds:
  assumes step: "svc_step allowed srv rds rt cfg w w'" and inv: "sys_inv srv rds rt w"
  obtains (calm) "calm w w'"
  | (creates) c cinput r where "run_state (task_Create (taskSvc srv rds rt cfg) c cinput) w = (r, w')"
  | (lists) c f r where "run_state (task_List (taskSvc srv rds rt cfg) c f) w = (r, w')" "allowed f"
  | (updates) c i uinput r where "run_state (task_Update (taskSvc srv rds rt cfg) c i uinput) w = (r, w')"
  using step
proof cases
  case time_passes
  then show thesis by (intro that(1) calm_same) (simp_all add: outside_def)
next
  case register
  then show thesis by (intro that(1) register_calm [OF inv])
next
  case login
  from auth_svc.Login_run [OF inv login] show thesis by (intro that(1) calm_same) simp_all
next
  case team_create
  then show thesis by (intro that(1) team_create_calm [OF inv])
next
  case team_list
  from team_list_quiet [OF inv team_list] show thesis by (intro that(1) calm_same) simp_all
next
  case team_invite
  then show thesis by (intro that(1) team_invite_calm [OF inv])
next
  case task_create
  then show thesis by (rule that(2))
next
  case task_list
  then show thesis by (rule that(3))
next
  case task_update
  then show thesis by (rule that(4))
next
  case task_history
  from task_svc.History_cases(1) [OF inv task_history] show thesis by (intro that(1) calm_same) simp_all
next
  case comment_add
  then show thesis by (intro that(1) comment_add_calm [OF inv])
next
  case comment_list
  from comment_svc.List_run [OF inv comment_list] show thesis by (intro that(1) calm_same) simp_all
next
  case summaries
  from quiet_report [OF inv reads_report(1) summaries] show thesis by (intro that(1) calm_same) simp_all
next
  case contributors
  from quiet_report [OF inv reads_report(2) contributors] show thesis by (intro that(1) calm_same) simp_all
next
  case orphans
  from quiet_report [OF inv reads_report(3) orphans] show thesis by (intro that(1) calm_same) simp_all
qed

lemma assignees_ok_saved:
  assumes "task_saved task_view (\<lambda>d. (history_view d, team_members d, other_tables d)) (stored_task srv) t d d'"
    and may: "may_create (role_view d) c input" and "task_for input c t" and ok: "assignees_ok d"
  shows "assignees_ok d'"
proof -
  from assms(1) obtain s where s: "stored_task srv t = Some s" "task_view d' = (task_view d)(task_ID t \<mapsto> s)"
    and m: "team_members d' = team_members d" by (auto simp: task_saved_def)
  have r: "role_view d' = role_view d" using tables_views(2) [OF m] .
  have "role_view d (task_TeamID s) a \<noteq> None" if "task_AssigneeID s = Some a" for a
    using that may assms(3) stored_task_ids(2,4) [OF s(1)] by (auto simp: may_create_def task_for_def)
  with ok s(2) show ?thesis by (auto simp: assignees_ok_def r)
qed

lemma assignees_ok_changed:
  assumes "task_changed task_view history_view (\<lambda>d. (team_members d, other_tables d)) (stored_task srv)
      (entry_stored srv) replace_task ((apply_update input t)\<lparr>task_UpdatedAt := now\<rparr>) es d d'"
    and t: "task_view d i = Some t" and may: "may_update (role_view d) c t input" and ok: "assignees_ok d"
  shows "assignees_ok d'"
proof -
  have id: "task_ID ((apply_update input t)\<lparr>task_UpdatedAt := now\<rparr>) = i"
    using task_view_ID [OF t] by (simp add: apply_update_def)
  from assms(1) obtain s where s: "stored_task srv ((apply_update input t)\<lparr>task_UpdatedAt := now\<rparr>) = Some s"
    and view: "\<forall>j. task_view d' j = (if j = i then map_option (replace_task s) (task_view d j) else task_view d j)"
    and m: "team_members d' = team_members d" unfolding task_changed_def id by auto
  have r: "role_view d' = role_view d" using tables_views(2) [OF m] .
  have "role_view d (task_TeamID t) a \<noteq> None" if "task_AssigneeID s = Some a" for a
  proof (cases "task_AssigneeID t = Some a")
    case True
    with ok t show ?thesis by (simp add: assignees_ok_def)
  next
    case False
    with that stored_task_ids(4) [OF s] have "uti_AssigneeID input = Some a"
      by (auto simp: apply_update_def split: if_splits)
    with may False show ?thesis by (simp add: may_update_def)
  qed
  then show ?thesis using ok view t by (auto simp: assignees_ok_def r replace_task_def)
qed

lemma step_assignees:
  assumes step: "svc_step allowed srv rds rt cfg w w'" and inv: "sys_inv srv rds rt w" and ok: "assignees_ok (db w)"
  shows "assignees_ok (db w')"
  using step inv
proof (cases rule: step_kinds)
  case calm
  with ok show ?thesis unfolding assignees_ok_def calm_def by metis
next
  case (creates c input r)
  from inv creates show ?thesis
  proof (cases rule: task_svc.Create_cases)
    case (unsure e t)
    from unsure(7) show ?thesis using ok assignees_ok_saved [OF _ unsure(3,4) ok] by (elim disjE) simp_all
  next
    case (created t v)
    then have "assignees_ok (db v)" using ok assignees_ok_saved by blast
    with created(4,7) task_svc.cache_keeps(3) show ?thesis by metis
  qed (simp add: ok)
next
  case (lists c f r)
  from task_svc.List_run [OF inv lists(1)] ok show ?thesis by simp
next
  case (updates c i input r)
  from inv updates show ?thesis
  proof (cases rule: task_svc.Update_cases)
    case (unsure e t now)
    from unsure(7) show ?thesis using ok assignees_ok_changed [OF _ unsure(3,4) ok] by (elim disjE) simp_all
  next
    case (updated t now v)
    then have "assignees_ok (db v)" using ok assignees_ok_changed by blast
    with updated(4,7) task_svc.cache_keeps(3) show ?thesis by metis
  qed (simp_all add: ok)
qed

lemma reachable_assignees:
  assumes laws: "server_laws srv" "redis_laws rds" "runtime_laws rt" and "reachable allowed srv rds rt cfg w"
  shows "assignees_ok (db w)"
  using assms(4)
proof induction
  case reach_init
  then show ?case by (simp add: assignees_ok_def init_world_def empty_database_def task_view_def)
next
  case (reach_step w w')
  then show ?case using step_assignees reachable_sys_inv [OF laws] by blast
qed

section \<open>Nothing is lost\<close>

text \<open>
  From one state to a later one every task stays, in its team and with its creator and time of
  creation, the history of a task is only extended, and no membership ends.
\<close>

definition kept :: "database \<Rightarrow> database \<Rightarrow> bool" where
  "kept d d' \<longleftrightarrow>
     (\<forall>i t. task_view d i = Some t \<longrightarrow> (\<exists>u. task_view d' i = Some u \<and> task_TeamID u = task_TeamID t \<and>
        task_CreatedBy u = task_CreatedBy t \<and> task_CreatedAt u = task_CreatedAt t)) \<and>
     (\<forall>i. \<exists>es. history_view d' i = history_view d i @ es) \<and>
     (\<forall>t u. role_view d t u \<noteq> None \<longrightarrow> role_view d' t u \<noteq> None)"

lemma kept_refl [simp]: "kept d d"
  by (simp add: kept_def)

lemma kept_trans:
  assumes "kept d d'" and "kept d' d''"
  shows "kept d d''"
  unfolding kept_def
proof (intro conjI allI impI)
  fix i t
  assume "task_view d i = Some t"
  with assms(1) obtain u where "task_view d' i = Some u" "task_TeamID u = task_TeamID t"
    "task_CreatedBy u = task_CreatedBy t" "task_CreatedAt u = task_CreatedAt t" unfolding kept_def by blast
  with assms(2) show "\<exists>v. task_view d'' i = Some v \<and> task_TeamID v = task_TeamID t \<and>
      task_CreatedBy v = task_CreatedBy t \<and> task_CreatedAt v = task_CreatedAt t" unfolding kept_def by metis
next
  fix i
  from assms show "\<exists>es. history_view d'' i = history_view d i @ es" unfolding kept_def by (metis append_assoc)
next
  fix t u
  assume "role_view d t u \<noteq> None"
  with assms show "role_view d'' t u \<noteq> None" unfolding kept_def by blast
qed

lemma kept_saved:
  "task_saved task_view (\<lambda>d. (history_view d, team_members d, other_tables d)) norm t d d' \<Longrightarrow> kept d d'"
  by (auto simp: task_saved_def kept_def dest: tables_views(2))

lemma kept_changed:
  assumes "task_changed task_view history_view (\<lambda>d. (team_members d, other_tables d)) norm same replace_task t es d d'"
  shows "kept d d'"
proof -
  from assms obtain s where s: "\<forall>i. task_view d' i = (if i = task_ID t then map_option (replace_task s) (task_view d i) else task_view d i)"
    and h: "\<forall>i. \<exists>ss. history_view d' i = history_view d i @ ss" and m: "team_members d' = team_members d"
    unfolding task_changed_def by blast
  from s have "\<exists>u. task_view d' i = Some u \<and> task_TeamID u = task_TeamID x \<and>
      task_CreatedBy u = task_CreatedBy x \<and> task_CreatedAt u = task_CreatedAt x" if "task_view d i = Some x" for i x
    using that s by (cases "i = task_ID t") (auto simp: replace_task_def)
  with h tables_views(2) [OF m] show ?thesis by (simp add: kept_def)
qed

lemma step_kept:
  assumes step: "svc_step allowed srv rds rt cfg w w'" and inv: "sys_inv srv rds rt w"
  shows "kept (db w) (db w')"
  using step inv
proof (cases rule: step_kinds)
  case calm
  then show ?thesis by (simp add: kept_def calm_def)
next
  case (creates c input r)
  from inv creates show ?thesis
  proof (cases rule: task_svc.Create_cases)
    case (unsure e t)
    then show ?thesis using kept_saved by (elim disjE) (simp, blast)
  next
    case (created t v)
    from created(7) have "db w' = db v" using task_svc.cache_keeps(3) [OF created(4)] by metis
    with kept_saved [OF created(6)] show ?thesis by simp
  qed simp
next
  case (lists c f r)
  from task_svc.List_run [OF inv lists(1)] show ?thesis by simp
next
  case (updates c i input r)
  from inv updates show ?thesis
  proof (cases rule: task_svc.Update_cases)
    case (unsure e t now)
    then show ?thesis using kept_changed by (elim disjE) (simp, blast)
  next
    case (updated t now v)
    from updated(7) have "db w' = db v" using task_svc.cache_keeps(3) [OF updated(4)] by metis
    with kept_changed [OF updated(6)] show ?thesis by simp
  qed simp_all
qed

lemma steps_kept:
  assumes "(svc_step allowed srv rds rt cfg)\<^sup>*\<^sup>* w w'" and "sys_inv srv rds rt w"
  shows "sys_inv srv rds rt w' \<and> kept (db w) (db w')"
  using assms
proof (induction rule: rtranclp_induct)
  case (step y z)
  then show ?case using step_sys_inv step_kept kept_trans by blast
qed simp

lemma reachable_steps:
  "(svc_step allowed srv rds rt cfg)\<^sup>*\<^sup>* w w' \<Longrightarrow> reachable allowed srv rds rt cfg w \<Longrightarrow> reachable allowed srv rds rt cfg w'"
  by (induction rule: rtranclp_induct) (auto intro: reach_step)

section \<open>The cache answers what the storage would\<close>

abbreviation cache_coherent :: "server \<Rightarrow> runtime \<Rightarrow> world \<Rightarrow> bool" where
  "cache_coherent srv rt w \<equiv> coherent_cache (rt_String rt) (rt_Unmarshal rt) (coerce_task (rt_Coerce rt)) (task_page srv)
     (cache_entries (outside w)) (db w)"

lemma taskSvc_codec [simp]:
  "tsv_String (taskSvc srv rds rt cfg) = rt_String rt" "tsv_Unmarshal (taskSvc srv rds rt cfg) = rt_Unmarshal rt"
  by (simp_all add: taskSvc_def)

lemma step_coherent:
  assumes step: "svc_step allowed srv rds rt cfg w w'" and inv: "sys_inv srv rds rt w" and sure: "dependable srv rds"
    and all: "\<And>f. allowed f \<Longrightarrow> tf_Status f \<noteq> Some ''all''" and coh: "cache_coherent srv rt w"
  shows "cache_coherent srv rt w'"
proof -
  note d = dependable_invI [OF sure inv]
  note d' = dependable_invI [OF sure step_sys_inv [OF step inv]]
  note coh' = coh [folded taskSvc_codec [where srv = srv and rds = rds and rt = rt and cfg = cfg]]
  from step inv show ?thesis
  proof (cases rule: step_kinds)
    case calm
    then show ?thesis using sure_tasks.coherent_frame [OF d d' coh'] by (simp add: calm_def)
  next
    case (creates c input r)
    from sure_tasks.Create_coherent [OF d coh' creates] show ?thesis by simp
  next
    case (lists c f r)
    from sure_tasks.List_run [OF d lists(1)] coh' all [OF lists(2)] have "sure_tasks.coherent srv rds rt cfg w'" by blast
    then show ?thesis by simp
  next
    case (updates c i input r)
    from sure_tasks.Update_coherent [OF d coh' updates] show ?thesis by simp
  qed
qed

lemma coherent_init: "cache_coherent srv rt init_world"
  by (simp add: coherent_cache_def init_world_def cache_entries_def outside_def)

lemma reachable_coherent:
  assumes laws: "server_laws srv" "redis_laws rds" "runtime_laws rt" and sure: "dependable srv rds"
    and all: "\<And>f. allowed f \<Longrightarrow> tf_Status f \<noteq> Some ''all''" and "reachable allowed srv rds rt cfg w"
  shows "cache_coherent srv rt w"
  using assms(6)
proof induction
  case reach_init
  show ?case by (rule coherent_init)
next
  case (reach_step w w')
  show ?case using step_coherent [OF reach_step(2) reachable_sys_inv [OF laws reach_step(1)] sure all reach_step(3)] .
qed

end
