(* ===== verification/Http.thy ===== *)
theory Http
  imports Reachable
begin

text \<open>
  The service as HTTP clients see it: \<open>internal/app/app.go\<close> puts the middlewares and the router in
  front of the handlers.  Every request is a sequence of clock readings and at most one call of a
  service method, so whatever holds in the reachable states of the services holds for the
  running server.
\<close>

section \<open>The chain\<close>

definition app_serve ::
  "api_lib \<Rightarrow> 'l rate_lib \<Rightarrow> server \<Rightarrow> redis_server \<Rightarrow> runtime \<Rightarrow> config \<Rightarrow> http_request \<Rightarrow> ('l node, http_response) state" where
  "app_serve lib rl srv rds rt cfg rq =
     ctx_Reset \<bind> (\<lambda>_.
     RequestID rt rq
       (Metrics rt rq
         (JWT rt (cfg_JWTSecret cfg) rq (\<lambda>user.
           RateLimit rt rl (cfg_RequestsPerMinute cfg) rq user
             (routeHTTP lib rq
               (on_world (mountV1 lib (app_handler srv rds rt cfg) user rq)))))))"

definition init_node :: "'l node" where
  "init_node = \<lparr>nd_limiters = (\<lambda>_. None), nd_total = [], nd_duration = [], nd_RoutePattern = '''', nd_world = init_world\<rparr>"

text \<open>A list request is allowed when its parameters, if they can be bound, give an allowed filter.\<close>

definition list_allowed :: "(TaskFilter \<Rightarrow> bool) \<Rightarrow> api_lib \<Rightarrow> http_request \<Rightarrow> bool" where
  "list_allowed allowed lib rq \<longleftrightarrow>
     (case bind_list_params lib (rq_Query rq) of Inl _ \<Rightarrow> True | Inr p \<Rightarrow> allowed (list_filter p))"

inductive node_step ::
  "(TaskFilter \<Rightarrow> bool) \<Rightarrow> api_lib \<Rightarrow> 'l rate_lib \<Rightarrow> server \<Rightarrow> redis_server \<Rightarrow> runtime \<Rightarrow> config \<Rightarrow> 'l node \<Rightarrow> 'l node \<Rightarrow> bool"
  for allowed lib rl srv rds rt cfg where
  serves: "run_state (app_serve lib rl srv rds rt cfg rq) n = (resp, n') \<Longrightarrow> list_allowed allowed lib rq \<Longrightarrow>
    node_step allowed lib rl srv rds rt cfg n n'"
| cleans: "node_step allowed lib rl srv rds rt cfg n (n\<lparr>nd_limiters := cleanup now (nd_limiters n)\<rparr>)"
| waits: "node_step allowed lib rl srv rds rt cfg n (n\<lparr>nd_world := advance (nd_world n)\<rparr>)"

inductive node_reachable ::
  "(TaskFilter \<Rightarrow> bool) \<Rightarrow> api_lib \<Rightarrow> 'l rate_lib \<Rightarrow> server \<Rightarrow> redis_server \<Rightarrow> runtime \<Rightarrow> config \<Rightarrow> 'l node \<Rightarrow> bool"
  for allowed lib rl srv rds rt cfg where
  node_init: "node_reachable allowed lib rl srv rds rt cfg init_node"
| node_next: "node_reachable allowed lib rl srv rds rt cfg n \<Longrightarrow> node_step allowed lib rl srv rds rt cfg n n' \<Longrightarrow>
    node_reachable allowed lib rl srv rds rt cfg n'"

section \<open>At most one service call\<close>

definition one_call ::
  "(TaskFilter \<Rightarrow> bool) \<Rightarrow> server \<Rightarrow> redis_server \<Rightarrow> runtime \<Rightarrow> config \<Rightarrow> (world, 'a) state \<Rightarrow> bool" where
  "one_call allowed srv rds rt cfg m \<longleftrightarrow>
     (\<forall>w x w'. run_state m w = (x, w') \<longrightarrow> w' = w \<or> svc_step allowed srv rds rt cfg w w')"

named_theorems one_call_intros

lemma one_callD: "one_call allowed srv rds rt cfg m \<Longrightarrow> run_state m w = (x, w') \<Longrightarrow> w' = w \<or> svc_step allowed srv rds rt cfg w w'"
  by (simp add: one_call_def)

lemma one_call_return [one_call_intros]: "one_call allowed srv rds rt cfg (State_Monad.return x)"
  by (simp add: one_call_def)

lemma one_call_map: "one_call allowed srv rds rt cfg m \<Longrightarrow> one_call allowed srv rds rt cfg (m \<bind> (\<lambda>r. State_Monad.return (f r)))"
  by (auto simp: one_call_def split: prod.splits)

lemma one_call_strict [one_call_intros]: "one_call allowed srv rds rt cfg m \<Longrightarrow> one_call allowed srv rds rt cfg (strict opts rq f m)"
  unfolding strict_def by (rule one_call_map)

lemma one_call_respond [one_call_intros]: "one_call allowed srv rds rt cfg m \<Longrightarrow> one_call allowed srv rds rt cfg (respond c f rows m)"
  unfolding respond_def by (rule one_call_map)

lemma one_call_with [one_call_intros]:
  "(\<And>x. one_call allowed srv rds rt cfg (k x)) \<Longrightarrow> one_call allowed srv rds rt cfg (with_body opts rq b k)"
  "(\<And>x. one_call allowed srv rds rt cfg (k x)) \<Longrightarrow> one_call allowed srv rds rt cfg (with_param on_error name b k)"
  unfolding with_body_def with_param_def by (cases b; simp add: one_call_return)+

lemma one_call_cases [one_call_intros]:
  "one_call allowed srv rds rt cfg m \<Longrightarrow> (\<And>x. one_call allowed srv rds rt cfg (k x)) \<Longrightarrow>
     one_call allowed srv rds rt cfg (case u of None \<Rightarrow> m | Some x \<Rightarrow> k x)"
  "one_call allowed srv rds rt cfg m \<Longrightarrow> one_call allowed srv rds rt cfg m' \<Longrightarrow> one_call allowed srv rds rt cfg (if b then m else m')"
  by (simp_all split: option.splits)

lemma one_call_service [one_call_intros]:
  "one_call allowed srv rds rt cfg (auth_Register (authSvc srv rt cfg) email name pw)"
  "one_call allowed srv rds rt cfg (auth_Login (authSvc srv rt cfg) email pw)"
  "one_call allowed srv rds rt cfg (team_Create (teamSvc srv rt cfg) c name)"
  "one_call allowed srv rds rt cfg (team_ListForUser (teamSvc srv rt cfg) c)"
  "one_call allowed srv rds rt cfg (team_Invite (teamSvc srv rt cfg) c t u)"
  "one_call allowed srv rds rt cfg (task_Create (taskSvc srv rds rt cfg) c cinput)"
  "allowed f \<Longrightarrow> one_call allowed srv rds rt cfg (task_List (taskSvc srv rds rt cfg) c f)"
  "one_call allowed srv rds rt cfg (task_Update (taskSvc srv rds rt cfg) c i uinput)"
  "one_call allowed srv rds rt cfg (task_History (taskSvc srv rds rt cfg) c i)"
  "one_call allowed srv rds rt cfg (comment_Add (commentSvc srv) c i body)"
  "one_call allowed srv rds rt cfg (comment_List (commentSvc srv) c i)"
  "one_call allowed srv rds rt cfg (analytics_TeamSummaries (analyticsSvc srv))"
  "one_call allowed srv rds rt cfg (analytics_TopContributors (analyticsSvc srv))"
  "one_call allowed srv rds rt cfg (analytics_OrphanTasks (analyticsSvc srv))"
  unfolding one_call_def by (blast intro: svc_step.intros)+

lemma app_handler_simps [simp]:
  "h_auth (app_handler srv rds rt cfg) = authSvc srv rt cfg" "h_teams (app_handler srv rds rt cfg) = teamSvc srv rt cfg"
  "h_tasks (app_handler srv rds rt cfg) = taskSvc srv rds rt cfg" "h_comments (app_handler srv rds rt cfg) = commentSvc srv"
  "h_analytics (app_handler srv rds rt cfg) = analyticsSvc srv"
  by (simp_all add: app_handler_def)

lemmas handler_defs = GetOrphanTasks_def GetTeamSummaries_def GetTopContributors_def ListTeams_def GetTaskHistory_def
  ListTaskComments_def Login_def Register_def CreateTask_def UpdateTask_def AddTaskComment_def CreateTeam_def InviteToTeam_def

lemma one_call_wrap:
  "one_call allowed srv rds rt cfg (wrap_GetOrphanTasks lib (app_wrapper lib (app_handler srv rds rt cfg)) user i rq)"
  "one_call allowed srv rds rt cfg (wrap_GetTeamSummaries lib (app_wrapper lib (app_handler srv rds rt cfg)) user i rq)"
  "one_call allowed srv rds rt cfg (wrap_GetTopContributors lib (app_wrapper lib (app_handler srv rds rt cfg)) user i rq)"
  "one_call allowed srv rds rt cfg (wrap_ListTeams lib (app_wrapper lib (app_handler srv rds rt cfg)) user i rq)"
  "one_call allowed srv rds rt cfg (wrap_GetTaskHistory lib (app_wrapper lib (app_handler srv rds rt cfg)) user i rq)"
  "one_call allowed srv rds rt cfg (wrap_ListTaskComments lib (app_wrapper lib (app_handler srv rds rt cfg)) user i rq)"
  "one_call allowed srv rds rt cfg (wrap_Login lib (app_wrapper lib (app_handler srv rds rt cfg)) user i rq)"
  "one_call allowed srv rds rt cfg (wrap_Register lib (app_wrapper lib (app_handler srv rds rt cfg)) user i rq)"
  "one_call allowed srv rds rt cfg (wrap_CreateTask lib (app_wrapper lib (app_handler srv rds rt cfg)) user i rq)"
  "one_call allowed srv rds rt cfg (wrap_UpdateTask lib (app_wrapper lib (app_handler srv rds rt cfg)) user i rq)"
  "one_call allowed srv rds rt cfg (wrap_AddTaskComment lib (app_wrapper lib (app_handler srv rds rt cfg)) user i rq)"
  "one_call allowed srv rds rt cfg (wrap_CreateTeam lib (app_wrapper lib (app_handler srv rds rt cfg)) user i rq)"
  "one_call allowed srv rds rt cfg (wrap_InviteToTeam lib (app_wrapper lib (app_handler srv rds rt cfg)) user i rq)"
  unfolding wrap_app handler_defs app_handler_simps option.case
  by (intro one_call_intros; simp add: one_call_intros split: prod.splits)+

lemma one_call_wrap_ListTasks:
  assumes "list_allowed allowed lib rq"
  shows "one_call allowed srv rds rt cfg (wrap_ListTasks lib (app_wrapper lib (app_handler srv rds rt cfg)) user i rq)"
proof (cases "bind_list_params lib (rq_Query rq)")
  case (Inl x)
  then show ?thesis by (cases x) (simp add: wrap_app_ListTasks one_call_return)
next
  case (Inr p)
  with assms have "allowed (list_filter p)" by (simp add: list_allowed_def)
  then show ?thesis
    unfolding wrap_app_ListTasks Inr sum.case ListTasks_handler_def Let_def app_handler_simps
    by (intro one_call_intros)
qed

lemma one_call_mount:
  assumes "list_allowed allowed lib rq"
  shows "one_call allowed srv rds rt cfg (mountV1 lib (app_handler srv rds rt cfg) user rq)"
proof -
  have "one_call allowed srv rds rt cfg (f lib (app_wrapper lib (app_handler srv rds rt cfg)) user i rq)"
    if "(m, p, f) \<in> set routes" for m p f i
    using that one_call_wrap one_call_wrap_ListTasks [OF assms] unfolding routes_def by auto
  then show ?thesis
    unfolding mountV1_routes by (auto simp: one_call_return dest!: find_in_set split: option.splits)
qed

section \<open>Requests are steps of the services\<close>

definition walks ::
  "(TaskFilter \<Rightarrow> bool) \<Rightarrow> server \<Rightarrow> redis_server \<Rightarrow> runtime \<Rightarrow> config \<Rightarrow> ('l node, 'a) state \<Rightarrow> bool" where
  "walks allowed srv rds rt cfg m \<longleftrightarrow>
     (\<forall>n x n'. run_state m n = (x, n') \<longrightarrow> (svc_step allowed srv rds rt cfg)\<^sup>*\<^sup>* (nd_world n) (nd_world n'))"

named_theorems walks_intros

lemma walks_return [walks_intros]: "walks allowed srv rds rt cfg (State_Monad.return x)"
  by (simp add: walks_def)

lemma walks_bind [walks_intros]:
  assumes "walks allowed srv rds rt cfg m" and "\<And>x. walks allowed srv rds rt cfg (k x)"
  shows "walks allowed srv rds rt cfg (m \<bind> k)"
  unfolding walks_def
proof (intro allI impI)
  fix n x n'
  assume "run_state (m \<bind> k) n = (x, n')"
  then obtain y v where "run_state m n = (y, v)" and "run_state (k y) v = (x, n')" by (rule bind_cases)
  with assms show "(svc_step allowed srv rds rt cfg)\<^sup>*\<^sup>* (nd_world n) (nd_world n')"
    unfolding walks_def by (blast intro: rtranclp_trans)
qed

lemma walks_world: "(\<And>n. nd_world (snd (f n)) = nd_world n) \<Longrightarrow> walks allowed srv rds rt cfg (State f)"
  by (simp add: walks_def) (metis rtranclp.rtrancl_refl snd_conv)

lemma walks_one_call [walks_intros]: "one_call allowed srv rds rt cfg m \<Longrightarrow> walks allowed srv rds rt cfg (on_world m)"
  unfolding walks_def on_world_def by (auto split: prod.splits dest: one_callD)

lemma one_call_clock:
  "one_call allowed srv rds rt cfg (time_Now rt')" "one_call allowed srv rds rt cfg (uuid_NewV7 rt')"
  by (auto simp: one_call_def time_Now_def uuid_NewV7_def intro: svc_step.time_passes)

lemma walks_cases [walks_intros]:
  "(\<And>e. walks allowed srv rds rt cfg (f e)) \<Longrightarrow> (\<And>x. walks allowed srv rds rt cfg (g x)) \<Longrightarrow>
     walks allowed srv rds rt cfg (case r of Inl e \<Rightarrow> f e | Inr x \<Rightarrow> g x)"
  "walks allowed srv rds rt cfg m \<Longrightarrow> walks allowed srv rds rt cfg m' \<Longrightarrow> walks allowed srv rds rt cfg (if b then m else m')"
  "(\<And>x y. walks allowed srv rds rt cfg (h x y)) \<Longrightarrow> walks allowed srv rds rt cfg (case p of (x, y) \<Rightarrow> h x y)"
  by (simp_all split: sum.splits prod.splits)

lemma walks_serve:
  assumes "list_allowed allowed lib rq"
  shows "walks allowed srv rds rt cfg (app_serve lib rl srv rds rt cfg rq)"
  unfolding app_serve_def ctx_Reset_def routeHTTP_def RequestID_def Metrics_def JWT_def RateLimit_def Let_def
  by (intro walks_intros one_call_clock one_call_mount assms walks_world) (simp_all split: prod.splits)

lemma node_world_reachable:
  assumes "node_reachable allowed lib rl srv rds rt cfg n"
  shows "reachable allowed srv rds rt cfg (nd_world n)"
  using assms
proof induction
  case node_init
  show ?case by (simp add: init_node_def reach_init)
next
  case (node_next n n')
  have star: "reachable allowed srv rds rt cfg w'" if "(svc_step allowed srv rds rt cfg)\<^sup>*\<^sup>* (nd_world n) w'" for w'
    using that by induction (use node_next.IH reach_step in auto)
  from node_next.hyps(2) show ?case
  proof cases
    case (serves rq resp)
    with walks_serve show ?thesis unfolding walks_def by (blast intro: star)
  next
    case (cleans now)
    with node_next.IH show ?thesis by simp
  next
    case waits
    then show ?thesis using reach_step [OF node_next.IH svc_step.time_passes] by simp
  qed
qed

end
