(* ===== verification/Http_Chain.thy ===== *)
theory Http_Chain
  imports Http
begin

text \<open>
  What a request can do: the outcomes of the middleware chain by cases, the response objects the
  operations can answer with, which requests are turned away, and what a successful answer
  presupposes of the caller.
\<close>

section \<open>The middleware chain\<close>

text \<open>The same world at a later time.\<close>

definition later :: "world \<Rightarrow> world \<Rightarrow> bool" where
  "later w w' \<longleftrightarrow> (\<exists>k. w' = w\<lparr>tick := tick w + k\<rparr>)"

lemma later_refl [simp]: "later w w"
  unfolding later_def by (rule exI [of _ 0]) simp

lemma later_advance [simp]: "later w (advance w)"
  unfolding later_def advance_def by (rule exI [of _ 1]) simp

lemma later_trans [trans]: "later u v \<Longrightarrow> later v w \<Longrightarrow> later u w"
  unfolding later_def by clarsimp (metis add.assoc)

lemma later_step [simp]: "later u v \<Longrightarrow> later u (advance v)"
  using later_trans later_advance by blast

lemma later_simps:
  assumes "later w w'"
  shows "db w' = db w" "tx w' = tx w" "redis w' = redis w" "outbox w' = outbox w" "outside w' = outside w" "tick w \<le> tick w'"
  using assms by (auto simp: later_def outside_def)

lemma later_sys_inv: "later w w' \<Longrightarrow> sys_inv srv rds rt w \<Longrightarrow> sys_inv srv rds rt w'"
  by (erule base_inv_frame) (simp_all add: later_simps)

text \<open>The entry a request leaves for its key.\<close>

definition touched ::
  "runtime \<Rightarrow> 'l rate_lib \<Rightarrow> int \<Rightarrow> (string \<Rightarrow> ('l \<times> time) option) \<Rightarrow> string \<Rightarrow> 'l \<times> time \<Rightarrow> bool" where
  "touched rt rl rpm limiters key x \<longleftrightarrow>
     (\<exists>k. x = (snd (rl_Allow rl (rt_Now rt (Suc k)) (fst (getLimiter rl rpm (rt_Now rt k) key limiters))), rt_Now rt k))"

text \<open>What each middleware does to the state, with the rest of the chain as an argument.\<close>

lemma RateLimit_cases:
  assumes "run_state (RateLimit rt rl rpm rq user next) n = (resp, n')"
  obtains (denied) x w where "touched rt rl rpm (nd_limiters n) (limiter_key (rt_String rt) user (rq_RemoteAddr rq)) x"
      "resp = http_Error (message_json ''too many requests'') 429" "later (nd_world n) w"
      "n' = n\<lparr>nd_world := w, nd_limiters := (nd_limiters n)(limiter_key (rt_String rt) user (rq_RemoteAddr rq) \<mapsto> x)\<rparr>"
  | (passed) x w where "touched rt rl rpm (nd_limiters n) (limiter_key (rt_String rt) user (rq_RemoteAddr rq)) x" "later (nd_world n) w"
      "run_state next (n\<lparr>nd_world := w, nd_limiters := (nd_limiters n)(limiter_key (rt_String rt) user (rq_RemoteAddr rq) \<mapsto> x)\<rparr>) = (resp, n')"
proof -
  let ?w = "advance (advance (nd_world n))"
  let ?l = "fst (getLimiter rl rpm (rt_Now rt (tick (nd_world n))) (limiter_key (rt_String rt) user (rq_RemoteAddr rq)) (nd_limiters n))"
  let ?a = "rl_Allow rl (rt_Now rt (Suc (tick (nd_world n)))) ?l"
  let ?n = "n\<lparr>nd_world := ?w, nd_limiters := (nd_limiters n)(limiter_key (rt_String rt) user (rq_RemoteAddr rq) \<mapsto>
     (snd ?a, rt_Now rt (tick (nd_world n))))\<rparr>"
  have "run_state (RateLimit rt rl rpm rq user next) n =
      (if fst ?a then run_state next ?n else (http_Error (message_json ''too many requests'') 429, ?n))"
    by (simp add: RateLimit_def Let_def on_world_def time_Now_def getLimiter_def split: prod.splits)
  moreover have w: "later (nd_world n) ?w" by simp
  moreover have t: "touched rt rl rpm (nd_limiters n) (limiter_key (rt_String rt) user (rq_RemoteAddr rq)) (snd ?a, rt_Now rt (tick (nd_world n)))"
    by (auto simp: touched_def)
  ultimately show thesis using assms denied [OF t _ w] passed [OF t w] by (cases "fst ?a") auto
qed

lemma JWT_cases:
  assumes "run_state (JWT rt secret rq next) n = (resp, n')"
  obtains (refused) msg now w where "authenticate rt secret now (rq_Authorization rq) = Inl msg"
      "resp = http_Error (message_json msg) 401" "later (nd_world n) w" "n' = n\<lparr>nd_world := w\<rparr>"
  | (passed) user now w where "authenticate rt secret now (rq_Authorization rq) = Inr user" "later (nd_world n) w"
      "run_state (next user) (n\<lparr>nd_world := w\<rparr>) = (resp, n')"
proof -
  let ?b = "snd (CutPrefix (rq_Authorization rq) ''Bearer '')"
  let ?now = "if ?b then rt_Now rt (tick (nd_world n)) else 0"
  let ?w = "if ?b then advance (nd_world n) else nd_world n"
  have w: "later (nd_world n) ?w" by simp
  have "run_state (JWT rt secret rq next) n =
      (case authenticate rt secret ?now (rq_Authorization rq) of
         Inl msg \<Rightarrow> (http_Error (message_json msg) 401, n\<lparr>nd_world := ?w\<rparr>)
       | Inr user \<Rightarrow> run_state (next user) (n\<lparr>nd_world := ?w\<rparr>))"
    by (simp add: JWT_def on_world_def time_Now_def split: sum.splits)
  with assms refused [OF _ _ w] passed [OF _ w] show thesis
    by (cases "authenticate rt secret ?now (rq_Authorization rq)") auto
qed

lemma Metrics_cases:
  assumes "run_state (Metrics rt rq next) n = (resp, n')"
  obtains w v where "later (nd_world n) w" "run_state next (n\<lparr>nd_world := w\<rparr>) = (resp, v)" "later (nd_world v) (nd_world n')"
    "nd_total n' = nd_total v @ [(rq_Method rq, route_label (nd_RoutePattern v) rq, fmt_d (int (hr_Status resp)))]"
    "nd_limiters n' = nd_limiters v"
    "map (\<lambda>(m, p, t). (m, p)) (nd_duration n') = map (\<lambda>(m, p, t). (m, p)) (nd_duration v) @ [(rq_Method rq, route_label (nd_RoutePattern v) rq)]"
proof -
  from assms obtain v where run: "run_state next (n\<lparr>nd_world := advance (nd_world n)\<rparr>) = (resp, v)"
    and n': "n' = v\<lparr>nd_total := nd_total v @ [(rq_Method rq, route_label (nd_RoutePattern v) rq, fmt_d (int (hr_Status resp)))],
      nd_duration := nd_duration v @ [(rq_Method rq, route_label (nd_RoutePattern v) rq, rt_Now rt (tick (nd_world v)) - rt_Now rt (tick (nd_world n)))],
      nd_world := advance (nd_world v)\<rparr>"
    unfolding Metrics_def on_world_def time_Now_def Let_def by (auto split: prod.splits)
  show thesis by (rule that [OF _ run]) (simp_all add: n')
qed

lemma RequestID_cases:
  assumes "run_state (RequestID rt rq next) n = (resp, n')"
  obtains (failed) w where "rq_RequestID rq = ''''" "resp = http_Error ''internal server error'' 500" "later (nd_world n) w" "n' = n\<lparr>nd_world := w\<rparr>"
  | (passed) w v i where "later (nd_world n) w" "run_state next (n\<lparr>nd_world := w\<rparr>) = (v, n')" "resp = v\<lparr>hr_RequestID := i\<rparr>"
      "i = rq_RequestID rq \<or> rq_RequestID rq = '''' \<and> (\<exists>u. i = rt_String rt u)"
proof (cases "rq_RequestID rq = ''''")
  case True
  show thesis
  proof (cases "rt_NewV7 rt (tick (nd_world n))")
    case (Inl e)
    with True assms show thesis by (intro failed [of "advance (nd_world n)"]) (simp_all add: RequestID_def on_world_def uuid_NewV7_def)
  next
    case (Inr u)
    with True assms obtain v where "run_state next (n\<lparr>nd_world := advance (nd_world n)\<rparr>) = (v, n')" "resp = v\<lparr>hr_RequestID := rt_String rt u\<rparr>"
      by (auto simp: RequestID_def on_world_def uuid_NewV7_def split: prod.splits)
    with True show thesis by (intro passed) auto
  qed
next
  case False
  with assms obtain v where "run_state next n = (v, n')" "resp = v\<lparr>hr_RequestID := rq_RequestID rq\<rparr>"
    by (auto simp: RequestID_def split: prod.splits)
  then show thesis by (intro passed [of "nd_world n" v "rq_RequestID rq"]) simp_all
qed

text \<open>The whole chain, and whether an answer is plain text (\<open>http.Error\<close>).\<close>

definition plain_text :: "api_body \<Rightarrow> bool" where
  "plain_text b = (case b of BodyText _ \<Rightarrow> True | _ \<Rightarrow> False)"

lemma serve_cases:
  assumes "run_state (app_serve lib rl srv rds rt cfg rq) n = (resp, n')"
  obtains (failed) "hr_Status resp = 500" "plain_text (hr_Body resp)" "later (nd_world n) (nd_world n')" "nd_limiters n' = nd_limiters n" "nd_total n' = nd_total n" "rq_RequestID rq = ''''" "nd_duration n' = nd_duration n"
  | (refused) msg now where "authenticate rt (cfg_JWTSecret cfg) now (rq_Authorization rq) = Inl msg"
      "hr_Status resp = 401" "hr_Body resp = BodyText (message_json msg)"
      "later (nd_world n) (nd_world n')" "nd_limiters n' = nd_limiters n"
      "nd_total n' = nd_total n @ [(rq_Method rq, rq_Path rq, fmt_d (int (hr_Status resp)))]"
      "hr_RequestID resp = rq_RequestID rq \<or> rq_RequestID rq = '''' \<and> (\<exists>u. hr_RequestID resp = rt_String rt u)"
      "map (\<lambda>(m, p, t). (m, p)) (nd_duration n') = map (\<lambda>(m, p, t). (m, p)) (nd_duration n) @ [(rq_Method rq, rq_Path rq)]"
  | (limited) user now x where "authenticate rt (cfg_JWTSecret cfg) now (rq_Authorization rq) = Inr user"
      "hr_Status resp = 429" "plain_text (hr_Body resp)" "later (nd_world n) (nd_world n')"
      "nd_limiters n' = (nd_limiters n)(limiter_key (rt_String rt) user (rq_RemoteAddr rq) \<mapsto> x)"
      "touched rt rl (cfg_RequestsPerMinute cfg) (nd_limiters n) (limiter_key (rt_String rt) user (rq_RemoteAddr rq)) x"
      "nd_total n' = nd_total n @ [(rq_Method rq, rq_Path rq, fmt_d (int (hr_Status resp)))]"
      "hr_RequestID resp = rq_RequestID rq \<or> rq_RequestID rq = '''' \<and> (\<exists>u. hr_RequestID resp = rt_String rt u)"
      "map (\<lambda>(m, p, t). (m, p)) (nd_duration n') = map (\<lambda>(m, p, t). (m, p)) (nd_duration n) @ [(rq_Method rq, rq_Path rq)]"
  | (answered) user now x w1 w2 r where "authenticate rt (cfg_JWTSecret cfg) now (rq_Authorization rq) = Inr user"
      "later (nd_world n) w1" "run_state (mountV1 lib (app_handler srv rds rt cfg) user rq) w1 = (r, w2)" "later w2 (nd_world n')"
      "hr_Status resp = hr_Status r" "hr_Body resp = hr_Body r"
      "nd_limiters n' = (nd_limiters n)(limiter_key (rt_String rt) user (rq_RemoteAddr rq) \<mapsto> x)"
      "touched rt rl (cfg_RequestsPerMinute cfg) (nd_limiters n) (limiter_key (rt_String rt) user (rq_RemoteAddr rq)) x"
      "nd_total n' = nd_total n @ [(rq_Method rq, route_label (al_Pattern lib (rq_Method rq) (rq_Path rq)) rq, fmt_d (int (hr_Status resp)))]"
      "hr_RequestID resp = rq_RequestID rq \<or> rq_RequestID rq = '''' \<and> (\<exists>u. hr_RequestID resp = rt_String rt u)"
      "map (\<lambda>(m, p, t). (m, p)) (nd_duration n') = map (\<lambda>(m, p, t). (m, p)) (nd_duration n) @ [(rq_Method rq, route_label (al_Pattern lib (rq_Method rq) (rq_Path rq)) rq)]"
proof -
  let ?n = "n\<lparr>nd_RoutePattern := ''''\<rparr>"
  from assms have "run_state (RequestID rt rq
       (Metrics rt rq
         (JWT rt (cfg_JWTSecret cfg) rq (\<lambda>user.
           RateLimit rt rl (cfg_RequestsPerMinute cfg) rq user
             (routeHTTP lib rq (on_world (mountV1 lib (app_handler srv rds rt cfg) user rq))))))) ?n = (resp, n')"
    by (simp add: app_serve_def ctx_Reset_def)
  then show thesis
  proof (cases rule: RequestID_cases)
    case (failed w)
    then show thesis by (intro that(1)) (simp_all add: http_Error_def plain_text_def)
  next
    case (passed w r1 i)
    note resp = this(3,4)
    from passed(1) have t0: "later (nd_world n) w" by simp
    from passed(2) show thesis
    proof (cases rule: Metrics_cases)
      case (1 w v)
      have t1: "later (nd_world n) w" using later_trans [OF t0] 1(1) by simp
      note t2 = 1(3) and ls = 1(4-6)
      from 1(2) show thesis
      proof (cases rule: JWT_cases)
        case (refused msg now w3)
        then have "later (nd_world n) w3" using later_trans [OF t1] by simp
        then have t: "later (nd_world n) (nd_world n')" using later_trans t2 refused(4) by simp
        show thesis using refused t ls resp by (intro that(2)) (auto simp: http_Error_def route_label_def)
      next
        case (passed user now w3)
        note auth = this(1)
        from passed(2) have t3: "later (nd_world n) w3" using later_trans [OF t1] by simp
        from passed(3) show thesis
        proof (cases rule: RateLimit_cases)
          case (denied x w4)
          then have "later (nd_world n) w4" using later_trans [OF t3] by simp
          then have t: "later (nd_world n) (nd_world n')" using later_trans t2 denied(4) by simp
          show thesis using denied t auth ls resp by (intro that(3)) (auto simp: http_Error_def plain_text_def route_label_def)
        next
          case (passed x w4)
          from passed(2) have t4: "later (nd_world n) w4" using later_trans [OF t3] by simp
          note touched = passed(1)
          from passed(3) obtain w5 where run: "run_state (mountV1 lib (app_handler srv rds rt cfg) user rq) w4 = (r1, w5)"
            and "v = n\<lparr>nd_RoutePattern := al_Pattern lib (rq_Method rq) (rq_Path rq), nd_world := w5,
              nd_limiters := (nd_limiters n)(limiter_key (rt_String rt) user (rq_RemoteAddr rq) \<mapsto> x)\<rparr>"
            by (auto simp: on_world_def routeHTTP_def split: prod.splits)
          with t2 ls resp touched show thesis by (intro that(4) [OF auth t4 run]) auto
        qed
      qed
    qed
  qed
qed

section \<open>What the operations answer\<close>

text \<open>Whatever the state, the result satisfies a predicate.\<close>

definition returns :: "('a \<Rightarrow> bool) \<Rightarrow> ('w, 'a) state \<Rightarrow> bool" where
  "returns Q m \<longleftrightarrow> (\<forall>w. Q (fst (run_state m w)))"

definition declares :: "nat list \<Rightarrow> 'a response \<Rightarrow> bool" where
  "declares codes r = (case r of Reply c _ \<Rightarrow> c \<in> set codes | Message c _ \<Rightarrow> c \<in> set codes | Failed _ \<Rightarrow> True)"

text \<open>A declared response object, or the plain text of one of the generated error handlers.\<close>

definition conforms :: "nat list \<Rightarrow> http_response \<Rightarrow> bool" where
  "conforms codes resp =
     (if plain_text (hr_Body resp) then hr_Status resp \<in> {400, 500} else hr_Status resp \<in> set codes)"

named_theorems returns_intros

lemma returns_return [returns_intros]: "Q x \<Longrightarrow> returns Q (State_Monad.return x)"
  by (simp add: returns_def)

lemma returns_case [returns_intros]:
  "returns Q m \<Longrightarrow> (\<And>x. returns Q (k x)) \<Longrightarrow> returns Q (case u of None \<Rightarrow> m | Some x \<Rightarrow> k x)"
  "returns Q m \<Longrightarrow> returns Q m' \<Longrightarrow> returns Q (if b then m else m')"
  "(\<And>x y. returns Q (h x y)) \<Longrightarrow> returns Q (case p of (x, y) \<Rightarrow> h x y)"
  by (simp_all split: option.splits prod.splits)

lemma switch_declares: "(\<forall>(s, c, msg) \<in> set rows. c \<in> set codes) \<Longrightarrow> declares codes (switch_err rows e)"
  by (induction rows e rule: switch_err.induct) (auto simp: declares_def)

lemma returns_map: "returns Q m \<Longrightarrow> (\<And>x. Q x \<Longrightarrow> R (f x)) \<Longrightarrow> returns R (m \<bind> (\<lambda>x. State_Monad.return (f x)))"
  by (simp add: returns_def case_prod_unfold)

lemma returns_respond [returns_intros]:
  assumes "c \<in> set codes" and "\<forall>(s, c, msg) \<in> set rows. c \<in> set codes"
  shows "returns (declares codes) (respond c f rows m)"
  unfolding respond_def
proof (rule returns_map [where Q = "\<lambda>_. True"])
  show "declares codes (case r of Inl e \<Rightarrow> switch_err rows e | Inr x \<Rightarrow> Reply c (f x))" for r
    using assms switch_declares by (cases r) (simp_all add: declares_def)
qed (simp add: returns_def)

lemma conforms_visit: "(\<And>x. \<not> plain_text (f x)) \<Longrightarrow> declares codes r \<Longrightarrow> conforms codes (visit_response (\<lambda>e. http_Error (Error e) 500) f r)"
  by (cases r) (simp_all add: conforms_def visit_response_def declares_def http_Error_def plain_text_def)

lemma conforms_error: "c = 400 \<or> c = 500 \<Longrightarrow> conforms codes (http_Error msg c)"
  by (auto simp: conforms_def http_Error_def plain_text_def)

lemma returns_strict [returns_intros]:
  "(\<And>x. \<not> plain_text (f x)) \<Longrightarrow> returns (declares codes) m \<Longrightarrow> returns (conforms codes) (strict default_options rq f m)"
  unfolding strict_def default_options_simps by (erule returns_map) (rule conforms_visit)

lemma returns_with [returns_intros]:
  "(\<And>x. returns (conforms codes) (k x)) \<Longrightarrow> returns (conforms codes) (with_body default_options rq b k)"
  "(\<And>x. returns (conforms codes) (k x)) \<Longrightarrow> returns (conforms codes) (with_param (bad_param rq) name b k)"
  unfolding with_body_def with_param_def bad_param_def
  by (cases b; simp add: returns_return conforms_error del: append.simps)+

lemmas responses_defs = GetOrphanTasks_responses_def GetTeamSummaries_responses_def GetTopContributors_responses_def
  ListTeams_responses_def GetTaskHistory_responses_def ListTaskComments_responses_def Login_responses_def Register_responses_def
  CreateTask_responses_def UpdateTask_responses_def AddTaskComment_responses_def CreateTeam_responses_def
  InviteToTeam_responses_def ListTasks_responses_def

lemma conforms_wrap:
  "returns (conforms GetOrphanTasks_responses) (wrap_GetOrphanTasks lib (app_wrapper lib h) user i rq)"
  "returns (conforms GetTeamSummaries_responses) (wrap_GetTeamSummaries lib (app_wrapper lib h) user i rq)"
  "returns (conforms GetTopContributors_responses) (wrap_GetTopContributors lib (app_wrapper lib h) user i rq)"
  "returns (conforms Login_responses) (wrap_Login lib (app_wrapper lib h) user i rq)"
  "returns (conforms Register_responses) (wrap_Register lib (app_wrapper lib h) user i rq)"
  "returns (conforms CreateTask_responses) (wrap_CreateTask lib (app_wrapper lib h) user i rq)"
  "returns (conforms UpdateTask_responses) (wrap_UpdateTask lib (app_wrapper lib h) user i rq)"
  "returns (conforms ListTaskComments_responses) (wrap_ListTaskComments lib (app_wrapper lib h) user i rq)"
  "returns (conforms AddTaskComment_responses) (wrap_AddTaskComment lib (app_wrapper lib h) user i rq)"
  "returns (conforms GetTaskHistory_responses) (wrap_GetTaskHistory lib (app_wrapper lib h) user i rq)"
  "returns (conforms ListTeams_responses) (wrap_ListTeams lib (app_wrapper lib h) user i rq)"
  "returns (conforms CreateTeam_responses) (wrap_CreateTeam lib (app_wrapper lib h) user i rq)"
  "returns (conforms InviteToTeam_responses) (wrap_InviteToTeam lib (app_wrapper lib h) user i rq)"
  unfolding wrap_app handler_defs
  by (intro returns_intros; simp add: plain_text_def declares_def responses_defs)+

lemma conforms_wrap_ListTasks: "returns (conforms ListTasks_responses) (wrap_ListTasks lib (app_wrapper lib h) user i rq)"
proof -
  have "returns (conforms ListTasks_responses) (strict default_options rq BodyTaskList (ListTasks_handler h user p))" for p
    unfolding ListTasks_handler_def Let_def
    by (intro returns_intros) (simp_all add: plain_text_def declares_def responses_defs)
  then show ?thesis
    unfolding wrap_app_ListTasks bad_param_def
    by (auto intro: returns_return conforms_error split: sum.splits)
qed

lemma routes_conform:
  "list_all2 (\<lambda>(m, p, f) (k, codes). k = (m, p) \<and> returns (conforms codes) (f lib (app_wrapper lib h) user i rq)) routes declared"
  by (simp add: routes_def declared_def conforms_wrap conforms_wrap_ListTasks)

lemma list_all2_left: "list_all2 P xs ys \<Longrightarrow> x \<in> set xs \<Longrightarrow> \<exists>y \<in> set ys. P x y"
  by (metis in_set_conv_nth list_all2_conv_all_nth)

lemma conforms_mount:
  assumes "route_of lib rq = Some (k, i)" and "run_state (mountV1 lib h user rq) w = (resp, w')"
  shows "\<exists>codes. (k, codes) \<in> set declared \<and> conforms codes resp"
proof -
  obtain m p where k: "k = (m, p)" by fastforce
  obtain f where f: "(m, p, f) \<in> set routes" and "mountV1 lib h user rq = f lib (app_wrapper lib h) user i rq"
    using mount_route [of lib rq m p i h] assms(1) k by metis
  with assms(2) have run: "run_state (f lib (app_wrapper lib h) user i rq) w = (resp, w')" by simp
  from list_all2_left [OF routes_conform f] obtain codes
    where "(k, codes) \<in> set declared" "returns (conforms codes) (f lib (app_wrapper lib h) user i rq)" using k by fastforce
  with run show ?thesis unfolding returns_def by (metis fst_conv)
qed


section \<open>Requests without a user\<close>

definition public_routes :: "(string \<times> string) list" where
  "public_routes = [(''POST'', ''/login''), (''POST'', ''/register'')]"

definition turned_away :: "('w, http_response) state \<Rightarrow> bool" where
  "turned_away m \<longleftrightarrow> (\<exists>resp. m = State_Monad.return resp \<and> hr_Status resp \<in> {400, 401})"

lemma turned_away_intros:
  "hr_Status resp \<in> {400, 401} \<Longrightarrow> turned_away (State_Monad.return resp)"
  "turned_away (strict default_options rq f (State_Monad.return (Message 401 msg)))"
  "(\<And>x. turned_away (k x)) \<Longrightarrow> turned_away (with_body default_options rq b k)"
  "(\<And>x. turned_away (k x)) \<Longrightarrow> turned_away (with_param (bad_param rq) name b k)"
  by (auto simp: turned_away_def strict_def visit_response_def with_body_def with_param_def bad_param_def http_Error_def simp del: append.simps split: sum.splits)

lemma turned_away_wrap:
  "turned_away (wrap_GetOrphanTasks lib (app_wrapper lib h) None i rq)" "turned_away (wrap_GetTeamSummaries lib (app_wrapper lib h) None i rq)"
  "turned_away (wrap_GetTopContributors lib (app_wrapper lib h) None i rq)" "turned_away (wrap_CreateTask lib (app_wrapper lib h) None i rq)"
  "turned_away (wrap_UpdateTask lib (app_wrapper lib h) None i rq)" "turned_away (wrap_ListTaskComments lib (app_wrapper lib h) None i rq)"
  "turned_away (wrap_AddTaskComment lib (app_wrapper lib h) None i rq)" "turned_away (wrap_GetTaskHistory lib (app_wrapper lib h) None i rq)"
  "turned_away (wrap_ListTeams lib (app_wrapper lib h) None i rq)" "turned_away (wrap_CreateTeam lib (app_wrapper lib h) None i rq)"
  "turned_away (wrap_InviteToTeam lib (app_wrapper lib h) None i rq)" "turned_away (wrap_ListTasks lib (app_wrapper lib h) None i rq)"
  unfolding wrap_app handler_defs option.case wrap_app_ListTasks ListTasks_handler_def
  by (auto intro: turned_away_intros simp: bad_param_def http_Error_def split: sum.splits)

lemma routes_turn_away:
  "list_all (\<lambda>(m, p, f). (m, p) \<in> set public_routes \<or> turned_away (f lib (app_wrapper lib h) None i rq)) routes"
  by (simp add: routes_def public_routes_def turned_away_wrap)

lemma mount_anonymous:
  assumes "route_of lib rq = Some (k, i)" and "k \<notin> set public_routes" and "run_state (mountV1 lib h None rq) w = (resp, w')"
  shows "w' = w \<and> hr_Status resp \<in> {400, 401}"
proof -
  obtain m p where k: "k = (m, p)" by fastforce
  obtain f where f: "(m, p, f) \<in> set routes" and "mountV1 lib h None rq = f lib (app_wrapper lib h) None i rq"
    using mount_route [of lib rq m p i h] assms(1) k by metis
  with assms(2,3) k routes_turn_away [of lib h i rq] show ?thesis
    by (fastforce simp: list_all_iff turned_away_def)
qed

section \<open>Requests of a user\<close>

text \<open>
  What a successful answer presupposes: the caller is a member of the team of the task, of the
  team of the new task or of the listed team, or may invite into the team.
\<close>

definition permitted :: "api_lib \<Rightarrow> database \<Rightarrow> uuid \<Rightarrow> string \<times> string \<Rightarrow> string \<Rightarrow> http_request \<Rightarrow> bool" where
  "permitted lib d u k idp rq \<longleftrightarrow>
     (k \<in> {(''PUT'', ''/tasks/{id}''), (''GET'', ''/tasks/{id}/comments''), (''POST'', ''/tasks/{id}/comments''),
           (''GET'', ''/tasks/{id}/history'')} \<longrightarrow>
        (\<exists>i t. al_BindUUID lib idp = Inr i \<and> task_view d i = Some t \<and> role_view d (task_TeamID t) u \<noteq> None)) \<and>
     (k = (''POST'', ''/teams/{id}/invite'') \<longrightarrow> (\<exists>i. al_BindUUID lib idp = Inr i \<and> may_invite (role_view d) u i)) \<and>
     (k = (''POST'', ''/tasks'') \<longrightarrow>
        (\<exists>b. al_CreateTaskRequest lib (rq_Body rq) = Inr b \<and> may_create (role_view d) u (create_input b))) \<and>
     (k = (''GET'', ''/tasks'') \<longrightarrow>
        (\<exists>t. al_QueryUUID lib ''team_id'' (rq_Query rq) = Inr (Some t) \<and> role_view d t u \<noteq> None))"

definition guarded :: "bool \<Rightarrow> world \<Rightarrow> (world, http_response) state \<Rightarrow> bool" where
  "guarded P w m \<longleftrightarrow> (hr_Status (fst (run_state m w)) < 300 \<longrightarrow> P)"

lemma guarded_with:
  "(\<And>x. b = Inr x \<Longrightarrow> guarded P w (k x)) \<Longrightarrow> guarded P w (with_body default_options rq b k)"
  "(\<And>x. b = Inr x \<Longrightarrow> guarded P w (k x)) \<Longrightarrow> guarded P w (with_param (bad_param rq) name b k)"
  unfolding with_body_def with_param_def bad_param_def
  by (cases b; simp add: guarded_def http_Error_def del: append.simps)+

lemma switch_fails: "list_all (\<lambda>(s, c, msg). 300 \<le> c) rows \<Longrightarrow> 300 \<le> hr_Status (visit_response (\<lambda>e. http_Error (Error e) 500) f (switch_err rows e))"
  by (induction rows e rule: switch_err.induct) (auto simp: visit_response_def http_Error_def)

lemma guarded_respond:
  assumes "list_all (\<lambda>(s, c, msg). 300 \<le> c) rows" and "\<And>x w'. run_state m w = (Inr x, w') \<Longrightarrow> P"
  shows "guarded P w (strict default_options rq g (respond c f rows m))"
proof -
  obtain r w' where run: "run_state m w = (r, w')" by fastforce
  show ?thesis
  proof (cases r)
    case (Inl e)
    with run switch_fails [OF assms(1), of g e] show ?thesis by (simp add: guarded_def strict_def respond_def)
  next
    case (Inr x)
    with assms(2) run show ?thesis by (simp add: guarded_def)
  qed
qed

lemma guarded_return: "300 \<le> hr_Status (visit_response (\<lambda>e. http_Error (Error e) 500) g r) \<Longrightarrow> guarded P w (strict default_options rq g (State_Monad.return r))"
  by (simp add: guarded_def strict_def)


lemma guarded_services:
  assumes inv: "sys_inv srv rds rt w"
  shows "run_state (task_Update (taskSvc srv rds rt cfg) u i input) w = (Inr t, w') \<Longrightarrow>
      \<exists>t. task_view (db w) i = Some t \<and> role_view (db w) (task_TeamID t) u \<noteq> None"
    and "run_state (task_History (taskSvc srv rds rt cfg) u i) w = (Inr hs, w') \<Longrightarrow>
      \<exists>t. task_view (db w) i = Some t \<and> role_view (db w) (task_TeamID t) u \<noteq> None"
    and "run_state (comment_Add (commentSvc srv) u i body) w = (Inr k, w') \<Longrightarrow>
      \<exists>t. task_view (db w) i = Some t \<and> role_view (db w) (task_TeamID t) u \<noteq> None"
    and "run_state (comment_List (commentSvc srv) u i) w = (Inr ks, w') \<Longrightarrow>
      \<exists>t. task_view (db w) i = Some t \<and> role_view (db w) (task_TeamID t) u \<noteq> None"
    and "run_state (team_Invite (teamSvc srv rt cfg) u tm v) w = (Inr x, w') \<Longrightarrow> may_invite (role_view (db w)) u tm"
    and "run_state (task_Create (taskSvc srv rds rt cfg) u cinput) w = (Inr t', w') \<Longrightarrow> may_create (role_view (db w)) u cinput"
    and "run_state (task_List (taskSvc srv rds rt cfg) u f) w = (Inr p, w') \<Longrightarrow>
      \<exists>T. tf_TeamID f = Some T \<and> role_view (db w) T u \<noteq> None"
proof -
  show "run_state (task_Update (taskSvc srv rds rt cfg) u i input) w = (Inr t, w') \<Longrightarrow>
      \<exists>t. task_view (db w) i = Some t \<and> role_view (db w) (task_TeamID t) u \<noteq> None"
    by (erule task_svc.Update_cases [OF inv]) (auto simp: may_update_def)
  show "run_state (task_History (taskSvc srv rds rt cfg) u i) w = (Inr hs, w') \<Longrightarrow>
      \<exists>t. task_view (db w) i = Some t \<and> role_view (db w) (task_TeamID t) u \<noteq> None"
    using task_svc.History_cases(2) [OF inv] by blast
  show "run_state (comment_Add (commentSvc srv) u i body) w = (Inr k, w') \<Longrightarrow>
      \<exists>t. task_view (db w) i = Some t \<and> role_view (db w) (task_TeamID t) u \<noteq> None"
    using comment_svc.Add_run [OF inv, of u i body "Inr k" w'] by (auto simp: may_comment_def)
  show "run_state (comment_List (commentSvc srv) u i) w = (Inr ks, w') \<Longrightarrow>
      \<exists>t. task_view (db w) i = Some t \<and> role_view (db w) (task_TeamID t) u \<noteq> None"
    using comment_svc.List_run [OF inv, of u i "Inr ks" w'] by (auto simp: may_comment_def)
  show "run_state (team_Invite (teamSvc srv rt cfg) u tm v) w = (Inr x, w') \<Longrightarrow> may_invite (role_view (db w)) u tm"
    by (erule team_svc.Invite_cases [OF inv]) auto
  show "run_state (task_Create (taskSvc srv rds rt cfg) u cinput) w = (Inr t', w') \<Longrightarrow> may_create (role_view (db w)) u cinput"
    by (erule task_svc.Create_cases [OF inv]) auto
  show "run_state (task_List (taskSvc srv rds rt cfg) u f) w = (Inr p, w') \<Longrightarrow>
      \<exists>T. tf_TeamID f = Some T \<and> role_view (db w) T u \<noteq> None"
    using task_svc.List_run [OF inv, of cfg u f "Inr p" w'] by (cases p) auto
qed

lemma guarded_if:
  "(b \<Longrightarrow> guarded P w (strict default_options rq f m)) \<Longrightarrow> (\<not> b \<Longrightarrow> guarded P w (strict default_options rq f m')) \<Longrightarrow> guarded P w (strict default_options rq f (if b then m else m'))"
  by simp

lemma permitted_simps:
  "permitted lib d u (''PUT'', ''/tasks/{id}'') idp rq \<longleftrightarrow>
     (\<exists>i t. al_BindUUID lib idp = Inr i \<and> task_view d i = Some t \<and> role_view d (task_TeamID t) u \<noteq> None)"
  "permitted lib d u (''GET'', ''/tasks/{id}/comments'') idp rq \<longleftrightarrow>
     (\<exists>i t. al_BindUUID lib idp = Inr i \<and> task_view d i = Some t \<and> role_view d (task_TeamID t) u \<noteq> None)"
  "permitted lib d u (''POST'', ''/tasks/{id}/comments'') idp rq \<longleftrightarrow>
     (\<exists>i t. al_BindUUID lib idp = Inr i \<and> task_view d i = Some t \<and> role_view d (task_TeamID t) u \<noteq> None)"
  "permitted lib d u (''GET'', ''/tasks/{id}/history'') idp rq \<longleftrightarrow>
     (\<exists>i t. al_BindUUID lib idp = Inr i \<and> task_view d i = Some t \<and> role_view d (task_TeamID t) u \<noteq> None)"
  "permitted lib d u (''POST'', ''/teams/{id}/invite'') idp rq \<longleftrightarrow> (\<exists>i. al_BindUUID lib idp = Inr i \<and> may_invite (role_view d) u i)"
  "permitted lib d u (''POST'', ''/tasks'') idp rq \<longleftrightarrow>
     (\<exists>b. al_CreateTaskRequest lib (rq_Body rq) = Inr b \<and> may_create (role_view d) u (create_input b))"
  "permitted lib d u (''GET'', ''/tasks'') idp rq \<longleftrightarrow>
     (\<exists>t. al_QueryUUID lib ''team_id'' (rq_Query rq) = Inr (Some t) \<and> role_view d t u \<noteq> None)"
  by (simp_all add: permitted_def)

lemma guarded_wrap:
  assumes inv: "sys_inv srv rds rt w"
  shows "guarded (permitted lib (db w) u (''PUT'', ''/tasks/{id}'') i rq) w (wrap_UpdateTask lib (app_wrapper lib (app_handler srv rds rt cfg)) (Some u) i rq)"
    and "guarded (permitted lib (db w) u (''GET'', ''/tasks/{id}/comments'') i rq) w (wrap_ListTaskComments lib (app_wrapper lib (app_handler srv rds rt cfg)) (Some u) i rq)"
    and "guarded (permitted lib (db w) u (''POST'', ''/tasks/{id}/comments'') i rq) w (wrap_AddTaskComment lib (app_wrapper lib (app_handler srv rds rt cfg)) (Some u) i rq)"
    and "guarded (permitted lib (db w) u (''GET'', ''/tasks/{id}/history'') i rq) w (wrap_GetTaskHistory lib (app_wrapper lib (app_handler srv rds rt cfg)) (Some u) i rq)"
    and "guarded (permitted lib (db w) u (''POST'', ''/teams/{id}/invite'') i rq) w (wrap_InviteToTeam lib (app_wrapper lib (app_handler srv rds rt cfg)) (Some u) i rq)"
    and "guarded (permitted lib (db w) u (''POST'', ''/tasks'') i rq) w (wrap_CreateTask lib (app_wrapper lib (app_handler srv rds rt cfg)) (Some u) i rq)"
  unfolding wrap_app handler_defs option.case app_handler_simps permitted_simps
  by (intro guarded_with guarded_if guarded_respond guarded_return; fastforce simp: visit_response_def dest: guarded_services [OF inv])+

lemma guarded_wrap_ListTasks:
  assumes inv: "sys_inv srv rds rt w"
  shows "guarded (permitted lib (db w) u (''GET'', ''/tasks'') i rq) w (wrap_ListTasks lib (app_wrapper lib (app_handler srv rds rt cfg)) (Some u) i rq)"
proof (cases "bind_list_params lib (rq_Query rq)")
  case (Inl x)
  then show ?thesis by (cases x) (simp add: wrap_app_ListTasks bad_param_def guarded_def http_Error_def del: append.simps)
next
  case (Inr p)
  then have t: "al_QueryUUID lib ''team_id'' (rq_Query rq) = Inr (ltp_TeamId p)"
    by (auto simp: bind_list_params_def and_then_def on_err_def split: sum.splits)
  show ?thesis
    unfolding wrap_app_ListTasks Inr sum.case ListTasks_handler_def option.case Let_def app_handler_simps permitted_simps
    by (rule guarded_respond) (use t in \<open>fastforce simp: list_filter_def dest: guarded_services(7) [OF inv]\<close>)+
qed

lemma permitted_other:
  assumes "k \<in> {(''GET'', ''/analytics/orphan-tasks''), (''GET'', ''/analytics/team-summaries''), (''GET'', ''/analytics/top-contributors''),
    (''POST'', ''/login''), (''POST'', ''/register''), (''GET'', ''/teams''), (''POST'', ''/teams'')}"
  shows "permitted lib d u k i rq"
  using assms by (auto simp: permitted_def)

lemma routes_guarded:
  assumes inv: "sys_inv srv rds rt w"
  shows "list_all (\<lambda>(m, p, f). guarded (permitted lib (db w) u (m, p) i rq) w (f lib (app_wrapper lib (app_handler srv rds rt cfg)) (Some u) i rq)) routes"
proof -
  have "guarded True w m" for m by (simp add: guarded_def)
  then show ?thesis
    by (simp add: routes_def guarded_wrap [OF inv] guarded_wrap_ListTasks [OF inv] permitted_other del: char.inject list.inject)
qed

lemma mount_permitted:
  assumes "sys_inv srv rds rt w" and "route_of lib rq = Some (k, i)"
    and "run_state (mountV1 lib (app_handler srv rds rt cfg) (Some u) rq) w = (resp, w')" and "hr_Status resp < 300"
  shows "permitted lib (db w) u k i rq"
proof -
  obtain m p where k: "k = (m, p)" by fastforce
  let ?h = "app_handler srv rds rt cfg"
  obtain f where f: "(m, p, f) \<in> set routes" and "mountV1 lib ?h (Some u) rq = f lib (app_wrapper lib ?h) (Some u) i rq"
    using mount_route [of lib rq m p i ?h] assms(2) k by metis
  with routes_guarded [OF assms(1), of lib u i rq cfg] assms(3,4) k show ?thesis
    by (fastforce simp: list_all_iff guarded_def)
qed

section \<open>Limiters\<close>

text \<open>
  The limiters that occur are new ones and those left by \<open>Allow\<close>.  A token bucket holds at most
  the requests of a minute, so one that was not used for a minute decides like a new one.
\<close>

inductive issued :: "'l rate_lib \<Rightarrow> int \<Rightarrow> 'l \<Rightarrow> bool" for rl rpm where
  issued_new: "issued rl rpm (rl_NewLimiter rl rpm)"
| issued_used: "issued rl rpm l \<Longrightarrow> issued rl rpm (snd (rl_Allow rl now l))"

definition refills :: "'l rate_lib \<Rightarrow> int \<Rightarrow> bool" where
  "refills rl rpm \<longleftrightarrow> (\<forall>l used now. issued rl rpm l \<longrightarrow> used + 60 * 1000000000 \<le> now \<longrightarrow>
     rl_Allow rl now (snd (rl_Allow rl used l)) = rl_Allow rl now (rl_NewLimiter rl rpm))"

text \<open>Two readings of the clock in a row are less than nine minutes apart.\<close>

definition steady :: "runtime \<Rightarrow> bool" where
  "steady rt \<longleftrightarrow> (\<forall>k. rt_Now rt (Suc k) \<le> rt_Now rt k + 9 * 60 * 1000000000)"

definition in_use :: "'l rate_lib \<Rightarrow> int \<Rightarrow> (string \<Rightarrow> ('l \<times> time) option) \<Rightarrow> bool" where
  "in_use rl rpm limiters \<longleftrightarrow> (\<forall>key l seen. limiters key = Some (l, seen) \<longrightarrow>
     (\<exists>l0 used. issued rl rpm l0 \<and> l = snd (rl_Allow rl used l0) \<and> used \<le> seen + 9 * 60 * 1000000000))"

lemma in_use_issued: "in_use rl rpm limiters \<Longrightarrow> issued rl rpm (fst (getLimiter rl rpm now key limiters))"
  by (force simp: in_use_def getLimiter_def Let_def intro: issued.intros split: option.splits)

lemma in_use_touched:
  assumes "in_use rl rpm limiters" and "touched rt rl rpm limiters key x" and "steady rt"
  shows "in_use rl rpm (limiters(key \<mapsto> x))"
proof -
  from assms(2) obtain k where "x = (snd (rl_Allow rl (rt_Now rt (Suc k)) (fst (getLimiter rl rpm (rt_Now rt k) key limiters))), rt_Now rt k)"
    by (auto simp: touched_def)
  moreover have "rt_Now rt (Suc k) \<le> rt_Now rt k + 9 * 60 * 1000000000" using assms(3) by (simp add: steady_def)
  ultimately show ?thesis using assms(1) in_use_issued [OF assms(1)] unfolding in_use_def by (auto; blast)
qed

lemma in_use_cleanup: "in_use rl rpm limiters \<Longrightarrow> in_use rl rpm (cleanup now limiters)"
  by (simp add: in_use_def cleanup_def split: option.split prod.split)

lemma node_in_use:
  assumes "node_reachable allowed lib rl srv rds rt cfg n" and "steady rt"
  shows "in_use rl (cfg_RequestsPerMinute cfg) (nd_limiters n)"
  using assms(1)
proof induction
  case node_init
  show ?case by (simp add: init_node_def in_use_def)
next
  case (node_next n n')
  from node_next.hyps(2) show ?case
  proof cases
    case (serves rq resp)
    from serves(1) show ?thesis
      by (cases rule: serve_cases)
        (use in_use_touched [OF node_next.IH _ assms(2)] node_next.IH in \<open>simp_all del: fun_upd_apply\<close>)
  next
    case (cleans now)
    with node_next.IH show ?thesis by (simp add: in_use_cleanup)
  next
    case waits
    with node_next.IH show ?thesis by simp
  qed
qed

lemma cleanup_decides:
  assumes "in_use rl rpm limiters" and "refills rl rpm" and "now key \<le> t"
  shows "rl_Allow rl t (fst (getLimiter rl rpm t key (cleanup now limiters))) = rl_Allow rl t (fst (getLimiter rl rpm t key limiters))"
proof (cases "cleanup now limiters key = limiters key")
  case True
  then show ?thesis by (simp add: getLimiter_def Let_def)
next
  case False
  then obtain l seen where e: "limiters key = Some (l, seen)" "cleanup_idle < now key - seen" "cleanup now limiters key = None"
    by (auto simp: cleanup_def split: option.splits if_splits)
  with assms(1) obtain l0 used where "issued rl rpm l0" "l = snd (rl_Allow rl used l0)" "used \<le> seen + 9 * 60 * 1000000000"
    unfolding in_use_def by metis
  moreover from this e(2) assms(3) have "used + 60 * 1000000000 \<le> t" by (simp add: cleanup_idle_def)
  ultimately show ?thesis using assms(2) e by (simp add: getLimiter_def Let_def refills_def)
qed

end
