(* ===== verification/Example.thy ===== *)
theory Example
  imports Http_Chain
begin

text \<open>
  A concrete environment: a MySQL server and a Redis server that never fail, a clock that
  counts calls, identifiers numbered in the order of their creation, the canonical text form
  of identifiers with its parser, and simple codecs for the cached lists, the password hashes
  and the tokens.  It satisfies everything the development assumes of the libraries, and the
  witnesses of the properties run the program in it.
\<close>

section \<open>Parsing identifiers\<close>

fun index_of :: "'a list \<Rightarrow> 'a \<Rightarrow> nat" where
  "index_of [] x = 0"
| "index_of (y # ys) x = (if x = y then 0 else Suc (index_of ys x))"

fun unhex :: "string \<Rightarrow> bytes" where
  "unhex (a # b # s) = of_nat (16 * index_of ''0123456789abcdef'' a + index_of ''0123456789abcdef'' b) # unhex s"
| "unhex s = []"

definition plain_Parse :: "string \<Rightarrow> err + uuid" where
  "plain_Parse s =
     (if length s = 36 then Inr (uuid_copy (unhex (filter (\<lambda>c. c \<noteq> CHR ''-'') s)))
      else Inl (ErrorString ''invalid UUID length''))"

lemma index_of_nth: "distinct xs \<Longrightarrow> i < length xs \<Longrightarrow> index_of xs (xs ! i) = i"
  by (induction xs arbitrary: i) (auto simp: nth_Cons split: nat.splits)

lemma index_hex_char: "d < 16 \<Longrightarrow> index_of ''0123456789abcdef'' (hex_char d) = d"
  unfolding hex_char_def by (rule index_of_nth) simp_all

lemma unhex_hex_bytes: "unhex (hex_bytes bs) = bs"
proof (induction bs)
  case Nil
  show ?case by (simp add: hex_bytes_def)
next
  case (Cons b bs)
  have "unat b div 16 < 16" using unat_byte_less [of b] by simp
  then have "of_nat (16 * index_of ''0123456789abcdef'' (hex_char (unat b div 16)) +
      index_of ''0123456789abcdef'' (hex_char (unat b mod 16))) = b"
    unfolding index_hex_char [OF \<open>unat b div 16 < 16\<close>] by (simp add: index_hex_char del: index_of.simps)
  with Cons show ?case by (simp add: hex_bytes_def hex_byte_def del: index_of.simps)
qed

lemma filter_canonical: "filter (\<lambda>c. c \<noteq> CHR ''-'') (canonical_uuid u) = hex_bytes (uuid_bytes u)"
proof -
  let ?h = "hex_bytes (uuid_bytes u)"
  have no: "c \<noteq> CHR ''-''" if "c \<in> set ?h" for c using that hex_bytes_set by fastforce
  have keep: "filter (\<lambda>c. c \<noteq> CHR ''-'') xs = xs" if "set xs \<subseteq> set ?h" for xs
    using that no by (intro filter_True) blast
  have "filter (\<lambda>c. c \<noteq> CHR ''-'') (canonical_uuid u) =
      take 8 ?h @ take 4 (drop 8 ?h) @ take 4 (drop 12 ?h) @ take 4 (drop 16 ?h) @ drop 20 ?h"
    unfolding canonical_uuid_def Let_def
    by (simp add: keep subset_trans [OF set_take_subset set_drop_subset] set_take_subset set_drop_subset)
  then show ?thesis using split_8_4_4_4 [of ?h] by simp
qed

lemma plain_Parse_canonical: "plain_Parse (canonical_uuid u) = Inr u"
proof -
  have "length (canonical_uuid u) = 36" using canonical_uuid_text by (simp add: uuid_text_def)
  then show ?thesis by (simp add: plain_Parse_def filter_canonical unhex_hex_bytes)
qed

section \<open>The libraries\<close>

definition plain_uuid :: "nat \<Rightarrow> uuid" where
  "plain_uuid n = uuid_copy (replicate 15 0 @ [of_nat n])"

text \<open>Lists without tasks are encoded in unary; others are not cached.\<close>

definition plain_Marshal :: "Task list \<times> nat \<Rightarrow> err + bytes" where
  "plain_Marshal p = (if fst p = [] then Inr (replicate (snd p) 0) else Inl (ErrorString ''json: unsupported value''))"

definition plain_hash :: "string \<Rightarrow> string" where
  "plain_hash pw = take 60 (pw @ replicate 60 (CHR ''.''))"

text \<open>A token is the subject, the expiry in unary and the key.\<close>

definition plain_Sign :: "string \<Rightarrow> string \<times> int \<Rightarrow> err + string" where
  "plain_Sign key claims =
     (if length (fst claims) = 36 \<and> 0 \<le> snd claims
      then Inr (fst claims @ replicate (nat (snd claims)) (CHR ''1'') @ CHR ''.'' # key)
      else Inl (ErrorString ''key is of invalid type''))"

definition plain_ParseJWT :: "(signing_method \<Rightarrow> err + string) \<Rightarrow> time \<Rightarrow> string \<Rightarrow> err + bool \<times> (err + string)" where
  "plain_ParseJWT kf now token =
     (case kf SigningMethodHMAC of
        Inl e \<Rightarrow> Inl e
      | Inr key \<Rightarrow>
          (let ex = length (takeWhile (\<lambda>c. c = CHR ''1'') (drop 36 token)) in
           if drop (36 + ex) token = CHR ''.'' # key \<and> now < int ex * 1000000000
           then Inr (True, Inr (take 36 token)) else Inl (ErrorString ''token is unverifiable'')))"

definition plain_runtime :: runtime where
  "plain_runtime =
     \<lparr>rt_Now = int, rt_NewV7 = (\<lambda>n. Inr (plain_uuid n)), rt_String = canonical_uuid, rt_Parse = plain_Parse,
      rt_Coerce = (\<lambda>s. s), rt_Marshal = plain_Marshal, rt_Unmarshal = (\<lambda>b. Inr ([], length b)),
      rt_Hash = (\<lambda>k pw. if length pw \<le> 72 then Inr (plain_hash pw) else Inl (ErrorString ''bcrypt: password length exceeds 72 bytes'')),
      rt_Compare = (\<lambda>h pw. h = plain_hash pw), rt_Sign = plain_Sign, rt_ParseJWT = plain_ParseJWT,
      rt_Breaker = (\<lambda>_. None), rt_Request = (\<lambda>_. None), rt_Do = (\<lambda>_. (True, Inr 200))\<rparr>"

lemma plain_ParseJWT_Sign:
  assumes "plain_Sign key (sub, ex) = Inr token" and "kf SigningMethodHMAC = Inr key" and "now < ex * 1000000000"
  shows "plain_ParseJWT kf now token = Inr (True, Inr sub)"
proof -
  from assms(1) have len: "length sub = 36" and ex: "0 \<le> ex"
    and token: "token = sub @ replicate (nat ex) (CHR ''1'') @ CHR ''.'' # key"
    by (auto simp: plain_Sign_def split: if_splits)
  have "takeWhile (\<lambda>c. c = CHR ''1'') (drop 36 token) = replicate (nat ex) (CHR ''1'')"
    using len by (simp add: token takeWhile_append)
  then show ?thesis using len ex assms(2,3) by (simp add: plain_ParseJWT_def token)
qed

lemma runtime_laws_plain: "runtime_laws plain_runtime"
proof -
  have "json_laws plain_runtime"
    by (auto simp: json_laws_def plain_runtime_def plain_Marshal_def split: if_splits)
  moreover have "newv7_laws plain_runtime" by (simp add: newv7_laws_def plain_runtime_def)
  moreover have "bcrypt_laws plain_runtime"
    by (auto simp: bcrypt_laws_def plain_runtime_def plain_hash_def split: if_splits)
  moreover have "jwt_laws plain_runtime"
    unfolding jwt_laws_def plain_runtime_def using plain_ParseJWT_Sign
    by (auto simp: plain_Sign_def split: if_splits)
  moreover have "uuid_laws plain_runtime"
    by (simp add: uuid_laws_def plain_runtime_def canonical_uuid_text plain_Parse_canonical)
  ultimately show ?thesis by (simp add: runtime_laws_def)
qed

lemma dependable_plain: "dependable plain_server plain_redis"
  by (simp add: dependable_def plain_server_def plain_redis_def)

definition plain_config :: config where
  "plain_config = \<lparr>cfg_JWTSecret = ''secret'', cfg_JWTExpiry = 3600000000000, cfg_TaskListTTL = 300000000000,
     cfg_EmailBaseURL = ''http://mail'', cfg_RequestsPerMinute = 100\<rparr>"

section \<open>A run of the service\<close>

text \<open>Alice and Bob register, Alice creates a team, invites Bob and assigns him a task.\<close>

abbreviation ex_auth where "ex_auth \<equiv> authSvc plain_server plain_runtime plain_config"
abbreviation ex_teams where "ex_teams \<equiv> teamSvc plain_server plain_runtime plain_config"
abbreviation ex_tasks where "ex_tasks \<equiv> taskSvc plain_server plain_redis plain_runtime plain_config"
abbreviation ex_comments where "ex_comments \<equiv> commentSvc plain_server"

definition alice :: uuid where "alice = plain_uuid 2"
definition bob :: uuid where "bob = plain_uuid 7"
definition ex_team :: uuid where "ex_team = plain_uuid 10"
definition ex_task :: uuid where "ex_task = plain_uuid 23"

definition ex_input :: CreateTaskInput where
  "ex_input = \<lparr>cti_TeamID = ex_team, cti_Title = ''deploy'', cti_Description = None, cti_AssigneeID = Some bob,
     cti_DueDate = None, cti_Priority = ''''\<rparr>"

definition w_alice :: world where
  "w_alice = snd (run_state (auth_Register ex_auth ''alice@x'' ''Alice'' ''pw'') init_world)"
definition w_users :: world where
  "w_users = snd (run_state (auth_Register ex_auth ''bob@x'' ''Bob'' ''pw'') w_alice)"
definition w_team :: world where
  "w_team = snd (run_state (team_Create ex_teams alice ''core'') w_users)"
definition w_invited :: world where
  "w_invited = snd (run_state (team_Invite ex_teams alice ex_team bob) w_team)"
definition w_task :: world where
  "w_task = snd (run_state (task_Create ex_tasks alice ex_input) w_invited)"

lemma ex_reachable:
  "reachable allowed plain_server plain_redis plain_runtime plain_config w_users"
  "reachable allowed plain_server plain_redis plain_runtime plain_config w_team"
  "reachable allowed plain_server plain_redis plain_runtime plain_config w_invited"
  "reachable allowed plain_server plain_redis plain_runtime plain_config w_task"
proof -
  let ?R = "reachable allowed plain_server plain_redis plain_runtime plain_config"
  have "?R w_alice" unfolding w_alice_def
    by (rule reach_step [OF reach_init register]) (rule prod.collapse [symmetric])
  then show users: "?R w_users" unfolding w_users_def
    by (rule reach_step [OF _ register]) (rule prod.collapse [symmetric])
  then show team: "?R w_team" unfolding w_team_def
    by (rule reach_step [OF _ team_create]) (rule prod.collapse [symmetric])
  then show invited: "?R w_invited" unfolding w_invited_def
    by (rule reach_step [OF _ team_invite]) (rule prod.collapse [symmetric])
  then show "?R w_task" unfolding w_task_def
    by (rule reach_step [OF _ task_create]) (rule prod.collapse [symmetric])
qed

lemmas plain_laws = server_laws_plain redis_laws_plain runtime_laws_plain

lemma ex_inv:
  "sys_inv plain_server plain_redis plain_runtime w_users"
  "sys_inv plain_server plain_redis plain_runtime w_team"
  "sys_inv plain_server plain_redis plain_runtime w_invited"
  "sys_inv plain_server plain_redis plain_runtime w_task"
  using reachable_sys_inv [OF plain_laws] ex_reachable by blast+

lemma ex_ok:
  "world_ok plain_server w_users" "world_ok plain_server w_team"
  "world_ok plain_server w_invited" "world_ok plain_server w_task"
  using ex_inv sys_invD(4) by blast+

text \<open>The outcome of a concrete run, for the witnesses.\<close>

lemma run_pair: "fst (run_state m w) = r \<Longrightarrow> run_state m w = (r, snd (run_state m w))"
  by (metis prod.collapse)

text \<open>A list request of Alice and an update of the task.\<close>

definition ex_filter :: TaskFilter where
  "ex_filter = \<lparr>tf_TeamID = Some ex_team, tf_Status = Some ''done'', tf_AssigneeID = None, tf_Page = 0, tf_Limit = 0\<rparr>"

definition w_listed :: world where
  "w_listed = snd (run_state (task_List ex_tasks alice ex_filter) w_task)"

definition ex_change :: UpdateTaskInput where
  "ex_change = \<lparr>uti_Title = Some ''deploy'', uti_Description = None, uti_Status = Some ''done'', uti_AssigneeID = Some alice,
     uti_DueDate = None, uti_Priority = None\<rparr>"

text \<open>A task and a history entry of no task, for the storage.\<close>

definition plain_task :: Task where
  "plain_task = \<lparr>task_ID = ex_task, task_TeamID = ex_team, task_CreatedBy = alice, task_AssigneeID = None,
     task_Title = ''deploy'', task_Description = Some ''now'', task_Status = ''todo'', task_Priority = ''high'',
     task_DueDate = None, task_CreatedAt = 7, task_UpdatedAt = 7\<rparr>"

definition bad_entry :: TaskHistory where
  "bad_entry = \<lparr>th_ID = 0, th_TaskID = alice, th_ChangedBy = alice, th_Field = ''title'', th_OldValue = None,
     th_NewValue = None, th_ChangedAt = 0\<rparr>"

end
