(* ===== verification/Storage_Properties.thy ===== *)
theory Storage_Properties
  imports Example
begin

text \<open>
  What the storages guarantee on their own: stored data reads back, the transactions are atomic,
  the reports of the analytics storage mean what they say, and the cache keeps and drops the
  right entries.  The witnesses run in the environment of \<open>Example\<close>.
\<close>

section \<open>The task storage\<close>

text \<open>A saved task reads back: after \<open>SaveTask\<close> succeeded, \<open>GetTaskByID\<close> returns the task in its
  stored form, unless the connection is lost; the stored form has the same identifiers, and the
  title, description, status and priority are what the columns make of the given ones.\<close>

theorem task_read_back:
  assumes "server_laws srv" and "world_ok srv w" and "run_state (SaveTask srv t) w = (Inr (), v)"
    and "run_state (GetTaskByID srv (task_ID t)) v = (r, w')"
  shows "\<exists>s. task_ID s = task_ID t \<and> task_TeamID s = task_TeamID t \<and>
    task_CreatedBy s = task_CreatedBy t \<and> task_AssigneeID s = task_AssigneeID t \<and>
    task_CreatedAt s = srv_datetime srv (task_CreatedAt t) \<and> task_UpdatedAt s = srv_datetime srv (task_UpdatedAt t) \<and>
    task_DueDate s = map_option (srv_date srv) (task_DueDate t) \<and>
    col_text srv (Varchar 500) (task_Title t) = Inr (task_Title s) \<and>
    col_text_null srv TextCol (task_Description t) = Inr (task_Description s) \<and>
    col_enum srv task_statuses (task_Status t) = Inr (task_Status s) \<and>
    col_enum srv task_priorities (task_Priority t) = Inr (task_Priority s) \<and>
    (r = Inr s \<or> (\<exists>m. r = Inl (errorf ''mysql: get task by id: '' (DriverErr m))))"
proof -
  have inv: "store_inv srv w" using assms(1,2) by (simp add: store_inv_def)
  have ok: "db_ok srv (tick v) (db v)"
    using storesD [OF stores_SaveTask inv assms(3)] store_inv_db by blast
  from SaveTask_saved [OF assms(3)] obtain s where s: "stored_task srv t = Some s"
    and view: "task_view (db v) = (task_view (db w))(task_ID t \<mapsto> s)" by (auto simp: task_saved_def)
  from GetTaskByID_exact [OF ok assms(4)] view
  have "r = Inr s \<or> (\<exists>m. r = Inl (errorf ''mysql: get task by id: '' (DriverErr m)))" by simp
  with stored_task_ids [OF s] show ?thesis by blast
qed

lemma task_read_back_witness:
  "\<exists>v s w'. run_state (SaveTask plain_server plain_task) w_invited = (Inr (), v) \<and>
     run_state (GetTaskByID plain_server ex_task) v = (Inr s, w') \<and> task_AssigneeID s = None \<and> task_TeamID s = ex_team"
proof -
  let ?v = "snd (run_state (SaveTask plain_server plain_task) w_invited)"
  have "fst (run_state (SaveTask plain_server plain_task) w_invited) = Inr ()" by code_simp
  note save = run_pair [OF this]
  have ok: "\<not> isl (fst (run_state (GetTaskByID plain_server ex_task) ?v))" by code_simp
  obtain r w' where run: "run_state (GetTaskByID plain_server ex_task) ?v = (r, w')" by fastforce
  have id: "task_ID plain_task = ex_task" "task_AssigneeID plain_task = None" "task_TeamID plain_task = ex_team"
    by (simp_all add: plain_task_def)
  from task_read_back [OF server_laws_plain ex_ok(3) save] run id
  have "\<exists>s. r = Inr s \<and> task_AssigneeID s = None \<and> task_TeamID s = ex_team \<or> isl r" by force
  with ok run save show ?thesis by auto
qed

text \<open>The update of a task and the entries of its history are written in one transaction: when the
  call reports success all of it is in the tables, and when it reports an error, at whatever
  statement and for whatever reason, either all of it or nothing.\<close>

theorem update_atomic:
  assumes "run_state (UpdateTaskWithHistory srv t es) w = (r, w')"
  shows "case r of
      Inr _ \<Rightarrow> task_updated srv (Suc (tick w)) t es (db w) = Inr (db w')
    | Inl e \<Rightarrow> db w' = db w \<or> task_updated srv (Suc (tick w)) t es (db w) = Inr (db w')"
  using UpdateTaskWithHistory_run [OF assms] by (cases r) auto

lemma update_atomic_witness:
  "\<exists>e w'. run_state (UpdateTaskWithHistory plain_server plain_task [bad_entry]) w_task = (Inl e, w') \<and> db w' = db w_task"
proof -
  let ?m = "run_state (UpdateTaskWithHistory plain_server plain_task [bad_entry]) w_task"
  have err: "isl (fst ?m)" and no: "isl (task_updated plain_server (Suc (tick w_task)) plain_task [bad_entry] (db w_task))"
    by code_simp+
  obtain r w' where run: "?m = (r, w')" by fastforce
  with err obtain e where "r = Inl e" by (cases r) auto
  with update_atomic [OF run] run no show ?thesis by auto
qed

text \<open>C32. A page of the task list: the total is the number of tasks that match the filter, and the page
  is the right stretch of the matching tasks in some order by descending creation time.\<close>

theorem list_tasks_page:
  assumes "world_ok srv w" and "run_state (ListTasks srv f) w = (Inr (ts, n), w')"
  shows "n = length (filter (task_matches srv f) (all_tasks (db w))) \<and>
    (\<exists>ys. mset ys = mset (filter (task_matches srv f) (all_tasks (db w))) \<and>
       sorted_wrt (\<lambda>s t. task_CreatedAt t \<le> task_CreatedAt s) ys \<and>
       ts = take (nat (sint (tf_Limit f))) (drop (nat (sint (list_offset (tf_Page f) (tf_Limit f)))) ys))"
  using ListTasks_Inr [of srv "tick w" w f ts n w'] assms by (auto simp: world_ok_def newest_first_def)

lemma list_tasks_page_witness:
  "\<exists>ts w'. run_state (ListTasks plain_server \<lparr>tf_TeamID = Some ex_team, tf_Status = None, tf_AssigneeID = Some bob,
       tf_Page = 1, tf_Limit = 20\<rparr>) w_task = (Inr (ts, 1), w') \<and> map task_ID ts = [ex_task]"
proof -
  let ?f = "\<lparr>tf_TeamID = Some ex_team, tf_Status = None, tf_AssigneeID = Some bob, tf_Page = 1, tf_Limit = 20\<rparr> :: TaskFilter"
  let ?m = "run_state (ListTasks plain_server ?f) w_task"
  have ok: "case fst ?m of Inl _ \<Rightarrow> False | Inr (ts, n) \<Rightarrow> map task_ID ts = [ex_task]" by code_simp
  have len: "length (filter (task_matches plain_server ?f) (all_tasks (db w_task))) = 1" by code_simp
  obtain r w' where run: "?m = (r, w')" by fastforce
  with ok obtain ts n where r: "r = Inr (ts, n)" "map task_ID ts = [ex_task]" by (cases r) auto
  with list_tasks_page [OF ex_ok(4) run [unfolded r(1)]] run len show ?thesis by auto
qed

section \<open>The team and user storages\<close>

text \<open>A new team and its owner are written in one transaction, both or neither.\<close>

theorem create_team_atomic:
  assumes "run_state (CreateTeamWithOwner srv team owner) w = (r, w')"
  shows "case r of
      Inr _ \<Rightarrow> team_created srv (Suc (tick w)) team owner (db w) = Inr (db w')
    | Inl e \<Rightarrow> db w' = db w \<or> team_created srv (Suc (tick w)) team owner (db w) = Inr (db w')"
  using CreateTeamWithOwner_run [OF assms] by (cases r) auto

lemma create_team_atomic_witness:
  "\<exists>e w'. run_state (CreateTeamWithOwner plain_server \<lparr>team_ID = ex_team, team_Name = ''x'', team_CreatedBy = alice,
       team_CreatedAt = 0\<rparr> ex_task) w_users = (Inl e, w') \<and> db w' = db w_users"
proof -
  let ?t = "\<lparr>team_ID = ex_team, team_Name = ''x'', team_CreatedBy = alice, team_CreatedAt = 0\<rparr> :: Team"
  let ?m = "run_state (CreateTeamWithOwner plain_server ?t ex_task) w_users"
  have err: "isl (fst ?m)" and no: "isl (team_created plain_server (Suc (tick w_users)) ?t ex_task (db w_users))" by code_simp+
  obtain r w' where run: "?m = (r, w')" by fastforce
  with err obtain e where "r = Inl e" by (cases r) auto
  with create_team_atomic [OF run] run no show ?thesis by auto
qed

text \<open>\<open>ErrConflict\<close> from \<open>SaveUser\<close> means that the identifier or the address, as the database
  compares it, is taken, and nothing was written; after a success the address was free and
  finds exactly the stored user.\<close>

theorem save_user_conflict:
  assumes "server_laws srv" and "world_ok srv w" and "run_state (SaveUser srv u) w = (r, w')"
  shows "case r of
      Inr _ \<Rightarrow> (\<exists>s. stored_user srv u = Some s \<and> email_view srv (db w) (user_Email s) = None \<and>
        email_view srv (db w') (user_Email s) = Some s \<and> non_user_tables (db w') = non_user_tables (db w))
    | Inl e \<Rightarrow> errors_Is e ErrConflict \<longrightarrow> db w' = db w \<and> (\<exists>m. col_text srv (Varchar 255) (user_Email u) = Inr m \<and>
        (uuidToBytes (user_ID u) \<in> ur_ID ` set (users (db w)) \<or>
         srv_collate srv m \<in> (srv_collate srv \<circ> ur_Email) ` set (users (db w))))"
proof -
  have inv: "base_inv True srv w" using assms(1,2) by (simp add: base_inv_def store_inv_def)
  have same: "same_email srv m m" for m by (simp add: same_email_def)
  show ?thesis
  proof (cases r)
    case (Inr x)
    then show ?thesis using mysql_users.user_saved [OF inv assms(3)] same by auto
  next
    case (Inl e)
    from assms(3) show ?thesis by (cases rule: SaveUser_cases) (auto simp: Inl)
  qed
qed

lemma save_user_conflict_witness:
  "\<exists>e w'. run_state (SaveUser plain_server \<lparr>user_ID = ex_task, user_Email = ''bob@x'', user_Name = ''B'', user_Password = ''h'',
       user_CreatedAt = 0\<rparr>) w_users = (Inl e, w') \<and> errors_Is e ErrConflict \<and> db w' = db w_users"
proof -
  let ?u = "\<lparr>user_ID = ex_task, user_Email = ''bob@x'', user_Name = ''B'', user_Password = ''h'', user_CreatedAt = 0\<rparr> :: User"
  let ?m = "run_state (SaveUser plain_server ?u) w_users"
  have ok: "case fst ?m of Inl e \<Rightarrow> errors_Is e ErrConflict | Inr _ \<Rightarrow> False" by code_simp
  obtain r w' where run: "?m = (r, w')" by fastforce
  with ok obtain e where "r = Inl e" "errors_Is e ErrConflict" by (cases r) auto
  with save_user_conflict [OF server_laws_plain ex_ok(1) run] run show ?thesis by auto
qed

section \<open>Reports\<close>

text \<open>The team report has one row per team, with the number of its members and the number of its
  tasks that were last updated as done within seven days.\<close>

theorem team_summaries_report:
  assumes "world_ok srv w" and "run_state (TeamSummaries srv) w = (Inr ss, w')"
  shows "mset ss = mset (map (summary_of srv (srv_now srv (tick w)) (db w)) (all_teams (db w)))"
  using TeamSummaries_Inr [of srv "tick w" w ss w'] assms by (simp add: world_ok_def)

lemma team_summaries_report_witness:
  "\<exists>s w'. run_state (TeamSummaries plain_server) w_task = (Inr [s], w') \<and> ts_MemberCount s = 2 \<and> ts_DoneLast7Days s = 0 \<and>
     s \<in># mset (map (summary_of plain_server (srv_now plain_server (tick w_task)) (db w_task)) (all_teams (db w_task)))"
proof -
  let ?m = "run_state (TeamSummaries plain_server) w_task"
  have ok: "case fst ?m of Inl _ \<Rightarrow> False | Inr ss \<Rightarrow> map (\<lambda>s. (ts_MemberCount s, ts_DoneLast7Days s)) ss = [(2, 0)]" by code_simp
  obtain r w' where run: "?m = (r, w')" by fastforce
  with ok obtain s where r: "r = Inr [s]" "ts_MemberCount s = 2" "ts_DoneLast7Days s = 0" by (cases r) (auto simp: map_eq_Cons_conv)
  with team_summaries_report [OF ex_ok(4) run [unfolded r(1)]] run show ?thesis
    by (metis list.set_intros(1) set_mset_mset)
qed

text \<open>C35. The contributor report lists, once each, exactly the users who created tasks in a team in the
  last thirty days and of whom at most two others created more there, with the number of their
  tasks and the rank with gaps.\<close>

theorem top_contributors_report:
  assumes "world_ok srv w" and "run_state (TopContributors srv) w = (Inr cs, w')"
  shows "distinct (map (\<lambda>c. (tc_TeamID c, tc_UserID c)) cs) \<and>
    set cs = {contributor_of (srv_now srv (tick w) - 30 * ns_per_day) (db w) (t, u) | t u.
      0 < created_since (srv_now srv (tick w) - 30 * ns_per_day) (db w) t u \<and>
      rank_of (srv_now srv (tick w) - 30 * ns_per_day) (db w) t u \<le> 3}"
  using TopContributors_Inr [of srv "tick w" w cs w' "srv_now srv (tick w) - 30 * ns_per_day"] assms by (simp add: world_ok_def)

lemma top_contributors_report_witness:
  "\<exists>c w'. run_state (TopContributors plain_server) w_task = (Inr [c], w') \<and> tc_UserID c = alice \<and> tc_TaskCount c = 1 \<and>
     (\<exists>t u. 0 < created_since (srv_now plain_server (tick w_task) - 30 * ns_per_day) (db w_task) t u)"
proof -
  let ?m = "run_state (TopContributors plain_server) w_task"
  have ok: "case fst ?m of Inl _ \<Rightarrow> False | Inr cs \<Rightarrow> map (\<lambda>c. (tc_UserID c, tc_TaskCount c)) cs = [(alice, 1)]" by code_simp
  obtain r w' where run: "?m = (r, w')" by fastforce
  with ok obtain c where r: "r = Inr [c]" "tc_UserID c = alice" "tc_TaskCount c = 1" by (cases r) (auto simp: map_eq_Cons_conv)
  have "c \<in> set [c]" by simp
  then obtain t u where "0 < created_since (srv_now plain_server (tick w_task) - 30 * ns_per_day) (db w_task) t u"
    unfolding top_contributors_report [OF ex_ok(4) run [unfolded r(1)], THEN conjunct2] by blast
  with r run show ?thesis by blast
qed

section \<open>The cache\<close>

text \<open>C14. Invalidating a pattern ends within the server's bound on a complete iteration; whatever the
  outcome, only entries whose key matches the pattern (or which have expired) disappear and none
  is added; when it succeeds no entry whose key matches is left.\<close>

theorem invalidate_exact:
  assumes "redis_laws rds" and "HasSuffix pat ''*''" and "run_state (cache_Invalidate rds pat) w = (r, w')"
  shows "r \<noteq> Inl out_of_fuel \<and> set (redis w') \<subseteq> set (redis w) \<and>
    (\<forall>e \<in> set (redis w). live rds (tick w') e \<and> \<not> rds_match rds pat (fst e) \<longrightarrow> e \<in> set (redis w')) \<and>
    (r = Inr () \<longrightarrow> (\<forall>e \<in> set (redis w'). \<not> rds_match rds pat (fst e)))"
proof -
  have "r \<noteq> Inl out_of_fuel" using Invalidate_terminates [OF assms(1), of pat w] assms(3) by simp
  moreover have "removed rds {x. rds_match rds pat x} w w'" using Invalidate_removes [OF assms] .
  ultimately show ?thesis using Invalidate_Inr [OF assms(1,2)] assms(3) by (auto simp: removed_def)
qed

lemma invalidate_exact_witness:
  "\<exists>w'. run_state (cache_Invalidate plain_redis (cachePattern canonical_uuid ex_team)) w_listed = (Inr (), w') \<and>
     length (redis w_listed) = 1 \<and> set (redis w') \<subseteq> set (redis w_listed) \<and>
     (\<forall>e \<in> set (redis w'). \<not> rds_match plain_redis (cachePattern canonical_uuid ex_team) (fst e))"
proof -
  let ?p = "cachePattern canonical_uuid ex_team"
  have suf: "HasSuffix ?p ''*''" and len: "length (redis w_listed) = 1" by code_simp+
  have "fst (run_state (cache_Invalidate plain_redis ?p) w_listed) = Inr ()" by code_simp
  note run = run_pair [OF this]
  from invalidate_exact [OF redis_laws_plain suf run] run len show ?thesis by blast
qed

text \<open>What \<open>Set\<close> stored, \<open>Get\<close> returns at the next call, unless it has expired by then or the
  connection is lost.\<close>

theorem cache_get_set:
  assumes "run_state (cache_Set rds key b ttl) w = (Inr (), v)" and "run_state (cache_Get rds key) v = (r, w')"
    and "rds_fault rds (tick v) = NoFault" and "live rds (tick v) (key, b, rds_expiry rds (tick w) ttl)"
  shows "r = Inr b"
proof -
  from assms(1) have "redis v = (key, b, rds_expiry rds (tick w) ttl) # filter (\<lambda>e. fst e \<noteq> key) (live_entries rds w)"
    by (auto simp: cache_Set_def client_Set_def client_Do_def Let_def on_err_def split: fault.splits sum.splits)
  with assms(2-4) show ?thesis
    by (auto simp: cache_Get_def client_Get_def client_Do_def Let_def live_entries_def)
qed

lemma cache_get_set_witness:
  "fst (run_state (cache_Get plain_redis ''k'') (snd (run_state (cache_Set plain_redis ''k'' [1, 2] 5) init_world))) = Inr [1, 2]"
proof -
  let ?v = "snd (run_state (cache_Set plain_redis ''k'' [1, 2] 5) init_world)"
  have "fst (run_state (cache_Set plain_redis ''k'' [1, 2] 5) init_world) = Inr ()" by code_simp
  note set = run_pair [OF this]
  have "rds_fault plain_redis (tick ?v) = NoFault" by (simp add: plain_redis_def)
  moreover have "live plain_redis (tick ?v) (''k'', [1, 2], rds_expiry plain_redis (tick init_world) 5)" by code_simp
  ultimately show ?thesis using cache_get_set [OF set] by (metis prod.collapse)
qed

end
