(* ===== verification/Http_Properties.thy ===== *)
theory Http_Properties
  imports Storage_Properties
begin

text \<open>
  Properties of the service over HTTP: what an unknown caller can do, what a successful answer
  presupposes, the responses, the metrics, the rate limiter, and that the server refines the
  services.
\<close>

section \<open>A concrete router and rate limiter\<close>

text \<open>
  A pattern has at most one path segment \<open>{id}\<close>; a body is a list of fields separated by zero
  bytes; the limiter is a token bucket with its rate, its tokens and the time of its last use.
\<close>

definition plain_Match :: "string \<Rightarrow> string \<Rightarrow> string option" where
  "plain_Match pat path =
     (let pre = takeWhile (\<lambda>c. c \<noteq> CHR ''{'') pat; post = drop (length pre + 4) pat;
          rest = drop (length pre) path; i = takeWhile (\<lambda>c. c \<noteq> CHR ''/'') rest
      in if pre = pat then (if path = pat then Some '''' else None)
         else if take (length pre) path = pre \<and> i \<noteq> '''' \<and> drop (length i) rest = post then Some i else None)"

definition plain_text_of :: "bytes \<Rightarrow> string" where
  "plain_text_of b = map (\<lambda>x. char_of (unat x)) b"

definition plain_body :: "string \<Rightarrow> bytes" where
  "plain_body s = map (\<lambda>c. of_nat (of_char c)) s"

definition plain_fields :: "bytes \<Rightarrow> string \<times> string" where
  "plain_fields b = (plain_text_of (takeWhile (\<lambda>x. x \<noteq> 0) b), plain_text_of (drop 1 (dropWhile (\<lambda>x. x \<noteq> 0) b)))"

definition plain_lib :: api_lib where
  "plain_lib =
     \<lparr>al_Match = plain_Match, al_Pattern = (\<lambda>_ _. ''''),
      al_Other = (\<lambda>_. http_Error ''404 page not found'' 404), al_BindUUID = plain_Parse,
      al_QueryUUID = (\<lambda>name q. case map_of q name of None \<Rightarrow> Inr None | Some s \<Rightarrow> map_sum id Some (plain_Parse s)),
      al_QueryString = (\<lambda>name q. Inr (map_of q name)),
      al_QueryInt = (\<lambda>name q. Inr (map_option (\<lambda>s. of_nat (length s)) (map_of q name))),
      al_LoginRequest = (\<lambda>b. Inr \<lparr>lrq_Email = fst (plain_fields b), lrq_Password = snd (plain_fields b)\<rparr>),
      al_RegisterRequest = (\<lambda>b. Inr \<lparr>rrq_Email = fst (plain_fields b), rrq_Name = snd (plain_fields b), rrq_Password = snd (plain_fields b)\<rparr>),
      al_CreateTaskRequest = (\<lambda>b. map_sum id (\<lambda>t. \<lparr>ctr_AssigneeId = None, ctr_Description = None, ctr_DueDate = None,
         ctr_Priority = None, ctr_TeamId = t, ctr_Title = snd (plain_fields b)\<rparr>) (plain_Parse (fst (plain_fields b)))),
      al_UpdateTaskRequest = (\<lambda>b. Inr \<lparr>utr_AssigneeId = None, utr_Description = None, utr_DueDate = None,
         utr_Priority = None, utr_Status = Some (plain_text_of b), utr_Title = None\<rparr>),
      al_AddCommentRequest = (\<lambda>b. Inr \<lparr>acr_Body = plain_text_of b\<rparr>),
      al_CreateTeamRequest = (\<lambda>b. Inr \<lparr>ctr_Name = plain_text_of b\<rparr>),
      al_InviteRequest = (\<lambda>b. map_sum (\<lambda>e. e) (\<lambda>u. \<lparr>ivr_UserId = u\<rparr>) (plain_Parse (plain_text_of b)))\<rparr>"

definition plain_Allow :: "time \<Rightarrow> int \<times> int \<times> time option \<Rightarrow> bool \<times> int \<times> int \<times> time option" where
  "plain_Allow now l =
     (case l of (rate, tokens, used) \<Rightarrow>
        let ts = (case used of None \<Rightarrow> rate | Some t \<Rightarrow> min rate (tokens + rate * max 0 (now - t) div 60000000000))
        in (1 \<le> ts, rate, if 1 \<le> ts then ts - 1 else ts, Some now))"

definition plain_rate :: "(int \<times> int \<times> time option) rate_lib" where
  "plain_rate = \<lparr>rl_NewLimiter = (\<lambda>rpm. (rpm, rpm, None)), rl_Allow = plain_Allow\<rparr>"

lemma plain_issued: "issued plain_rate rpm l \<Longrightarrow> 0 \<le> rpm \<Longrightarrow> fst l = rpm \<and> 0 \<le> fst (snd l)"
  by (induction rule: issued.induct)
    (auto simp: plain_rate_def plain_Allow_def Let_def pos_imp_zdiv_nonneg_iff split: option.splits prod.splits)

lemma refills_plain:
  assumes "0 \<le> rpm"
  shows "refills plain_rate rpm"
  unfolding refills_def
proof (intro allI impI)
  fix l used now
  assume "issued plain_rate rpm l" and "used + 60 * 1000000000 \<le> (now :: time)"
  moreover obtain r ts t where l: "l = (r, ts, t)" by (cases l)
  moreover have "rpm * 60000000000 \<le> rpm * max 0 (now - used)" using assms calculation(2) by (intro mult_left_mono) auto
  then have "rpm \<le> rpm * max 0 (now - used) div 60000000000" by linarith
  ultimately show "rl_Allow plain_rate now (snd (rl_Allow plain_rate used l)) = rl_Allow plain_rate now (rl_NewLimiter plain_rate rpm)"
    using plain_issued [OF \<open>issued plain_rate rpm l\<close> assms] plain_issued [OF issued_used [OF \<open>issued plain_rate rpm l\<close>, of used] assms]
    by (auto simp: plain_rate_def plain_Allow_def Let_def min_def)
qed

definition ex_request :: "string \<Rightarrow> string \<Rightarrow> (string \<times> string) list \<Rightarrow> string \<Rightarrow> string \<Rightarrow> http_request" where
  "ex_request m path q body auth =
     \<lparr>rq_Method = m, rq_Path = path, rq_Query = q, rq_Body = plain_body body, rq_Authorization = auth,
      rq_RequestID = ''r1'', rq_RemoteAddr = ''10.0.0.1:4711''\<rparr>"

definition bearer :: "uuid \<Rightarrow> string" where
  "bearer u = ''Bearer '' @ canonical_uuid u @ ''1.secret''"

definition ex_serve :: "http_request \<Rightarrow> ((int \<times> int \<times> time option) node, http_response) state" where
  "ex_serve = app_serve plain_lib plain_rate plain_server plain_redis plain_runtime plain_config"

definition n_task :: "(int \<times> int \<times> time option) node" where
  "n_task = init_node\<lparr>nd_world := w_task\<rparr>"

definition rq_done :: http_request where
  "rq_done = ex_request ''PUT'' (''/api/v1/tasks/'' @ canonical_uuid ex_task) [] ''done'' (bearer bob)"

definition rq_register :: http_request where
  "rq_register = ex_request ''POST'' ''/api/v1/register'' [] ''carol@x'' ''''"

definition ex_params :: ListTasksParams where
  "ex_params = \<lparr>ltp_TeamId = Some ex_team, ltp_Status = None, ltp_AssigneeId = None, ltp_Page = None, ltp_Limit = None\<rparr>"

definition n_registered :: "(int \<times> int \<times> time option) node" where
  "n_registered = snd (run_state (ex_serve rq_register) init_node)"

lemma ex_node_reachable:
  "node_reachable (\<lambda>f. True) plain_lib plain_rate plain_server plain_redis plain_runtime plain_config n_registered"
proof (rule node_next [OF node_init serves])
  show "run_state (app_serve plain_lib plain_rate plain_server plain_redis plain_runtime plain_config rq_register) init_node =
    (fst (run_state (ex_serve rq_register) init_node), n_registered)"
    by (simp add: n_registered_def ex_serve_def)
  show "list_allowed (\<lambda>f. True) plain_lib rq_register" by (simp add: list_allowed_def split: sum.splits)
qed

section \<open>Who may do what\<close>

text \<open>C2. A route other than login and registration answers with success only when the request carries
  a token that identifies a user, and that user is a member of the team of the task it reads,
  changes or comments on, of the team it lists or creates a task in, or may invite into the team
  it invites to.\<close>

theorem http_authorised:
  assumes "server_laws srv" and "redis_laws rds" and "runtime_laws rt" and "world_ok srv (nd_world n)"
    and "run_state (app_serve lib rl srv rds rt cfg rq) n = (resp, n')"
    and "route_of lib rq = Some (k, i)" and "k \<notin> set public_routes" and "hr_Status resp < 300"
  shows "\<exists>u now. authenticate rt (cfg_JWTSecret cfg) now (rq_Authorization rq) = Inr (Some u) \<and>
    permitted lib (db (nd_world n)) u k i rq"
  using assms(5)
proof (cases rule: serve_cases)
  case (answered user now x w1 w2 r)
  note inv = later_sys_inv [OF answered(2) sys_invI [OF assms(1-4)]]
  have r: "hr_Status r < 300" using answered(5) assms(8) by simp
  show ?thesis
  proof (cases user)
    case None
    with mount_anonymous [OF assms(6,7)] answered(3) r show ?thesis by fastforce
  next
    case (Some u)
    with mount_permitted [OF inv assms(6)] answered(3) r have "permitted lib (db w1) u k i rq" by blast
    with answered(1,2) Some show ?thesis by (auto simp: later_simps)
  qed
qed (use assms(8) in auto)

lemma http_authorised_witness:
  "hr_Status (fst (run_state (ex_serve rq_done) n_task)) = 200 \<and>
   (\<exists>u t. task_view (db w_task) ex_task = Some t \<and> role_view (db w_task) (task_TeamID t) u \<noteq> None)"
proof -
  have s: "hr_Status (fst (run_state (ex_serve rq_done) n_task)) = 200" by code_simp
  obtain resp n' where run: "run_state (ex_serve rq_done) n_task = (resp, n')" by fastforce
  have r: "route_of plain_lib rq_done = Some ((''PUT'', ''/tasks/{id}''), canonical_uuid ex_task)" by code_simp
  have p: "(''PUT'', ''/tasks/{id}'') \<notin> set public_routes" by code_simp
  have b: "al_BindUUID plain_lib (canonical_uuid ex_task) = Inr ex_task" by (simp add: plain_lib_def plain_Parse_canonical)
  have w: "nd_world n_task = w_task" by (simp add: n_task_def)
  from http_authorised [OF plain_laws _ run [unfolded ex_serve_def] r p] s run ex_ok(4) w
  have "\<exists>u. permitted plain_lib (db w_task) u (''PUT'', ''/tasks/{id}'') (canonical_uuid ex_task) rq_done" by auto
  with s b show ?thesis by (auto simp: permitted_simps)
qed

text \<open>C22. A request that identifies no user, because it has no token or because the token is malformed,
  forged or expired, gets 400, 401, 429 or 500 from every route other than login and registration,
  and neither the tables nor the cache nor the mail change.\<close>

theorem http_unknown_caller:
  assumes "\<And>now u. authenticate rt (cfg_JWTSecret cfg) now (rq_Authorization rq) \<noteq> Inr (Some u)"
    and "run_state (app_serve lib rl srv rds rt cfg rq) n = (resp, n')"
    and "route_of lib rq = Some (k, i)" and "k \<notin> set public_routes"
  shows "hr_Status resp \<in> {400, 401, 429, 500} \<and> later (nd_world n) (nd_world n')"
  using assms(2)
proof (cases rule: serve_cases)
  case (answered user now x w1 w2 r)
  have "user = None" using assms(1) answered(1) by (cases user) auto
  with answered(3) have "w2 = w1 \<and> hr_Status r \<in> {400, 401}" using mount_anonymous [OF assms(3,4)] by simp
  with answered(2,4,5) show ?thesis using later_trans by auto
qed auto

lemma http_unknown_caller_witness:
  "hr_Status (fst (run_state (ex_serve (rq_done\<lparr>rq_Authorization := ''Basic x''\<rparr>)) n_task)) = 401 \<and>
   db (nd_world (snd (run_state (ex_serve (rq_done\<lparr>rq_Authorization := ''Basic x''\<rparr>)) n_task))) = db w_task"
proof -
  let ?rq = "rq_done\<lparr>rq_Authorization := ''Basic x''\<rparr>"
  have s: "hr_Status (fst (run_state (ex_serve ?rq) n_task)) = 401" by code_simp
  obtain resp n' where run: "run_state (ex_serve ?rq) n_task = (resp, n')" by fastforce
  have r: "route_of plain_lib ?rq = Some ((''PUT'', ''/tasks/{id}''), canonical_uuid ex_task)" by code_simp
  have p: "(''PUT'', ''/tasks/{id}'') \<notin> set public_routes" by code_simp
  have a: "authenticate plain_runtime (cfg_JWTSecret plain_config) now (rq_Authorization ?rq) \<noteq> Inr (Some u)" for now u
    by (simp add: authenticate_def CutPrefix_def HasPrefix_def)
  from http_unknown_caller [OF a run [unfolded ex_serve_def] r p] have "later w_task (nd_world n')" by (simp add: n_task_def)
  with s run show ?thesis by (simp add: later_simps)
qed

section \<open>The answers\<close>

text \<open>C23. Every answer of a route is one of the response objects the interface declares for it, or the plain
  text of an error: 400 for parameters or bodies that cannot be decoded, 401 for a bad token, 429
  from the rate limiter and 500.\<close>

theorem http_answers_declared:
  assumes "run_state (app_serve lib rl srv rds rt cfg rq) n = (resp, n')" and "route_of lib rq = Some (k, i)"
  shows "\<exists>codes. (k, codes) \<in> set declared \<and>
    (if plain_text (hr_Body resp) then hr_Status resp \<in> {400, 401, 429, 500} else hr_Status resp \<in> set codes)"
proof -
  have k: "\<exists>codes. (k, codes) \<in> set declared"
    using assms(2) find_in_set by (fastforce simp: route_of_def split: option.splits)
  from assms(1) show ?thesis
  proof (cases rule: serve_cases)
    case (answered user now x w1 w2 r)
    with conforms_mount [OF assms(2) answered(3)] show ?thesis by (auto simp: conforms_def split: if_splits)
  qed (use k in \<open>auto simp: plain_text_def\<close>)
qed

lemma http_answers_declared_witness:
  "hr_Status (fst (run_state (ex_serve rq_done) n_task)) \<in> {200, 400, 401, 403, 404, 429, 500}"
proof -
  obtain resp n' where run: "run_state (ex_serve rq_done) n_task = (resp, n')" by fastforce
  have r: "route_of plain_lib rq_done = Some ((''PUT'', ''/tasks/{id}''), canonical_uuid ex_task)" by code_simp
  from http_answers_declared [OF run [unfolded ex_serve_def] r] run show ?thesis
    by (auto simp: declared_def UpdateTask_responses_def split: if_splits)
qed

text \<open>The answered page of tasks carries the page and limit of the request, 0 when they are missing,
  and not the ones that were used: a request without them gets up to twenty tasks, the total,
  and page 0 with limit 0.\<close>

theorem list_echoes_request:
  assumes "run_state (ListTasks_handler h (Some u) params) w = (Reply c r, w')"
  shows "tlr_Page r = (case ltp_Page params of None \<Rightarrow> 0 | Some p \<Rightarrow> p) \<and>
    tlr_Limit r = (case ltp_Limit params of None \<Rightarrow> 0 | Some l \<Rightarrow> l) \<and>
    (\<exists>ts. run_state (task_List (h_tasks h) u (list_filter params)) w = (Inr (ts, tlr_Total r), w') \<and> tlr_Tasks r = map toAPITask ts)"
proof -
  have no: "switch_err rows e \<noteq> Reply c r" for rows e by (induction rows e rule: switch_err.induct) auto
  let ?reply = "\<lambda>(ts, n). \<lparr>tlr_Limit = tf_Limit (list_filter params), tlr_Page = tf_Page (list_filter params),
    tlr_Tasks = map toAPITask ts, tlr_Total = n\<rparr>"
  obtain x where run: "run_state (task_List (h_tasks h) u (list_filter params)) w = (x, w')"
    and r: "Reply c r = (case x of Inl e \<Rightarrow> switch_err [(ErrForbidden, 403, msgForbidden)] e | Inr p \<Rightarrow> Reply 200 (?reply p))"
    using assms unfolding ListTasks_handler_def Let_def option.case by (elim respond_run) simp
  obtain ts k where x: "x = Inr (ts, k)" using r no by (cases x) (metis sum.case(1), force)
  with r have "r = ?reply (ts, k)" by simp
  with run x show ?thesis by (simp add: list_filter_def)
qed

lemma list_echoes_request_witness:
  "\<exists>r w'. run_state (ListTasks_handler (app_handler plain_server plain_redis plain_runtime plain_config) (Some bob) ex_params) w_task =
     (Reply 200 r, w') \<and> length (tlr_Tasks r) = 1 \<and> tlr_Limit r = 0 \<and> tlr_Page r = 0"
proof -
  let ?m = "run_state (ListTasks_handler (app_handler plain_server plain_redis plain_runtime plain_config) (Some bob) ex_params) w_task"
  have "case fst ?m of Reply c r \<Rightarrow> c = 200 \<and> length (tlr_Tasks r) = 1 | _ \<Rightarrow> False" by code_simp
  then obtain r where "fst ?m = Reply 200 r" "length (tlr_Tasks r) = 1" by (cases "fst ?m") auto
  with list_echoes_request [OF run_pair [OF \<open>fst ?m = Reply 200 r\<close>]] run_pair [OF \<open>fst ?m = Reply 200 r\<close>]
  show ?thesis by (auto simp: ex_params_def)
qed

section \<open>The rate limiter\<close>

text \<open>C24. A request touches at most one limiter, and the limiter of a user only when its token identifies
  that user: nobody can use up the requests of somebody else, and requests without a user share
  the limiter of their address, which is no user's.\<close>

theorem limiter_isolated:
  assumes "runtime_laws rt" and "run_state (app_serve lib rl srv rds rt cfg rq) n = (resp, n')"
    and "\<And>now. authenticate rt (cfg_JWTSecret cfg) now (rq_Authorization rq) \<noteq> Inr (Some u)"
  shows "nd_limiters n' (limiter_key (rt_String rt) (Some u) addr) = nd_limiters n (limiter_key (rt_String rt) (Some u) addr) \<and>
    (\<forall>key key'. nd_limiters n' key \<noteq> nd_limiters n key \<longrightarrow> nd_limiters n' key' \<noteq> nd_limiters n key' \<longrightarrow> key = key')"
proof -
  have inj: "limiter_key (rt_String rt) user a = limiter_key (rt_String rt) (Some u) addr \<longleftrightarrow> user = Some u" for user a
    using assms(1) by (auto simp: limiter_key_def runtime_laws_def uuid_laws_def dest: arg_cong [where f = "rt_Parse rt"] split: option.splits)
  have one: "ls' k = ls k \<and> (\<forall>key key'. ls' key \<noteq> ls key \<longrightarrow> ls' key' \<noteq> ls key' \<longrightarrow> key = key')"
    if "ls' = ls(k' \<mapsto> x)" "k' \<noteq> k" for ls ls' :: "string \<Rightarrow> ('a \<times> time) option" and k k' x
    using that by auto
  from assms(2) show ?thesis
  proof (cases rule: serve_cases)
    case (limited user now x)
    then show ?thesis using assms(3) inj by (intro one) auto
  next
    case (answered user now x w1 w2 r)
    then show ?thesis using assms(3) inj by (intro one [OF answered(7)]) auto
  qed auto
qed

lemma limiter_isolated_witness:
  "nd_limiters (snd (run_state (ex_serve rq_done) n_task)) (limiter_key canonical_uuid (Some alice) '''') = None \<and>
   nd_limiters (snd (run_state (ex_serve rq_done) n_task)) (limiter_key canonical_uuid (Some bob) '''') \<noteq> None"
proof -
  obtain resp n' where run: "run_state (ex_serve rq_done) n_task = (resp, n')" by fastforce
  have a: "authenticate plain_runtime (cfg_JWTSecret plain_config) now (rq_Authorization rq_done) \<noteq> Inr (Some alice)" for now
  proof -
    have "CutPrefix (rq_Authorization rq_done) ''Bearer '' = (canonical_uuid bob @ ''1.secret'', True)" by code_simp
    moreover have "plain_Parse (take 36 (canonical_uuid bob @ ''1.secret'')) = Inr bob" "bob \<noteq> alice" by code_simp+
    moreover have "rq_Authorization rq_done \<noteq> ''''" by code_simp
    ultimately show ?thesis
      by (auto simp: authenticate_def plain_runtime_def plain_ParseJWT_def Let_def split: sum.splits if_splits)
  qed
  have "rt_String plain_runtime = canonical_uuid" by (simp add: plain_runtime_def)
  moreover have "nd_limiters (snd (run_state (ex_serve rq_done) n_task)) (limiter_key canonical_uuid (Some bob) '''') \<noteq> None" by code_simp
  moreover have "nd_limiters n_task = (\<lambda>_. None)" by (simp add: n_task_def init_node_def)
  ultimately show ?thesis using limiter_isolated [OF runtime_laws_plain run [unfolded ex_serve_def] a] run by simp
qed

text \<open>C25. Deleting the limiters of idle keys loses nothing: in every reachable state, a request after a
  cleanup is allowed exactly when it would have been allowed without it, and leaves the same
  limiter, since a bucket refills in a minute and only those idle for ten are deleted.\<close>

theorem cleanup_transparent:
  assumes "node_reachable allowed lib rl srv rds rt cfg n" and "refills rl (cfg_RequestsPerMinute cfg)" and "steady rt"
    and "now key \<le> t"
  shows "rl_Allow rl t (fst (getLimiter rl (cfg_RequestsPerMinute cfg) t key (cleanup now (nd_limiters n)))) =
    rl_Allow rl t (fst (getLimiter rl (cfg_RequestsPerMinute cfg) t key (nd_limiters n)))"
  using assms(2,4) by (rule cleanup_decides [OF node_in_use [OF assms(1,3)]])

section \<open>Refinement\<close>

text \<open>C4. The HTTP server refines the services: whatever requests it serves, its database is in a state
  the services can reach, so all constraints hold and assignees are members.\<close>

theorem http_refines_services:
  assumes "server_laws srv" and "redis_laws rds" and "runtime_laws rt" and "node_reachable allowed lib rl srv rds rt cfg n"
  shows "reachable allowed srv rds rt cfg (nd_world n) \<and> db_ok srv (tick (nd_world n)) (db (nd_world n)) \<and>
    assignees_ok (db (nd_world n))"
proof -
  note r = node_world_reachable [OF assms(4)]
  from r sys_invD(5) [OF reachable_sys_inv [OF assms(1-3) r]] reachable_assignees [OF assms(1-3) r] show ?thesis by simp
qed

lemma http_refines_services_witness:
  "email_view plain_server (db (nd_world n_registered)) ''carol@x'' \<noteq> None \<and>
   db_ok plain_server (tick (nd_world n_registered)) (db (nd_world n_registered))"
proof -
  have "email_view plain_server (db (nd_world n_registered)) ''carol@x'' \<noteq> None" by code_simp
  with http_refines_services [OF plain_laws ex_node_reachable] show ?thesis by simp
qed

lemma cleanup_transparent_witness:
  "nd_limiters n_registered ''ip:10.0.0.1'' \<noteq> None \<and>
   cleanup (\<lambda>_. 700000000000) (nd_limiters n_registered) ''ip:10.0.0.1'' = None \<and>
   rl_Allow plain_rate 700000000000 (fst (getLimiter plain_rate 100 700000000000 ''ip:10.0.0.1'' (cleanup (\<lambda>_. 700000000000) (nd_limiters n_registered)))) =
   rl_Allow plain_rate 700000000000 (fst (getLimiter plain_rate 100 700000000000 ''ip:10.0.0.1'' (nd_limiters n_registered)))"
proof -
  have "nd_limiters n_registered ''ip:10.0.0.1'' \<noteq> None" by code_simp
  moreover have "cleanup (\<lambda>_. 700000000000) (nd_limiters n_registered) ''ip:10.0.0.1'' = None" by code_simp
  moreover have "steady plain_runtime" by (simp add: steady_def plain_runtime_def)
  moreover have "cfg_RequestsPerMinute plain_config = 100" by (simp add: plain_config_def)
  ultimately show ?thesis using cleanup_transparent [OF ex_node_reachable _ _, of "\<lambda>_. 700000000000" "''ip:10.0.0.1''" 700000000000] refills_plain [of 100] by simp
qed

end
