(* ===== verification/Collectors.thy ===== *)
theory Collectors
  imports Http_Properties
begin

text \<open>
  \<open>internal/metrics/prometheus.go\<close>: the two collectors, and what the metrics middleware leaves in
  them.  A series of a collector is identified by its label values; the recorded samples are
  those of the process state.  Registering and exposing the collectors is the Prometheus client's.
\<close>

section \<open>The collectors\<close>

record CounterVec =
  cvec_Name :: string
  cvec_Help :: string
  cvec_Labels :: "string list"

record 'b HistogramVec =
  hvec_Name :: string
  hvec_Help :: string
  hvec_Buckets :: "'b list"
  hvec_Labels :: "string list"

definition RequestsTotal :: CounterVec where
  "RequestsTotal =
     \<lparr>cvec_Name = ''http_requests_total'', cvec_Help = ''Total number of HTTP requests.'',
      cvec_Labels = [''method'', ''path'', ''status'']\<rparr>"

text \<open>\<open>prometheus.DefBuckets\<close> is the client's.\<close>

definition RequestDuration :: "'b list \<Rightarrow> 'b HistogramVec" where
  "RequestDuration DefBuckets =
     \<lparr>hvec_Name = ''http_request_duration_seconds'', hvec_Help = ''HTTP request latency.'',
      hvec_Buckets = DefBuckets, hvec_Labels = [''method'', ''path'']\<rparr>"

text \<open>The label values of the recorded samples, and the value of a series.\<close>

definition total_samples :: "'l node \<Rightarrow> string list list" where
  "total_samples n = map (\<lambda>(m, p, s). [m, p, s]) (nd_total n)"

definition duration_samples :: "'l node \<Rightarrow> string list list" where
  "duration_samples n = map (\<lambda>(m, p, t). [m, p]) (nd_duration n)"

definition counter_value :: "'l node \<Rightarrow> string list \<Rightarrow> nat" where
  "counter_value n lvs = count_list (total_samples n) lvs"

definition histogram_count :: "'l node \<Rightarrow> string list \<Rightarrow> nat" where
  "histogram_count n lvs = count_list (duration_samples n) lvs"

definition statuses :: "'l node \<Rightarrow> string set" where
  "statuses n = (\<lambda>(m, p, s). s) ` set (nd_total n)"

lemma label_names:
  "\<forall>lvs \<in> set (total_samples n). length lvs = length (cvec_Labels RequestsTotal)"
  "\<forall>lvs \<in> set (duration_samples n). length lvs = length (hvec_Labels (RequestDuration buckets))"
  by (auto simp: total_samples_def duration_samples_def RequestsTotal_def RequestDuration_def)

section \<open>Every request is counted once\<close>

text \<open>Every request that gets a request identifier is counted once, with its method, the pattern of its
  route and the status it was answered with; refused and limited requests are counted under
  their path, and the answer carries the identifier of the request when it has one.\<close>

theorem metrics_count_once:
  assumes "run_state (app_serve lib rl srv rds rt cfg rq) n = (resp, n')"
  shows "rq_RequestID rq = '''' \<and> hr_Status resp = 500 \<and> nd_total n' = nd_total n \<or>
    (\<exists>label. nd_total n' = nd_total n @ [(rq_Method rq, label, fmt_d (int (hr_Status resp)))] \<and>
      (label = route_label (al_Pattern lib (rq_Method rq) (rq_Path rq)) rq \<or>
       label = rq_Path rq \<and> hr_Status resp \<in> {401, 429} \<and> plain_text (hr_Body resp)) \<and>
      (hr_RequestID resp = rq_RequestID rq \<or> rq_RequestID rq = '''' \<and> (\<exists>u. hr_RequestID resp = rt_String rt u)))"
  using assms by (cases rule: serve_cases) (auto simp: plain_text_def)

lemma metrics_count_once_witness:
  "\<exists>label. nd_total (snd (run_state (ex_serve rq_done) n_task)) = [(''PUT'', label, ''200'')] \<and>
     hr_RequestID (fst (run_state (ex_serve rq_done) n_task)) = ''r1''"
proof -
  obtain resp n' where run: "run_state (ex_serve rq_done) n_task = (resp, n')" by fastforce
  have "hr_Status (fst (run_state (ex_serve rq_done) n_task)) = 200" by code_simp
  moreover have "rq_RequestID rq_done = ''r1''" "rq_Method rq_done = ''PUT''" "nd_total n_task = []" "fmt_d 200 = ''200''"
    by code_simp+
  ultimately show ?thesis using metrics_count_once [OF run [unfolded ex_serve_def]] run by auto
qed

section \<open>Counter and histogram agree\<close>

definition pairs_agree :: "'l node \<Rightarrow> bool" where
  "pairs_agree n \<longleftrightarrow> map (\<lambda>(m, p, s). (m, p)) (nd_total n) = map (\<lambda>(m, p, t). (m, p)) (nd_duration n)"

lemma serve_pairs:
  assumes "run_state (app_serve lib rl srv rds rt cfg rq) n = (resp, n')" and "pairs_agree n"
  shows "pairs_agree n'"
  using assms(1) by (cases rule: serve_cases) (use assms(2) in \<open>simp_all add: pairs_agree_def\<close>)

lemma reachable_pairs: "node_reachable allowed lib rl srv rds rt cfg n \<Longrightarrow> pairs_agree n"
proof (induction rule: node_reachable.induct)
  case node_init
  show ?case by (simp add: pairs_agree_def init_node_def)
next
  case (node_next n n')
  from node_next.hyps(2) node_next.IH show ?case
    by (induction rule: node_step.induct) (auto simp: pairs_agree_def dest: serve_pairs [unfolded pairs_agree_def])
qed

lemma count_list_map_inj: "inj f \<Longrightarrow> count_list (map f xs) (f x) = count_list xs x"
  by (induction xs) (auto simp: inj_eq)

lemma count_split:
  assumes "finite S" and "(\<lambda>(m, p, s). s) ` set xs \<subseteq> S"
  shows "count_list (map (\<lambda>(m, p, s). (m, p)) xs) (m, p) = (\<Sum>s\<in>S. count_list (map (\<lambda>(m, p, s). [m, p, s]) xs) [m, p, s])"
  using assms(2)
proof (induction xs)
  case (Cons x xs)
  obtain a b c where x: "x = (a, b, c)" by (cases x)
  with Cons.prems have "c \<in> S" by simp
  with assms(1) have "(\<Sum>s\<in>S. if [a, b, c] = [m, p, s] then 1 else 0 :: nat) = (if (a, b) = (m, p) then 1 else 0)"
    by auto
  moreover have "(\<Sum>s\<in>S. count_list (map (\<lambda>(m, p, s). [m, p, s]) (x # xs)) [m, p, s]) =
      (\<Sum>s\<in>S. if [a, b, c] = [m, p, s] then 1 else 0) + (\<Sum>s\<in>S. count_list (map (\<lambda>(m, p, s). [m, p, s]) xs) [m, p, s])"
    unfolding sum.distrib [symmetric] x by (rule sum.cong) auto
  ultimately show ?case using Cons by (auto simp: x)
qed simp

lemma duration_samples_pairs: "duration_samples n = map (\<lambda>(m, p). [m, p]) (map (\<lambda>(m, p, t). (m, p)) (nd_duration n))"
  by (simp add: duration_samples_def case_prod_unfold)

lemma pairs_count:
  assumes "pairs_agree n"
  shows "histogram_count n [m, p] = (\<Sum>s\<in>statuses n. counter_value n [m, p, s])"
proof -
  have inj: "inj (\<lambda>(m, p). [m, p])" by (auto simp: inj_def)
  have "histogram_count n [m, p] = count_list (map (\<lambda>(m, p, t). (m, p)) (nd_duration n)) (m, p)"
    unfolding histogram_count_def duration_samples_pairs using count_list_map_inj [OF inj, of _ "(m, p)"] by (simp del: map_map)
  also have "\<dots> = count_list (map (\<lambda>(m, p, s). (m, p)) (nd_total n)) (m, p)" using assms by (simp add: pairs_agree_def)
  finally show ?thesis
    unfolding counter_value_def total_samples_def by (simp add: count_split [of "statuses n"] statuses_def)
qed

text \<open>C26. At any time, whatever requests were served, refused or limited, the number of observations of a
  latency series is the sum of the counters of its method and path over all statuses.\<close>

theorem metrics_consistent:
  assumes "node_reachable allowed lib rl srv rds rt cfg n"
  shows "histogram_count n [m, p] = (\<Sum>s\<in>statuses n. counter_value n [m, p, s])"
  by (rule pairs_count [OF reachable_pairs [OF assms]])

lemma metrics_consistent_witness:
  "histogram_count n_registered [''POST'', ''/api/v1/register''] =
     (\<Sum>s\<in>statuses n_registered. counter_value n_registered [''POST'', ''/api/v1/register'', s]) \<and>
   histogram_count n_registered [''POST'', ''/api/v1/register''] = 1"
proof
  show "histogram_count n_registered [''POST'', ''/api/v1/register''] =
      (\<Sum>s\<in>statuses n_registered. counter_value n_registered [''POST'', ''/api/v1/register'', s])"
    by (rule metrics_consistent [OF ex_node_reachable])
  show "histogram_count n_registered [''POST'', ''/api/v1/register''] = 1" by code_simp
qed

section \<open>Series of requests that are not routed\<close>


definition rq_probe :: http_request where
  "rq_probe = ex_request ''GET'' ''/no/such/path'' [] '''' ''Token x''"


end
