(* ===== verification/Api_Properties.thy ===== *)
theory Api_Properties
  imports Api_Server
begin

text \<open>
  The generated server for any implementation of its interfaces: what the middlewares given to
  \<open>HandlerWithOptions\<close> can decide, what the server that implements nothing answers, and that the
  constructors of the router agree.
\<close>

section \<open>Middlewares of the wrappers\<close>

lemma through_append: "through (ms @ ms') h = through ms' (through ms h)"
  by (induction ms arbitrary: h) simp_all

text \<open>What a wrapper does: it answers a parameter error itself, or calls the method through the middlewares.\<close>

definition wrapped ::
  "'w ServerInterfaceWrapper \<Rightarrow> http_request \<Rightarrow> uuid option \<Rightarrow> ('w http_handler \<Rightarrow> bool) \<Rightarrow> ('w, http_response) state \<Rightarrow> bool" where
  "wrapped siw rq user calls m \<longleftrightarrow>
     (\<exists>name e. m = State_Monad.return (siw_ErrorHandlerFunc siw rq (InvalidParamFormatError name e))) \<or>
     (\<exists>h. calls h \<and> m = through (siw_HandlerMiddlewares siw) h user rq)"

lemma wrapped_param:
  "(\<And>x. wrapped siw rq user calls (k x)) \<Longrightarrow> wrapped siw rq user calls (with_param (siw_ErrorHandlerFunc siw rq) name b k)"
  by (cases b) (auto simp: with_param_def wrapped_def)

lemma wrapped_through: "calls h \<Longrightarrow> wrapped siw rq user calls (through (siw_HandlerMiddlewares siw) h user rq)"
  by (auto simp: wrapped_def)

text \<open>The handlers that call one method of an interface.\<close>

definition method_of :: "'w ServerInterface \<Rightarrow> 'w http_handler \<Rightarrow> bool" where
  "method_of si h \<longleftrightarrow>
     h \<in> {si_GetOrphanTasks si, si_GetTeamSummaries si, si_GetTopContributors si, si_Login si, si_Register si,
          si_CreateTask si, si_ListTeams si, si_CreateTeam si} \<or>
     (\<exists>params. h = (\<lambda>user rq. si_ListTasks si user rq params)) \<or>
     (\<exists>i. h \<in> {\<lambda>user rq. si_UpdateTask si user rq i, \<lambda>user rq. si_ListTaskComments si user rq i,
               \<lambda>user rq. si_AddTaskComment si user rq i, \<lambda>user rq. si_GetTaskHistory si user rq i,
               \<lambda>user rq. si_InviteToTeam si user rq i})"

lemma routes_wrapped:
  "list_all (\<lambda>(m, p, f). wrapped siw rq user (method_of (siw_Handler siw)) (f lib siw user i rq)) routes"
proof -
  have "wrapped siw rq user (method_of (siw_Handler siw)) (wrap_ListTasks lib siw user i rq)"
    unfolding wrap_ListTasks_def by (cases "bind_list_params lib (rq_Query rq)") (auto simp: wrapped_def method_of_def)
  then show ?thesis
    unfolding routes_def wrap_defs by (auto intro!: wrapped_param wrapped_through simp: method_of_def)
qed

lemma route_wrapped:
  assumes "(m, p, f) \<in> set routes"
  shows "wrapped siw rq user (method_of (siw_Handler siw)) (f lib siw user i rq)"
  using routes_wrapped [of siw rq user lib i] assms by (auto simp: list_all_iff)

text \<open>A router built by \<open>HandlerWithOptions\<close> answers with one of the wrappers or not at all.\<close>

lemma ServeHTTP_wrapped:
  assumes "co_BaseRouter options = None"
  obtains (other) "router_ServeHTTP lib (HandlerWithOptions lib si options) user rq = State_Monad.return (al_Other lib rq)"
  | (route) siw where "siw_HandlerMiddlewares siw = co_Middlewares options" "siw_Handler siw = si"
      "siw_ErrorHandlerFunc siw = (case co_ErrorHandlerFunc options of None \<Rightarrow> bad_param | Some f \<Rightarrow> f)"
      "wrapped siw rq user (method_of si) (router_ServeHTTP lib (HandlerWithOptions lib si options) user rq)"
proof -
  let ?siw = "\<lparr>siw_Handler = si, siw_HandlerMiddlewares = co_Middlewares options,
    siw_ErrorHandlerFunc = (case co_ErrorHandlerFunc options of None \<Rightarrow> bad_param | Some f \<Rightarrow> f)\<rparr>"
  let ?r = "router_ServeHTTP lib (HandlerWithOptions lib si options) user rq"
  have r: "?r = (case List.find (\<lambda>(m, p, _). m = rq_Method rq \<and> al_Match lib (co_BaseURL options @ p) (rq_Path rq) \<noteq> None) routes of
        None \<Rightarrow> State_Monad.return (al_Other lib rq)
      | Some (m, p, f) \<Rightarrow>
          (case al_Match lib (co_BaseURL options @ p) (rq_Path rq) of
             None \<Rightarrow> State_Monad.return (al_Other lib rq)
           | Some idp \<Rightarrow> f lib ?siw user idp rq))"
    unfolding HandlerWithOptions_def assms Let_def option.case append_Nil by (rule ServeHTTP_routes)
  show thesis
  proof (cases "?r = State_Monad.return (al_Other lib rq)")
    case False
    with r obtain m p f idp where "(m, p, f) \<in> set routes" and "?r = f lib ?siw user idp rq"
      by (auto split: option.splits dest: find_in_set)
    with route_wrapped [of m p f ?siw rq user lib idp] show thesis by (intro route [of ?siw]) simp_all
  qed (rule other)
qed

text \<open>The last middleware given to the generated server decides alone: when it answers itself, no
  method of the server and no earlier middleware runs on any route; the only other answers are those
  of the router to an unknown route and of the error handler to a parameter that cannot be bound,
  which no middleware sees.\<close>

theorem last_middleware_decides:
  "router_ServeHTTP lib
     (HandlerWithOptions lib si
        \<lparr>co_BaseURL = base, co_BaseRouter = None, co_Middlewares = ms @ [\<lambda>_. deny],
         co_ErrorHandlerFunc = Some on_error\<rparr>) user rq
   \<in> {State_Monad.return (al_Other lib rq), deny user rq} \<union>
      {State_Monad.return (on_error rq (InvalidParamFormatError name e)) | name e. True}"
  (is "router_ServeHTTP lib (HandlerWithOptions lib si ?options) user rq \<in> _")
proof (rule ServeHTTP_wrapped [of ?options lib si user rq])
  fix siw
  assume route: "siw_HandlerMiddlewares siw = co_Middlewares ?options"
    "siw_ErrorHandlerFunc siw = (case co_ErrorHandlerFunc ?options of None \<Rightarrow> bad_param | Some f \<Rightarrow> f)"
    "wrapped siw rq user (method_of si) (router_ServeHTTP lib (HandlerWithOptions lib si ?options) user rq)"
  have "through (siw_HandlerMiddlewares siw) h user rq = deny user rq" for h
    by (simp add: route(1) through_append)
  with route(2,3) show ?thesis by (auto simp: wrapped_def)
qed simp_all

section \<open>The server that implements nothing\<close>

lemma method_of_Unimplemented: "method_of Unimplemented h \<Longrightarrow> h user rq = StatusNotImplemented"
  by (auto simp: method_of_def Unimplemented_def)

text \<open>The server that implements nothing changes no state: it answers 501, 400 for a parameter that
  cannot be bound, or leaves the request to the router.\<close>

theorem unimplemented_answers:
  "(router_ServeHTTP lib (Handler lib Unimplemented) user rq :: ('w, http_response) state)
   \<in> {State_Monad.return (al_Other lib rq), StatusNotImplemented} \<union>
      {State_Monad.return (bad_param rq (InvalidParamFormatError name e)) | name e. True}"
proof -
  let ?options = "\<lparr>co_BaseURL = '''', co_BaseRouter = None, co_Middlewares = [], co_ErrorHandlerFunc = None\<rparr> :: 'w ChiServerOptions"
  have handled: "Handler lib Unimplemented = HandlerWithOptions lib Unimplemented ?options" by (simp add: Handler_def)
  show ?thesis
    unfolding handled
  proof (rule ServeHTTP_wrapped [of ?options lib Unimplemented user rq])
    fix siw
    assume "siw_HandlerMiddlewares siw = co_Middlewares ?options"
      "siw_ErrorHandlerFunc siw = (case co_ErrorHandlerFunc ?options of None \<Rightarrow> bad_param | Some f \<Rightarrow> f)"
      "wrapped siw rq user (method_of (Unimplemented :: 'w ServerInterface)) (router_ServeHTTP lib (HandlerWithOptions lib Unimplemented ?options) user rq)"
    then show "router_ServeHTTP lib (HandlerWithOptions lib Unimplemented ?options) user rq
        \<in> {State_Monad.return (al_Other lib rq), StatusNotImplemented} \<union>
          {State_Monad.return (bad_param rq (InvalidParamFormatError name e)) | name e. True}"
      by (auto simp: wrapped_def method_of_Unimplemented)
  qed simp_all
qed

section \<open>The constructors of the router\<close>

lemma Route_HandlerFromMux:
  "router_Route pattern (HandlerFromMux lib si []) = HandlerFromMuxWithBaseURL lib si [] pattern"
  unfolding router_Route_def HandlerFromMux_def HandlerFromMuxWithBaseURL_def HandlerWithOptions_def
  by (simp add: Let_def case_prod_unfold o_def)

text \<open>Mounting the generated routes below a prefix of the router, as the service does, and giving
  the generated constructor the prefix as its base path serve every request alike.\<close>

theorem mount_is_base_url:
  "mountV1 lib h user rq =
     router_ServeHTTP lib (HandlerFromMuxWithBaseURL lib (NewStrictHandler lib (strict_server h)) [] ''/api/v1'') user rq"
  unfolding mountV1_def Route_HandlerFromMux ..

end
