(* ===== verification/Slogx.thy ===== *)
theory Slogx
  imports Go_Base
begin

text \<open>
  \<open>pkg/slogx\<close> and \<open>pkg/logger\<close>: the logger whose level, format, masking and removal rules can
  change at run time.  An attribute is a key with a value or a group of attributes; what a
  handler writes is the list of its leaves, each with the groups it stands in.  A computation
  that panics has the value \<open>None\<close>.
\<close>

section \<open>Strings and slices\<close>

fun Split :: "char \<Rightarrow> string \<Rightarrow> string list" where
  "Split c [] = [[]]"
| "Split c (x # s) =
     (if x = c then [] # Split c s else (case Split c s of [] \<Rightarrow> [[x]] | w # ws \<Rightarrow> (x # w) # ws))"

definition slice_to :: "nat \<Rightarrow> string \<Rightarrow> string option" where
  "slice_to n s = (if n \<le> length s then Some (take n s) else None)"

definition slice_last :: "nat \<Rightarrow> string \<Rightarrow> string option" where
  "slice_last n s = (if n \<le> length s then Some (drop (length s - n) s) else None)"

definition lower_char :: "char \<Rightarrow> char" where
  "lower_char c = (let n = of_char c :: nat in if 65 \<le> n \<and> n \<le> 90 then char_of (n + 32) else c)"

definition upper_char :: "char \<Rightarrow> char" where
  "upper_char c = (let n = of_char c :: nat in if 97 \<le> n \<and> n \<le> 122 then char_of (n - 32) else c)"

section \<open>Attributes and levels\<close>

text \<open>
  Values of \<open>log/slog\<close>: the zero value, strings, levels, groups, and anything else by its text.
\<close>

datatype logvalue = ZeroValue | StringValue string | LevelValue int | AnyValue string | GroupValue "attr list"
  and attr = Attr string logvalue

definition LevelTrace :: int where "LevelTrace = -8"
definition LevelDebug :: int where "LevelDebug = -4"
definition LevelInfo :: int where "LevelInfo = 0"
definition LevelWarn :: int where "LevelWarn = 4"
definition LevelError :: int where "LevelError = 8"
definition LevelFatal :: int where "LevelFatal = 12"

definition level_str :: "string \<Rightarrow> int \<Rightarrow> string" where
  "level_str base d = (if d = 0 then base else base @ (if d < 0 then '''' else ''+'') @ fmt_d d)"

definition level_String :: "int \<Rightarrow> string" where
  "level_String l =
     (if l < LevelInfo then level_str ''DEBUG'' (l - LevelDebug)
      else if l < LevelWarn then level_str ''INFO'' (l - LevelInfo)
      else if l < LevelError then level_str ''WARN'' (l - LevelWarn)
      else level_str ''ERROR'' (l - LevelError))"

fun value_text :: "logvalue \<Rightarrow> string" where
  "value_text ZeroValue = ''<nil>''"
| "value_text (StringValue s) = s"
| "value_text (LevelValue l) = level_String l"
| "value_text (AnyValue s) = s"
| "value_text (GroupValue _) = ''[]''"

definition defaultLevelNames :: "int \<Rightarrow> string option" where
  "defaultLevelNames = [LevelTrace \<mapsto> ''TRACE'', LevelFatal \<mapsto> ''FATAL'']"

definition getLevelName :: "int \<Rightarrow> (int \<Rightarrow> string option) \<Rightarrow> string" where
  "getLevelName l customNames =
     (case customNames l of Some name \<Rightarrow> name | None \<Rightarrow> map upper_char (level_String l))"

section \<open>Masking\<close>

datatype MaskType = MaskDefault | MaskEmail | MaskPhone | MaskCard | MaskSecret

text \<open>A masker answers with a string, as \<open>DefaultMasker\<close> does; \<open>None\<close> is a panic.\<close>

type_synonym Masker = "logvalue \<Rightarrow> MaskType \<Rightarrow> string option"

type_synonym MaskMap = "string \<Rightarrow> MaskType option"

record MaskRules =
  mr_rules :: MaskMap

definition NewMaskRules :: MaskRules where
  "NewMaskRules = \<lparr>mr_rules = (\<lambda>_. None)\<rparr>"

definition MaskRules_Add :: "string \<Rightarrow> MaskType \<Rightarrow> MaskRules \<Rightarrow> MaskRules" where
  "MaskRules_Add key mType r = r\<lparr>mr_rules := (mr_rules r)(key \<mapsto> mType)\<rparr>"

definition MaskRules_Keys :: "MaskRules \<Rightarrow> MaskMap" where
  "MaskRules_Keys r = mr_rules r"

definition maskEmail :: "string \<Rightarrow> string option" where
  "maskEmail s =
     (case Split (CHR ''@'') s of
        [user, domain] \<Rightarrow>
          if length user \<le> 2 then map_option (\<lambda>u. u @ ''***@'' @ domain) (slice_to 1 user)
          else (case (slice_to 2 user, slice_last 1 user) of
                  (Some u, Some v) \<Rightarrow> Some (u @ ''***'' @ v @ ''@'' @ domain)
                | _ \<Rightarrow> None)
      | _ \<Rightarrow> Some ''***@***'')"

definition maskPhone :: "string \<Rightarrow> string option" where
  "maskPhone s =
     (if length s < 8 then Some ''***''
      else (case (slice_to 4 s, slice_last 3 s) of (Some u, Some v) \<Rightarrow> Some (u @ ''*******'' @ v) | _ \<Rightarrow> None))"

definition maskCard :: "string \<Rightarrow> string option" where
  "maskCard s0 =
     (let s = filter (\<lambda>c. c \<noteq> CHR '' '') s0 in
      if length s < 12 then Some ''**** **** ****''
      else (case (slice_to 4 s, slice_last 4 s) of (Some u, Some v) \<Rightarrow> Some (u @ '' **** **** '' @ v) | _ \<Rightarrow> None))"

definition DefaultMasker_Mask :: "logvalue \<Rightarrow> MaskType \<Rightarrow> string option" where
  "DefaultMasker_Mask value mType =
     (let valStr = value_text value in
      case mType of
        MaskEmail \<Rightarrow> maskEmail valStr
      | MaskPhone \<Rightarrow> maskPhone valStr
      | MaskCard \<Rightarrow> maskCard valStr
      | MaskSecret \<Rightarrow> Some ''[SECRET]''
      | MaskDefault \<Rightarrow> Some ''[MASKED]'')"

section \<open>Keys to remove\<close>

record RemovalSet =
  rs_keys :: "string list"

definition NewRemovalSet :: "string list \<Rightarrow> RemovalSet" where
  "NewRemovalSet keys = \<lparr>rs_keys = keys\<rparr>"

definition RemovalSet_Add :: "string list \<Rightarrow> RemovalSet \<Rightarrow> RemovalSet" where
  "RemovalSet_Add keys s = s\<lparr>rs_keys := rs_keys s @ keys\<rparr>"

definition RemovalSet_Keys :: "RemovalSet \<Rightarrow> string list" where
  "RemovalSet_Keys s = rs_keys s"

section \<open>Configuration\<close>

datatype Format = FormatText | FormatJSON

type_synonym RemoveMap = "string \<Rightarrow> unit option"

type_synonym LevelNames = "int \<Rightarrow> string option"

text \<open>The output is a name.\<close>

record Config =
  lc_Level :: int
  lc_Format :: Format
  lc_Output :: string
  lc_MaskKeys :: MaskMap
  lc_RemoveKeys :: RemoveMap
  lc_LevelNames :: LevelNames
  lc_Masker :: Masker
  lc_ContextKeys :: "string list"

text \<open>An option changes the initial configuration.\<close>

type_synonym Option = "Config \<Rightarrow> Config"

text \<open>A deep copy is the same value.\<close>

definition Clone :: "Config \<Rightarrow> Config" where
  "Clone c = c"

definition defaultOptions :: Config where
  "defaultOptions =
     \<lparr>lc_Level = LevelTrace, lc_Format = FormatText, lc_Output = ''stdout'', lc_MaskKeys = (\<lambda>_. None),
      lc_RemoveKeys = (\<lambda>_. None), lc_LevelNames = defaultLevelNames, lc_Masker = DefaultMasker_Mask, lc_ContextKeys = []\<rparr>"

definition WithOutput :: "string option \<Rightarrow> Option" where
  "WithOutput w c = (case w of None \<Rightarrow> c | Some out \<Rightarrow> c\<lparr>lc_Output := out\<rparr>)"

definition WithFormat :: "Format \<Rightarrow> Option" where
  "WithFormat f c = c\<lparr>lc_Format := f\<rparr>"

definition ParseFormat :: "string \<Rightarrow> Format" where
  "ParseFormat s = (if map lower_char s = ''json'' then FormatJSON else FormatText)"

definition WithLevel :: "int \<Rightarrow> Option" where
  "WithLevel l c = c\<lparr>lc_Level := l\<rparr>"

definition WithMaskKey :: "string \<Rightarrow> MaskType \<Rightarrow> Option" where
  "WithMaskKey key mType c = c\<lparr>lc_MaskKeys := (lc_MaskKeys c)(key \<mapsto> mType)\<rparr>"

definition WithMaskKeys :: "MaskMap \<Rightarrow> Option" where
  "WithMaskKeys keys c = c\<lparr>lc_MaskKeys := lc_MaskKeys c ++ keys\<rparr>"

definition WithMaskRules :: "MaskRules option \<Rightarrow> Option" where
  "WithMaskRules r c = (case r of None \<Rightarrow> c | Some r \<Rightarrow> c\<lparr>lc_MaskKeys := lc_MaskKeys c ++ mr_rules r\<rparr>)"

definition WithMasker :: "Masker option \<Rightarrow> Option" where
  "WithMasker m c = (case m of None \<Rightarrow> c | Some masker \<Rightarrow> c\<lparr>lc_Masker := masker\<rparr>)"

definition WithRemoval :: "RemovalSet \<Rightarrow> Option" where
  "WithRemoval rs c = c\<lparr>lc_RemoveKeys := fold (\<lambda>k m. m(k \<mapsto> ())) (RemovalSet_Keys rs) (lc_RemoveKeys c)\<rparr>"

definition WithLevelNames :: "LevelNames \<Rightarrow> Option" where
  "WithLevelNames m c = c\<lparr>lc_LevelNames := lc_LevelNames c ++ m\<rparr>"

definition WithContextKeys :: "string list \<Rightarrow> Option" where
  "WithContextKeys keys c = c\<lparr>lc_ContextKeys := lc_ContextKeys c @ keys\<rparr>"

section \<open>Writing a record\<close>

definition getReplaceAttr :: "Config \<Rightarrow> attr \<Rightarrow> attr option" where
  "getReplaceAttr cfg a =
     (case a of Attr key v \<Rightarrow>
        if lc_RemoveKeys cfg key \<noteq> None then Some (Attr '''' ZeroValue)
        else case lc_MaskKeys cfg key of
          Some mType \<Rightarrow> map_option (\<lambda>s. Attr key (StringValue s)) (lc_Masker cfg v mType)
        | None \<Rightarrow>
            if key = ''level'' then
              (case v of LevelValue l \<Rightarrow> Some (Attr key (StringValue (getLevelName l (lc_LevelNames cfg)))) | _ \<Rightarrow> Some a)
            else Some a)"

text \<open>
  \<open>log/slog\<close>: groups are opened, with their name unless it is empty; every other attribute is
  replaced and left out when the result is the empty attribute.
\<close>

type_synonym leaf = "string list \<times> string \<times> logvalue"

definition joined :: "'a list option \<Rightarrow> 'a list option \<Rightarrow> 'a list option" where
  "joined x y = (case x of None \<Rightarrow> None | Some xs \<Rightarrow> map_option ((@) xs) y)"

fun appendAttr :: "(attr \<Rightarrow> attr option) \<Rightarrow> string list \<Rightarrow> attr \<Rightarrow> leaf list option"
  and appendAttrs :: "(attr \<Rightarrow> attr option) \<Rightarrow> string list \<Rightarrow> attr list \<Rightarrow> leaf list option" where
  "appendAttr rep gs (Attr key (GroupValue as)) = appendAttrs rep (if key = '''' then gs else gs @ [key]) as"
| "appendAttr rep gs a =
     map_option (\<lambda>b. case b of Attr key v \<Rightarrow> if key = '''' \<and> v = ZeroValue then [] else [(gs, key, v)]) (rep a)"
| "appendAttrs rep gs [] = Some []"
| "appendAttrs rep gs (a # as) = joined (appendAttr rep gs a) (appendAttrs rep gs as)"

record log_record =
  lr_Time :: "string option"
  lr_Level :: int
  lr_Message :: string
  lr_Attrs :: "attr list"

definition builtins :: "log_record \<Rightarrow> attr list" where
  "builtins r =
     (case lr_Time r of None \<Rightarrow> [] | Some t \<Rightarrow> [Attr ''time'' (AnyValue t)]) @
     [Attr ''level'' (LevelValue (lr_Level r)), Attr ''msg'' (StringValue (lr_Message r))]"

text \<open>A handler of \<open>log/slog\<close> with the attributes and groups added to it, in order.\<close>

datatype handler_op = OpAttrs "attr list" | OpGroup string

record slog_handler =
  sh_Format :: Format
  sh_Output :: string
  sh_Replace :: "attr \<Rightarrow> attr option"
  sh_ops :: "handler_op list"

fun run_ops :: "(attr \<Rightarrow> attr option) \<Rightarrow> string list \<Rightarrow> handler_op list \<Rightarrow> attr list \<Rightarrow> leaf list option" where
  "run_ops rep gs [] as = appendAttrs rep gs as"
| "run_ops rep gs (OpAttrs bs # ops) as = joined (appendAttrs rep gs bs) (run_ops rep gs ops as)"
| "run_ops rep gs (OpGroup g # ops) as = run_ops rep (gs @ [g]) ops as"

definition slog_Handle :: "slog_handler \<Rightarrow> log_record \<Rightarrow> (Format \<times> string \<times> leaf list) option" where
  "slog_Handle h r =
     map_option (\<lambda>ls. (sh_Format h, sh_Output h, ls))
       (joined (appendAttrs (sh_Replace h) [] (builtins r)) (run_ops (sh_Replace h) [] (sh_ops h) (lr_Attrs r)))"

section \<open>The dynamic handler\<close>

text \<open>
  The configurations that were ever stored, by address; the shared pointer holds the address of
  the current one.
\<close>

record log_state =
  ls_configs :: "Config list"
  ls_cfg :: nat

record DynamicHandler =
  dh_attrs :: "attr list"
  dh_groups :: "string list"
  dh_cachedHandler :: "slog_handler option"
  dh_cachedConfigVersion :: "nat option"

definition Load :: "log_state \<Rightarrow> Config" where
  "Load st = ls_configs st ! ls_cfg st"

definition Enabled :: "log_state \<Rightarrow> int \<Rightarrow> bool" where
  "Enabled st level \<longleftrightarrow> lc_Level (Load st) \<le> level"

definition build_handler :: "Config \<Rightarrow> attr list \<Rightarrow> string list \<Rightarrow> slog_handler" where
  "build_handler cfg as gs =
     \<lparr>sh_Format = lc_Format cfg, sh_Output = lc_Output cfg, sh_Replace = getReplaceAttr cfg,
      sh_ops = (if as \<noteq> [] then [OpAttrs as] else []) @ map OpGroup gs\<rparr>"

definition getOrBuildCachedHandler :: "log_state \<Rightarrow> DynamicHandler \<Rightarrow> slog_handler \<times> DynamicHandler" where
  "getOrBuildCachedHandler st h =
     (case (dh_cachedConfigVersion h = Some (ls_cfg st), dh_cachedHandler h) of
        (True, Some cached) \<Rightarrow> (cached, h)
      | _ \<Rightarrow>
          (let base = build_handler (Load st) (dh_attrs h) (dh_groups h)
           in (base, h\<lparr>dh_cachedHandler := Some base, dh_cachedConfigVersion := Some (ls_cfg st)\<rparr>)))"

definition context_attrs :: "(string \<Rightarrow> logvalue option) \<Rightarrow> string list \<Rightarrow> attr list" where
  "context_attrs ctx keys = List.map_filter (\<lambda>key. map_option (Attr key) (ctx key)) keys"

definition Handle ::
  "log_state \<Rightarrow> (string \<Rightarrow> logvalue option) \<Rightarrow> log_record \<Rightarrow> DynamicHandler \<Rightarrow>
   (Format \<times> string \<times> leaf list) option \<times> DynamicHandler" where
  "Handle st ctx r h =
     (let ctxAttrs = context_attrs ctx (lc_ContextKeys (Load st)) in
      case getOrBuildCachedHandler st h of (base, h') \<Rightarrow>
        (slog_Handle (if ctxAttrs \<noteq> [] then base\<lparr>sh_ops := sh_ops base @ [OpAttrs ctxAttrs]\<rparr> else base) r, h'))"

definition WithAttrs :: "attr list \<Rightarrow> DynamicHandler \<Rightarrow> DynamicHandler" where
  "WithAttrs as h = \<lparr>dh_attrs = dh_attrs h @ as, dh_groups = dh_groups h, dh_cachedHandler = None, dh_cachedConfigVersion = None\<rparr>"

definition WithGroup :: "string \<Rightarrow> DynamicHandler \<Rightarrow> DynamicHandler" where
  "WithGroup name h = \<lparr>dh_attrs = dh_attrs h, dh_groups = dh_groups h @ [name], dh_cachedHandler = None, dh_cachedConfigVersion = None\<rparr>"

section \<open>Loggers\<close>

definition slogx_New :: "Option option list \<Rightarrow> log_state \<times> DynamicHandler" where
  "slogx_New opts =
     (\<lparr>ls_configs = [fold (\<lambda>fn c. case fn of None \<Rightarrow> c | Some f \<Rightarrow> f c) opts defaultOptions], ls_cfg = 0\<rparr>,
      \<lparr>dh_attrs = [], dh_groups = [], dh_cachedHandler = None, dh_cachedConfigVersion = None\<rparr>)"

definition UpdateConfig :: "(Config \<Rightarrow> Config) \<Rightarrow> log_state \<Rightarrow> log_state" where
  "UpdateConfig fn st =
     \<lparr>ls_configs = ls_configs st @ [fn (Clone (Load st))], ls_cfg = length (ls_configs st)\<rparr>"

definition SetLevel :: "int \<Rightarrow> log_state \<Rightarrow> log_state" where
  "SetLevel lvl = UpdateConfig (\<lambda>c. c\<lparr>lc_Level := lvl\<rparr>)"

definition Err_attr :: "err option \<Rightarrow> attr" where
  "Err_attr e = (case e of None \<Rightarrow> Attr ''error'' (StringValue ''nil'') | Some x \<Rightarrow> Attr ''error'' (StringValue (Error x)))"

text \<open>\<open>pkg/logger\<close>: the logger of the service.\<close>

definition logger_New :: "string \<Rightarrow> log_state \<times> DynamicHandler" where
  "logger_New env =
     (let format = (if env = ''prod'' then FormatJSON else FormatText);
          level = (if env = ''prod'' then LevelInfo else LevelDebug)
      in slogx_New [Some (WithOutput None), Some (WithFormat format), Some (WithLevel level),
           Some (WithRemoval (RemovalSet_Add [''secret''] (RemovalSet_Add [''token''] (RemovalSet_Add [''password''] (NewRemovalSet []))))),
           Some (WithContextKeys [''request_id'', ''trace_id''])])"

section \<open>Maskers\<close>

lemma Split_ne [simp]: "Split c s \<noteq> []"
  by (induction s) (auto split: list.splits)

lemma Split_length: "length (Split c s) = Suc (count_list s c)"
proof (induction s)
  case (Cons x s)
  then show ?case by (cases "Split c s") auto
qed simp

lemma Split_none: "c \<notin> set u \<Longrightarrow> Split c u = [u]"
  by (induction u) auto

lemma Split_append: "c \<notin> set u \<Longrightarrow> Split c (u @ c # s) = u # Split c s"
  by (induction u) auto

lemma Split_pair: "Split c s = [u, d] \<longleftrightarrow> s = u @ c # d \<and> c \<notin> set u \<and> c \<notin> set d"
proof
  assume split: "Split c s = [u, d]"
  then have "count_list s c = 1" using Split_length [of c s] by simp
  then have "c \<in> set s" by (metis count_notin zero_neq_one)
  then obtain v e where s: "s = v @ c # e" "c \<notin> set v" by (metis split_list_first)
  with split have "v = u" "Split c e = [d]" by (auto simp: Split_append)
  moreover from this Split_length [of c e] have "c \<notin> set e" by (simp add: count_list_0_iff)
  ultimately show "s = u @ c # d \<and> c \<notin> set u \<and> c \<notin> set d" using s by (auto simp: Split_none)
qed (simp add: Split_append Split_none)

lemma maskEmail_address:
  assumes "CHR ''@'' \<notin> set user" and "CHR ''@'' \<notin> set domain"
  shows "maskEmail (user @ CHR ''@'' # domain) =
    (if user = '''' then None
     else if length user \<le> 2 then Some (take 1 user @ ''***@'' @ domain)
     else Some (take 2 user @ ''***'' @ [last user] @ ''@'' @ domain))"
proof -
  have "drop (length user - Suc 0) user = [last user]" if "user \<noteq> []"
    using that by (metis One_nat_def append_butlast_last_id append_eq_conv_conj length_butlast)
  moreover have "Suc 0 \<le> length user \<longleftrightarrow> user \<noteq> []" by (cases user) auto
  ultimately show ?thesis
    using assms by (auto simp: maskEmail_def Split_append Split_none slice_to_def slice_last_def)
qed

lemma maskEmail_panics: "maskEmail s = None \<longleftrightarrow> (\<exists>domain. s = CHR ''@'' # domain \<and> CHR ''@'' \<notin> set domain)"
proof
  assume none: "maskEmail s = None"
  then obtain u d where "Split (CHR ''@'') s = [u, d]"
    by (auto simp: maskEmail_def split: list.splits)
  then have s: "s = u @ CHR ''@'' # d" "CHR ''@'' \<notin> set u" "CHR ''@'' \<notin> set d" by (simp_all add: Split_pair)
  with none maskEmail_address [OF s(2,3)] have "u = ''''" by (auto split: if_splits)
  with s show "\<exists>domain. s = CHR ''@'' # domain \<and> CHR ''@'' \<notin> set domain" by simp
next
  assume "\<exists>domain. s = CHR ''@'' # domain \<and> CHR ''@'' \<notin> set domain"
  with maskEmail_address [of "[]"] show "maskEmail s = None" by force
qed

section \<open>What is written\<close>

text \<open>The leaves of attributes, with the groups they stand in.\<close>

fun flat1 :: "string list \<Rightarrow> attr \<Rightarrow> leaf list"
  and flat :: "string list \<Rightarrow> attr list \<Rightarrow> leaf list" where
  "flat1 gs (Attr key (GroupValue as)) = flat (if key = '''' then gs else gs @ [key]) as"
| "flat1 gs (Attr key v) = [(gs, key, v)]"
| "flat gs [] = []"
| "flat gs (a # as) = flat1 gs a @ flat gs as"

definition shown :: "(attr \<Rightarrow> attr) \<Rightarrow> leaf \<Rightarrow> leaf option" where
  "shown f l = (case l of (gs, k, v) \<Rightarrow>
     case f (Attr k v) of Attr key u \<Rightarrow> if key = '''' \<and> u = ZeroValue then None else Some (gs, key, u))"

lemma map_filter_append: "List.map_filter f (xs @ ys) = List.map_filter f xs @ List.map_filter f ys"
  by (simp add: List.map_filter_def)

lemma append_shown:
  "(\<And>a. rep a = Some (f a)) \<Longrightarrow> appendAttr rep gs a = Some (List.map_filter (shown f) (flat1 gs a))"
  "(\<And>a. rep a = Some (f a)) \<Longrightarrow> appendAttrs rep gs as = Some (List.map_filter (shown f) (flat gs as))"
  by (induction rep gs a and rep gs as rule: appendAttr_appendAttrs.induct)
    (auto simp: shown_def joined_def map_filter_append List.map_filter_def split: attr.splits)

lemma flat_append: "flat gs (as @ bs) = flat gs as @ flat gs bs"
  by (induction as) auto

lemma run_groups:
  "(\<And>a. rep a = Some (f a)) \<Longrightarrow>
   run_ops rep gs (map OpGroup hs @ ops) as = run_ops rep (gs @ hs) ops as"
  by (induction hs arbitrary: gs) auto

lemma run_built:
  assumes "\<And>a. rep a = Some (f a)"
  shows "run_ops rep [] ((if as \<noteq> [] then [OpAttrs as] else []) @ map OpGroup gs @ (if cs \<noteq> [] then [OpAttrs cs] else [])) bs =
    Some (List.map_filter (shown f) (flat [] as @ flat gs (cs @ bs)))"
  using append_shown(2) [OF assms] run_groups [OF assms, where gs = "[]" and hs = gs]
  by (auto simp: joined_def flat_append map_filter_append List.map_filter_def)

text \<open>What the logger of the service shows of a leaf: nothing under the three sensitive keys.\<close>

definition visible :: "leaf \<Rightarrow> leaf option" where
  "visible l = (case l of (gs, k, v) \<Rightarrow>
     if k \<in> {''password'', ''token'', ''secret''} \<or> k = '''' \<and> v = ZeroValue then None
     else Some (gs, k,
       case (k = ''level'', v) of (True, LevelValue n) \<Rightarrow> StringValue (getLevelName n defaultLevelNames) | _ \<Rightarrow> v))"

definition service_config :: "string \<Rightarrow> Config" where
  "service_config env =
     defaultOptions\<lparr>lc_Format := (if env = ''prod'' then FormatJSON else FormatText),
       lc_Level := (if env = ''prod'' then LevelInfo else LevelDebug),
       lc_RemoveKeys := [''password'' \<mapsto> (), ''token'' \<mapsto> (), ''secret'' \<mapsto> ()],
       lc_ContextKeys := [''request_id'', ''trace_id'']\<rparr>"

lemma logger_New_config:
  "fst (logger_New env) = \<lparr>ls_configs = [service_config env], ls_cfg = 0\<rparr>"
  by (simp add: logger_New_def slogx_New_def WithOutput_def WithFormat_def WithLevel_def WithRemoval_def RemovalSet_Add_def RemovalSet_Keys_def NewRemovalSet_def
      WithContextKeys_def service_config_def defaultOptions_def Let_def)

lemma service_replace: "\<exists>f. getReplaceAttr (service_config env) = (\<lambda>a. Some (f a)) \<and> shown f = visible"
proof -
  let ?f = "\<lambda>a. the (getReplaceAttr (service_config env) a)"
  have some: "getReplaceAttr (service_config env) a \<noteq> None" for a
    by (cases a) (auto simp: getReplaceAttr_def service_config_def defaultOptions_def split: logvalue.splits)
  have "shown ?f l = visible l" for l
    by (cases l) (auto simp: shown_def visible_def getReplaceAttr_def service_config_def defaultOptions_def split: logvalue.splits)
  with some show ?thesis by (intro exI [of _ ?f]) auto
qed

section \<open>The cached handler\<close>

definition cache_ok :: "log_state \<Rightarrow> DynamicHandler \<Rightarrow> bool" where
  "cache_ok st h \<longleftrightarrow> ls_cfg st < length (ls_configs st) \<and>
     (\<forall>i b. dh_cachedConfigVersion h = Some i \<longrightarrow> dh_cachedHandler h = Some b \<longrightarrow>
        i < length (ls_configs st) \<and> b = build_handler (ls_configs st ! i) (dh_attrs h) (dh_groups h))"

inductive log_reach :: "log_state \<Rightarrow> DynamicHandler \<Rightarrow> bool" where
  log_new: "slogx_New opts = (st, h) \<Longrightarrow> log_reach st h"
| log_handle: "log_reach st h \<Longrightarrow> log_reach st (snd (Handle st ctx r h))"
| log_update: "log_reach st h \<Longrightarrow> log_reach (UpdateConfig fn st) h"
| log_attrs: "log_reach st h \<Longrightarrow> log_reach st (WithAttrs as h)"
| log_group: "log_reach st h \<Longrightarrow> log_reach st (WithGroup g h)"

lemma build_current:
  assumes "cache_ok st h"
  shows "fst (getOrBuildCachedHandler st h) = build_handler (Load st) (dh_attrs h) (dh_groups h)"
    and "cache_ok st (snd (getOrBuildCachedHandler st h))"
  using assms
  by (auto simp: getOrBuildCachedHandler_def cache_ok_def Load_def Let_def split: option.splits bool.splits)

lemma log_reach_ok: "log_reach st h \<Longrightarrow> cache_ok st h"
proof (induction rule: log_reach.induct)
  case (log_new opts st h)
  then show ?case by (auto simp: slogx_New_def cache_ok_def)
next
  case (log_handle st h ctx r)
  then show ?case using build_current(2) by (simp add: Handle_def Let_def case_prod_unfold)
next
  case (log_update st h fn)
  then show ?case by (fastforce simp: cache_ok_def UpdateConfig_def nth_append)
next
  case (log_attrs st h as)
  then show ?case by (simp add: cache_ok_def WithAttrs_def)
next
  case (log_group st h g)
  then show ?case by (simp add: cache_ok_def WithGroup_def)
qed

text \<open>What a handler of the logger of the service writes.\<close>

lemma service_handle:
  assumes "h = \<lparr>dh_attrs = as, dh_groups = gs, dh_cachedHandler = None, dh_cachedConfigVersion = None\<rparr>"
  shows "fst (Handle (fst (logger_New env)) ctx r h) =
    Some (if env = ''prod'' then FormatJSON else FormatText, ''stdout'',
      List.map_filter visible
        (flat [] (builtins r @ as) @ flat gs (context_attrs ctx [''request_id'', ''trace_id''] @ lr_Attrs r)))"
proof -
  let ?rep = "getReplaceAttr (service_config env)" and ?c = "context_attrs ctx [''request_id'', ''trace_id'']"
  obtain f where f: "?rep = (\<lambda>a. Some (f a))" "shown f = visible" using service_replace by blast
  have cfg: "lc_Format (service_config env) = (if env = ''prod'' then FormatJSON else FormatText)"
    "lc_Output (service_config env) = ''stdout''" "lc_ContextKeys (service_config env) = [''request_id'', ''trace_id'']"
    by (simp_all add: service_config_def defaultOptions_def)
  have "fst (Handle (fst (logger_New env)) ctx r h) =
      slog_Handle \<lparr>sh_Format = lc_Format (service_config env), sh_Output = ''stdout'', sh_Replace = ?rep,
        sh_ops = (if as \<noteq> [] then [OpAttrs as] else []) @ map OpGroup gs @ (if ?c \<noteq> [] then [OpAttrs ?c] else [])\<rparr> r"
    by (simp add: Handle_def getOrBuildCachedHandler_def logger_New_config Load_def build_handler_def assms cfg Let_def)
  also have "\<dots> = Some (lc_Format (service_config env), ''stdout'',
      List.map_filter visible (flat [] (builtins r @ as) @ flat gs (?c @ lr_Attrs r)))"
    unfolding slog_Handle_def using append_shown(2) [of ?rep f] run_built [of ?rep f] f
    by (simp add: joined_def flat_append map_filter_append)
  finally show ?thesis by (simp add: cfg)
qed

section \<open>Properties\<close>



text \<open>The cached handler is never stale: however configurations were changed and handlers derived, a
  record is written exactly as a handler built from the current configuration writes it.\<close>

theorem cached_handler_current:
  assumes "log_reach st h"
  shows "fst (Handle st ctx r h) = fst (Handle st ctx r (h\<lparr>dh_cachedHandler := None, dh_cachedConfigVersion := None\<rparr>))"
  using build_current(1) [OF log_reach_ok [OF assms]]
  by (simp add: Handle_def Let_def case_prod_unfold getOrBuildCachedHandler_def [of st "h\<lparr>dh_cachedHandler := None, dh_cachedConfigVersion := None\<rparr>"])

definition ex_log :: log_record where
  "ex_log = \<lparr>lr_Time = None, lr_Level = LevelInfo, lr_Message = ''m'', lr_Attrs = [Attr ''user'' (StringValue ''alice@x'')]\<rparr>"

lemma cached_handler_current_witness:
  "map_option (snd \<circ> snd) (fst (Handle (UpdateConfig (WithMaskKey ''user'' MaskEmail) (fst (slogx_New []))) (\<lambda>_. None) ex_log
      (snd (Handle (fst (slogx_New [])) (\<lambda>_. None) ex_log (snd (slogx_New [])))))) =
   Some [([], ''level'', StringValue ''INFO''), ([], ''msg'', StringValue ''m''), ([], ''user'', StringValue ''al***e@x'')]"
proof -
  have "log_reach (UpdateConfig (WithMaskKey ''user'' MaskEmail) (fst (slogx_New [])))
      (snd (Handle (fst (slogx_New [])) (\<lambda>_. None) ex_log (snd (slogx_New []))))"
    by (intro log_update log_handle log_new [of "[]"]) simp
  from cached_handler_current [OF this, of "\<lambda>_. None" ex_log] show ?thesis by (simp only:) code_simp
qed

text \<open>Masking never reveals more than the kept ends: secrets and unclassified values become a constant,
  phone numbers of at least eight bytes keep the first four and last three, card numbers the
  first and last four; an address keeps its domain and up to three bytes of a longer name.  It
  panics exactly for an address with an empty name.\<close>

theorem mask_exact:
  "DefaultMasker_Mask v MaskSecret = Some ''[SECRET]'' \<and> DefaultMasker_Mask v MaskDefault = Some ''[MASKED]'' \<and>
   maskPhone s = Some (if length s < 8 then ''***'' else take 4 s @ ''*******'' @ drop (length s - 3) s) \<and>
   maskCard s = Some (let d = filter (\<lambda>c. c \<noteq> CHR '' '') s in
     if length d < 12 then ''**** **** ****'' else take 4 d @ '' **** **** '' @ drop (length d - 4) d) \<and>
   (DefaultMasker_Mask v m = None \<longleftrightarrow>
      m = MaskEmail \<and> (\<exists>domain. value_text v = CHR ''@'' # domain \<and> CHR ''@'' \<notin> set domain))"
proof (intro conjI)
  show phone: "maskPhone s = Some (if length s < 8 then ''***'' else take 4 s @ ''*******'' @ drop (length s - 3) s)" for s
    by (simp add: maskPhone_def slice_to_def slice_last_def)
  show card: "maskCard s = Some (let d = filter (\<lambda>c. c \<noteq> CHR '' '') s in
     if length d < 12 then ''**** **** ****'' else take 4 d @ '' **** **** '' @ drop (length d - 4) d)" for s
    by (simp add: maskCard_def slice_to_def slice_last_def Let_def)
  show "DefaultMasker_Mask v m = None \<longleftrightarrow>
      m = MaskEmail \<and> (\<exists>domain. value_text v = CHR ''@'' # domain \<and> CHR ''@'' \<notin> set domain)"
    using maskEmail_panics phone card by (cases m) (simp_all add: DefaultMasker_Mask_def Let_def)
qed (simp_all add: DefaultMasker_Mask_def)

text \<open>Adding attributes after opening a group does not put them into the group, unlike in the standard
  handlers: the order of \<open>WithGroup\<close> and \<open>WithAttrs\<close> makes no difference, and the attribute is
  written outside.\<close>

theorem attrs_escape_group:
  "WithAttrs as (WithGroup g h) = WithGroup g (WithAttrs as h) \<and>
   map_option (snd \<circ> snd) (fst (Handle (fst (slogx_New [])) (\<lambda>_. None) ex_log
     (WithAttrs [Attr ''id'' (StringValue ''7'')] (WithGroup ''req'' (snd (slogx_New [])))))) =
   Some [([], ''level'', StringValue ''INFO''), ([], ''msg'', StringValue ''m''), ([], ''id'', StringValue ''7''),
     ([''req''], ''user'', StringValue ''alice@x'')] \<and>
   run_ops Some [] [OpGroup ''req'', OpAttrs [Attr ''id'' (StringValue ''7'')]] (lr_Attrs ex_log) =
   Some [([''req''], ''id'', StringValue ''7''), ([''req''], ''user'', StringValue ''alice@x'')]"
proof (intro conjI)
  show "WithAttrs as (WithGroup g h) = WithGroup g (WithAttrs as h)" by (simp add: WithAttrs_def WithGroup_def)
qed code_simp+

end
