(* ===== verification/Json.thy ===== *)
theory Json
  imports Api_Server Slogx
begin

text \<open>
  The JSON bodies of the API: how \<open>encoding/json\<close> reads a request into the structs of
  \<open>internal/handler/api/v1/api.gen.go\<close> and writes the response structs, by their field tags.  Reading a text into
  a tree, the texts of its errors, and the formats of UUIDs, dates, addresses and instants are
  parameters; keys are ASCII.
\<close>

section \<open>Trees\<close>

datatype json = JNull | JBool bool | JNumber string | JString string | JArray "json list" | JObject "(string \<times> json) list"

text \<open>
  \<open>jl_Parse\<close> reads the first value of a text, \<open>jl_Mismatch\<close> is the error of a value that does
  not fit the type of a field, given the struct and the field's name (or none, for the struct itself).  \<open>jl_UUID\<close> is \<open>UnmarshalText\<close> of a UUID; \<open>jl_Email\<close> and \<open>jl_Date\<close> are the
  \<open>UnmarshalJSON\<close> methods of \<open>openapi_types.Email\<close> and \<open>openapi_types.Date\<close>; \<open>jl_Time\<close> formats an instant.
\<close>

record json_lib =
  jl_Parse :: "bytes \<Rightarrow> err + json"
  jl_Mismatch :: "string \<Rightarrow> string \<Rightarrow> json \<Rightarrow> err"
  jl_UUID :: "string \<Rightarrow> err + uuid"
  jl_Email :: "json \<Rightarrow> err + string"
  jl_Date :: "json \<Rightarrow> err + time"
  jl_UUIDText :: "uuid \<Rightarrow> string"
  jl_Time :: "time \<Rightarrow> string"

section \<open>Reading an object into a struct\<close>

text \<open>
  Reading a member sets its field, finds a value of another type, or fails in a method of the
  field's own type.
\<close>

datatype 'r field_result = FieldSet 'r | FieldMismatch | FieldFail err

text \<open>
  A struct is read member by member, in the order of the text: the field with that name, or
  else one that differs only in case, is set; a member without a field is skipped.  The first value of another
  type is remembered while reading goes on, and is the error at the end; a failing method ends the reading.
  \<open>null\<close> and members that are missing leave a field as it was, except
  that \<open>null\<close> empties a pointer; \<open>null\<close> instead of the object changes nothing.
\<close>

type_synonym 'r field_table = "(string \<times> (json \<Rightarrow> 'r \<Rightarrow> 'r field_result)) list"

definition fold_name :: "string \<Rightarrow> string" where
  "fold_name = map lower_char"

definition field_of :: "'r field_table \<Rightarrow> string \<Rightarrow> (string \<times> (json \<Rightarrow> 'r \<Rightarrow> 'r field_result)) option" where
  "field_of fs k =
     (case map_of fs k of
        Some f \<Rightarrow> Some (k, f)
      | None \<Rightarrow> List.find (\<lambda>(n, f). fold_name n = fold_name k) fs)"

fun read_members ::
  "json_lib \<Rightarrow> string \<Rightarrow> 'r field_table \<Rightarrow> (string \<times> json) list \<Rightarrow> err option \<Rightarrow> 'r \<Rightarrow> err + 'r" where
  "read_members jl tp fs [] saved r = (case saved of None \<Rightarrow> Inr r | Some e \<Rightarrow> Inl e)"
| "read_members jl tp fs ((k, v) # kvs) saved r =
     (case field_of fs k of
        None \<Rightarrow> read_members jl tp fs kvs saved r
      | Some (n, f) \<Rightarrow>
          (case f v r of
             FieldSet r' \<Rightarrow> read_members jl tp fs kvs saved r'
           | FieldMismatch \<Rightarrow>
               read_members jl tp fs kvs (Some (case saved of None \<Rightarrow> jl_Mismatch jl tp n v | Some e \<Rightarrow> e)) r
           | FieldFail e \<Rightarrow> Inl e))"

definition read_struct :: "json_lib \<Rightarrow> string \<Rightarrow> 'r field_table \<Rightarrow> 'r \<Rightarrow> json \<Rightarrow> err + 'r" where
  "read_struct jl tp fs zero j =
     (case j of
        JObject kvs \<Rightarrow> read_members jl tp fs kvs None zero
      | JNull \<Rightarrow> Inr zero
      | _ \<Rightarrow> Inl (jl_Mismatch jl tp '''' j))"

definition set_string :: "(string \<Rightarrow> 'r \<Rightarrow> 'r) \<Rightarrow> json \<Rightarrow> 'r \<Rightarrow> 'r field_result" where
  "set_string upd j r =
     (case j of JString s \<Rightarrow> FieldSet (upd s r) | JNull \<Rightarrow> FieldSet r | _ \<Rightarrow> FieldMismatch)"

definition method_set :: "('a \<Rightarrow> 'r) \<Rightarrow> err + 'a \<Rightarrow> 'r field_result" where
  "method_set upd x = (case x of Inl e \<Rightarrow> FieldFail e | Inr y \<Rightarrow> FieldSet (upd y))"

definition set_uuid :: "json_lib \<Rightarrow> (uuid \<Rightarrow> 'r \<Rightarrow> 'r) \<Rightarrow> json \<Rightarrow> 'r \<Rightarrow> 'r field_result" where
  "set_uuid jl upd j r =
     (case j of
        JString s \<Rightarrow> method_set (\<lambda>u. upd u r) (jl_UUID jl s)
      | JNull \<Rightarrow> FieldSet r
      | _ \<Rightarrow> FieldMismatch)"

definition set_email :: "json_lib \<Rightarrow> (string \<Rightarrow> 'r \<Rightarrow> 'r) \<Rightarrow> json \<Rightarrow> 'r \<Rightarrow> 'r field_result" where
  "set_email jl upd j r = method_set (\<lambda>s. upd s r) (jl_Email jl j)"

text \<open>Pointer fields.\<close>

definition set_string_ptr :: "(string option \<Rightarrow> 'r \<Rightarrow> 'r) \<Rightarrow> json \<Rightarrow> 'r \<Rightarrow> 'r field_result" where
  "set_string_ptr upd j r =
     (case j of JString s \<Rightarrow> FieldSet (upd (Some s) r) | JNull \<Rightarrow> FieldSet (upd None r) | _ \<Rightarrow> FieldMismatch)"

definition set_uuid_ptr :: "json_lib \<Rightarrow> (uuid option \<Rightarrow> 'r \<Rightarrow> 'r) \<Rightarrow> json \<Rightarrow> 'r \<Rightarrow> 'r field_result" where
  "set_uuid_ptr jl upd j r =
     (case j of
        JString s \<Rightarrow> method_set (\<lambda>u. upd (Some u) r) (jl_UUID jl s)
      | JNull \<Rightarrow> FieldSet (upd None r)
      | _ \<Rightarrow> FieldMismatch)"

definition set_date_ptr :: "json_lib \<Rightarrow> (time option \<Rightarrow> 'r \<Rightarrow> 'r) \<Rightarrow> json \<Rightarrow> 'r \<Rightarrow> 'r field_result" where
  "set_date_ptr jl upd j r =
     (case j of JNull \<Rightarrow> FieldSet (upd None r) | _ \<Rightarrow> method_set (\<lambda>t. upd (Some t) r) (jl_Date jl j))"

section \<open>The request bodies\<close>

definition zero_uuid :: uuid where
  "zero_uuid = uuid_copy []"

definition read_LoginRequest :: "json_lib \<Rightarrow> json \<Rightarrow> err + LoginRequest" where
  "read_LoginRequest jl =
     read_struct jl ''LoginRequest''
       [(''email'', set_email jl (\<lambda>s r. r\<lparr>lrq_Email := s\<rparr>)),
        (''password'', set_string (\<lambda>s r. r\<lparr>lrq_Password := s\<rparr>))]
       \<lparr>lrq_Email = '''', lrq_Password = ''''\<rparr>"

definition read_RegisterRequest :: "json_lib \<Rightarrow> json \<Rightarrow> err + RegisterRequest" where
  "read_RegisterRequest jl =
     read_struct jl ''RegisterRequest''
       [(''email'', set_email jl (\<lambda>s r. r\<lparr>rrq_Email := s\<rparr>)),
        (''name'', set_string (\<lambda>s r. r\<lparr>rrq_Name := s\<rparr>)),
        (''password'', set_string (\<lambda>s r. r\<lparr>rrq_Password := s\<rparr>))]
       \<lparr>rrq_Email = '''', rrq_Name = '''', rrq_Password = ''''\<rparr>"

definition read_CreateTeamRequest :: "json_lib \<Rightarrow> json \<Rightarrow> err + CreateTeamRequest" where
  "read_CreateTeamRequest jl =
     read_struct jl ''CreateTeamRequest'' [(''name'', set_string (\<lambda>s r. r\<lparr>ctr_Name := s\<rparr>))] \<lparr>ctr_Name = ''''\<rparr>"

definition read_InviteRequest :: "json_lib \<Rightarrow> json \<Rightarrow> err + InviteRequest" where
  "read_InviteRequest jl =
     read_struct jl ''InviteRequest'' [(''user_id'', set_uuid jl (\<lambda>u r. r\<lparr>ivr_UserId := u\<rparr>))] \<lparr>ivr_UserId = zero_uuid\<rparr>"

definition read_AddCommentRequest :: "json_lib \<Rightarrow> json \<Rightarrow> err + AddCommentRequest" where
  "read_AddCommentRequest jl =
     read_struct jl ''AddCommentRequest'' [(''body'', set_string (\<lambda>s r. r\<lparr>acr_Body := s\<rparr>))] \<lparr>acr_Body = ''''\<rparr>"

definition read_CreateTaskRequest :: "json_lib \<Rightarrow> json \<Rightarrow> err + CreateTaskRequest" where
  "read_CreateTaskRequest jl =
     read_struct jl ''CreateTaskRequest''
       [(''assignee_id'', set_uuid_ptr jl (\<lambda>x r. r\<lparr>ctr_AssigneeId := x\<rparr>)),
        (''description'', set_string_ptr (\<lambda>x r. r\<lparr>ctr_Description := x\<rparr>)),
        (''due_date'', set_date_ptr jl (\<lambda>x r. r\<lparr>ctr_DueDate := x\<rparr>)),
        (''priority'', set_string_ptr (\<lambda>x r. r\<lparr>ctr_Priority := x\<rparr>)),
        (''team_id'', set_uuid jl (\<lambda>u r. r\<lparr>ctr_TeamId := u\<rparr>)),
        (''title'', set_string (\<lambda>s r. r\<lparr>ctr_Title := s\<rparr>))]
       \<lparr>ctr_AssigneeId = None, ctr_Description = None, ctr_DueDate = None, ctr_Priority = None,
        ctr_TeamId = zero_uuid, ctr_Title = ''''\<rparr>"

definition update_fields :: "json_lib \<Rightarrow> UpdateTaskRequest field_table" where
  "update_fields jl =
     [(''assignee_id'', set_uuid_ptr jl (\<lambda>x r. r\<lparr>utr_AssigneeId := x\<rparr>)),
      (''description'', set_string_ptr (\<lambda>x r. r\<lparr>utr_Description := x\<rparr>)),
      (''due_date'', set_date_ptr jl (\<lambda>x r. r\<lparr>utr_DueDate := x\<rparr>)),
      (''priority'', set_string_ptr (\<lambda>x r. r\<lparr>utr_Priority := x\<rparr>)),
      (''status'', set_string_ptr (\<lambda>x r. r\<lparr>utr_Status := x\<rparr>)),
      (''title'', set_string_ptr (\<lambda>x r. r\<lparr>utr_Title := x\<rparr>))]"

definition no_update :: UpdateTaskRequest where
  "no_update =
     \<lparr>utr_AssigneeId = None, utr_Description = None, utr_DueDate = None, utr_Priority = None,
      utr_Status = None, utr_Title = None\<rparr>"

definition read_UpdateTaskRequest :: "json_lib \<Rightarrow> json \<Rightarrow> err + UpdateTaskRequest" where
  "read_UpdateTaskRequest jl = read_struct jl ''UpdateTaskRequest'' (update_fields jl) no_update"

text \<open>\<open>json.NewDecoder(r.Body).Decode(&body)\<close> of the strict handlers.\<close>

definition json_api :: "json_lib \<Rightarrow> api_lib \<Rightarrow> api_lib" where
  "json_api jl lib =
     lib\<lparr>al_LoginRequest := (\<lambda>b. and_then (jl_Parse jl b) (read_LoginRequest jl)),
         al_RegisterRequest := (\<lambda>b. and_then (jl_Parse jl b) (read_RegisterRequest jl)),
         al_CreateTaskRequest := (\<lambda>b. and_then (jl_Parse jl b) (read_CreateTaskRequest jl)),
         al_UpdateTaskRequest := (\<lambda>b. and_then (jl_Parse jl b) (read_UpdateTaskRequest jl)),
         al_AddCommentRequest := (\<lambda>b. and_then (jl_Parse jl b) (read_AddCommentRequest jl)),
         al_CreateTeamRequest := (\<lambda>b. and_then (jl_Parse jl b) (read_CreateTeamRequest jl)),
         al_InviteRequest := (\<lambda>b. and_then (jl_Parse jl b) (read_InviteRequest jl))\<rparr>"

section \<open>The response bodies\<close>

definition json_uuid :: "json_lib \<Rightarrow> uuid \<Rightarrow> json" where
  "json_uuid jl u = JString (jl_UUIDText jl u)"

definition json_ptr :: "('a \<Rightarrow> json) \<Rightarrow> 'a option \<Rightarrow> json" where
  "json_ptr f x = (case x of None \<Rightarrow> JNull | Some y \<Rightarrow> f y)"

definition json_date :: "time \<Rightarrow> json" where
  "json_date t = JString (Format_date t)"

definition json_int :: "int \<Rightarrow> json" where
  "json_int n = JNumber (fmt_d n)"

definition write_Task :: "json_lib \<Rightarrow> api_task \<Rightarrow> json" where
  "write_Task jl t =
     JObject
       [(''assignee_id'', json_ptr (json_uuid jl) (at_AssigneeId t)),
        (''created_at'', JString (jl_Time jl (at_CreatedAt t))),
        (''created_by'', json_uuid jl (at_CreatedBy t)),
        (''description'', json_ptr JString (at_Description t)),
        (''due_date'', json_ptr json_date (at_DueDate t)),
        (''id'', json_uuid jl (at_Id t)),
        (''priority'', JString (at_Priority t)),
        (''status'', JString (at_Status t)),
        (''team_id'', json_uuid jl (at_TeamId t)),
        (''title'', JString (at_Title t)),
        (''updated_at'', JString (jl_Time jl (at_UpdatedAt t)))]"

definition write_TaskHistory :: "json_lib \<Rightarrow> api_history \<Rightarrow> json" where
  "write_TaskHistory jl h =
     JObject
       [(''changed_at'', JString (jl_Time jl (ah_ChangedAt h))),
        (''changed_by'', json_uuid jl (ah_ChangedBy h)),
        (''field'', JString (ah_Field h)),
        (''id'', json_int (ah_Id h)),
        (''new_value'', json_ptr JString (ah_NewValue h)),
        (''old_value'', json_ptr JString (ah_OldValue h)),
        (''task_id'', json_uuid jl (ah_TaskId h))]"

definition write_Team :: "json_lib \<Rightarrow> api_team \<Rightarrow> json" where
  "write_Team jl t =
     JObject
       [(''created_at'', JString (jl_Time jl (am_CreatedAt t))),
        (''created_by'', json_uuid jl (am_CreatedBy t)),
        (''id'', json_uuid jl (am_Id t)),
        (''name'', JString (am_Name t))]"

definition write_Comment :: "json_lib \<Rightarrow> api_comment \<Rightarrow> json" where
  "write_Comment jl c =
     JObject
       [(''body'', JString (ac_Body c)),
        (''created_at'', JString (jl_Time jl (ac_CreatedAt c))),
        (''id'', json_int (ac_Id c)),
        (''task_id'', json_uuid jl (ac_TaskId c)),
        (''user_id'', json_uuid jl (ac_UserId c))]"

definition write_TeamSummary :: "json_lib \<Rightarrow> api_summary \<Rightarrow> json" where
  "write_TeamSummary jl s =
     JObject
       [(''done_last_7_days'', json_int (int (as_DoneLast7Days s))),
        (''member_count'', json_int (int (as_MemberCount s))),
        (''name'', JString (as_Name s)),
        (''team_id'', json_uuid jl (as_TeamId s))]"

definition write_TopContributor :: "json_lib \<Rightarrow> api_contributor \<Rightarrow> json" where
  "write_TopContributor jl c =
     JObject
       [(''rank_in_team'', json_int (int (aco_RankInTeam c))),
        (''task_count'', json_int (int (aco_TaskCount c))),
        (''team_id'', json_uuid jl (aco_TeamId c)),
        (''user_id'', json_uuid jl (aco_UserId c))]"

definition write_OrphanTask :: "json_lib \<Rightarrow> api_orphan \<Rightarrow> json" where
  "write_OrphanTask jl t =
     JObject
       [(''assignee_id'', json_uuid jl (ao_AssigneeId t)),
        (''id'', json_uuid jl (ao_Id t)),
        (''team_id'', json_uuid jl (ao_TeamId t)),
        (''title'', JString (ao_Title t))]"

text \<open>The body of an answer, where it is JSON.\<close>

fun write_body :: "json_lib \<Rightarrow> api_body \<Rightarrow> json option" where
  "write_body jl BodyNone = None"
| "write_body jl (BodyText s) = None"
| "write_body jl (BodyError e) = Some (JObject [(''message'', JString (aer_Message e))])"
| "write_body jl (BodyToken r) = Some (JObject [(''token'', JString (lgr_Token r))])"
| "write_body jl (BodyTask t) = Some (write_Task jl t)"
| "write_body jl (BodyTaskList r) =
     Some (JObject
       [(''limit'', json_int (sint (tlr_Limit r))), (''page'', json_int (sint (tlr_Page r))),
        (''tasks'', JArray (map (write_Task jl) (tlr_Tasks r))), (''total'', json_int (int (tlr_Total r)))])"
| "write_body jl (BodyHistory r) = Some (JObject [(''history'', JArray (map (write_TaskHistory jl) (thr_History r)))])"
| "write_body jl (BodyTeam t) = Some (write_Team jl t)"
| "write_body jl (BodyTeams r) = Some (JObject [(''teams'', JArray (map (write_Team jl) (ltr_Teams r)))])"
| "write_body jl (BodyComment c) = Some (write_Comment jl c)"
| "write_body jl (BodyComments cs) = Some (JArray (map (write_Comment jl) cs))"
| "write_body jl (BodySummaries ss) = Some (JArray (map (write_TeamSummary jl) ss))"
| "write_body jl (BodyContributors cs) = Some (JArray (map (write_TopContributor jl) cs))"
| "write_body jl (BodyOrphans ts) = Some (JArray (map (write_OrphanTask jl) ts))"

end
