(* ===== verification/Seed.thy ===== *)
theory Seed
  imports Go_Base
begin

text \<open>
  \<open>scripts/seed/main.go\<close>: the script that fills a running service with test data.  The HTTP
  client, and the decoders of JSON and base64, are parameters; the state is the list of the
  requests that were sent, and a call of \<open>log.Fatalf\<close> is an error value.  What the script
  prints is left out.
\<close>

section \<open>The client\<close>

record seed_request =
  sr_Method :: string
  sr_URL :: string
  sr_Authorization :: "string option"
  sr_Body :: "(string \<times> string) list option"

datatype seed_fatal =
    RegisterStatus string nat
  | BadStatus string string nat
  | BadResponse string string err
  | BadRequest err
  | NotSent string string err

text \<open>
  \<open>sl_NewRequest\<close> may refuse a URL; \<open>sl_Do\<close> answers the request of a given number.
\<close>

record seed_lib =
  sl_NewRequest :: "string \<Rightarrow> string \<Rightarrow> err option"
  sl_Do :: "nat \<Rightarrow> seed_request \<Rightarrow> err + nat \<times> bytes"
  sl_Token :: "bytes \<Rightarrow> err + string"
  sl_ID :: "bytes \<Rightarrow> err + string"
  sl_Base64 :: "string \<Rightarrow> err + bytes"
  sl_Claims :: "bytes \<Rightarrow> err + string option"

type_synonym 'a seed = "(seed_fatal, seed_request list, 'a) fallible"

abbreviation andThen :: "'a seed \<Rightarrow> ('a \<Rightarrow> 'b seed) \<Rightarrow> 'b seed" where
  "andThen \<equiv> try_or (\<lambda>e. e)"

definition execRequest ::
  "seed_lib \<Rightarrow> string \<Rightarrow> string \<Rightarrow> string \<Rightarrow> string \<Rightarrow> (string \<times> string) list option \<Rightarrow> (nat \<times> bytes) seed" where
  "execRequest lib baseURL meth path token body =
     (case sl_NewRequest lib meth (baseURL @ path) of
        Some e \<Rightarrow> State_Monad.return (Inl (BadRequest e))
      | None \<Rightarrow>
          (let req = \<lparr>sr_Method = meth, sr_URL = baseURL @ path,
             sr_Authorization = (if token \<noteq> '''' then Some (''Bearer '' @ token) else None), sr_Body = body\<rparr>
           in State (\<lambda>sent.
             (case sl_Do lib (length sent) req of Inl e \<Rightarrow> Inl (NotSent meth path e) | Inr r \<Rightarrow> Inr r, sent @ [req]))))"

text \<open>The status of an answer, and the decoded answer.\<close>

definition seed_do :: "seed_lib \<Rightarrow> string \<Rightarrow> string \<Rightarrow> string \<Rightarrow> string \<Rightarrow> (string \<times> string) list option \<Rightarrow> nat seed" where
  "seed_do lib baseURL meth path token body =
     andThen (execRequest lib baseURL meth path token body) (\<lambda>resp. State_Monad.return (Inr (fst resp)))"

definition doJSON ::
  "seed_lib \<Rightarrow> string \<Rightarrow> string \<Rightarrow> string \<Rightarrow> string \<Rightarrow> (string \<times> string) list option \<Rightarrow> (bytes \<Rightarrow> err + string) \<Rightarrow> string seed" where
  "doJSON lib baseURL meth path token body decode =
     andThen (execRequest lib baseURL meth path token body) (\<lambda>(code, raw).
       State_Monad.return (if 300 \<le> code then Inl (BadStatus meth path code)
         else case decode raw of Inl e \<Rightarrow> Inl (BadResponse meth path e) | Inr x \<Rightarrow> Inr x))"

section \<open>The calls\<close>

definition seed_register :: "seed_lib \<Rightarrow> string \<Rightarrow> string \<Rightarrow> string \<Rightarrow> string \<Rightarrow> unit seed" where
  "seed_register lib baseURL email name password =
     andThen (seed_do lib baseURL ''POST'' ''/register'' '''' (Some [(''email'', email), (''name'', name), (''password'', password)]))
       (\<lambda>code. State_Monad.return
         (if code \<noteq> 204 \<and> code \<noteq> 201 \<and> code \<noteq> 200 \<and> code \<noteq> 409 then Inl (RegisterStatus email code) else Inr ()))"

definition seed_login :: "seed_lib \<Rightarrow> string \<Rightarrow> string \<Rightarrow> string \<Rightarrow> string seed" where
  "seed_login lib baseURL email password =
     doJSON lib baseURL ''POST'' ''/login'' '''' (Some [(''email'', email), (''password'', password)]) (sl_Token lib)"

definition seed_createTeam :: "seed_lib \<Rightarrow> string \<Rightarrow> string \<Rightarrow> string \<Rightarrow> string seed" where
  "seed_createTeam lib baseURL token name =
     doJSON lib baseURL ''POST'' ''/teams'' token (Some [(''name'', name)]) (sl_ID lib)"

definition seed_invite :: "seed_lib \<Rightarrow> string \<Rightarrow> string \<Rightarrow> string \<Rightarrow> string \<Rightarrow> nat seed" where
  "seed_invite lib baseURL token teamID targetUserID =
     seed_do lib baseURL ''POST'' (''/teams/'' @ teamID @ ''/invite'') token (Some [(''user_id'', targetUserID)])"

definition seed_createTask ::
  "seed_lib \<Rightarrow> string \<Rightarrow> string \<Rightarrow> string \<Rightarrow> string \<Rightarrow> string \<Rightarrow> string \<Rightarrow> string \<Rightarrow> string seed" where
  "seed_createTask lib baseURL token teamID title desc priority dueDate =
     (let body = [(''team_id'', teamID), (''title'', title), (''priority'', priority), (''due_date'', dueDate)];
          body = (if desc \<noteq> '''' then body @ [(''description'', desc)] else body)
      in doJSON lib baseURL ''POST'' ''/tasks'' token (Some body) (sl_ID lib))"

definition seed_updateTask :: "seed_lib \<Rightarrow> string \<Rightarrow> string \<Rightarrow> string \<Rightarrow> (string \<times> string) list \<Rightarrow> nat seed" where
  "seed_updateTask lib baseURL token taskID changes =
     seed_do lib baseURL ''PUT'' (''/tasks/'' @ taskID) token (Some changes)"

definition seed_addComment :: "seed_lib \<Rightarrow> string \<Rightarrow> string \<Rightarrow> string \<Rightarrow> string \<Rightarrow> nat seed" where
  "seed_addComment lib baseURL token taskID body =
     seed_do lib baseURL ''POST'' (''/tasks/'' @ taskID @ ''/comments'') token (Some [(''body'', body)])"

text \<open>\<open>strings.SplitN\<close>, for a positive bound.\<close>

fun SplitN :: "char \<Rightarrow> nat \<Rightarrow> string \<Rightarrow> string list" where
  "SplitN c n [] = [[]]"
| "SplitN c n (x # s) =
     (if n \<le> 1 then [x # s]
      else if x = c then [] # SplitN c (n - 1) s
      else (case SplitN c n s of [] \<Rightarrow> [[x]] | w # ws \<Rightarrow> (x # w) # ws))"

definition jwtSub :: "seed_lib \<Rightarrow> string \<Rightarrow> string" where
  "jwtSub lib token =
     (let parts = SplitN (CHR ''.'') 3 token in
      if length parts \<noteq> 3 then ''''
      else case sl_Base64 lib (parts ! 1) of
        Inl _ \<Rightarrow> ''''
      | Inr b \<Rightarrow> (case sl_Claims lib b of Inr (Some sub) \<Rightarrow> sub | _ \<Rightarrow> ''''))"

section \<open>The script\<close>

definition keyStatus :: string where "keyStatus = ''status''"
definition keyDone :: string where "keyDone = ''done''"

text \<open>Users, teams and invitations; then the tasks, updates and comments of each team.\<close>

definition seed_people :: "seed_lib \<Rightarrow> string \<Rightarrow> (string \<times> string \<times> string) seed" where
  "seed_people lib baseURL =
     andThen (seed_register lib baseURL ''alice@example.com'' ''Alice'' ''secret123'') (\<lambda>_.
     andThen (seed_register lib baseURL ''bob@example.com'' ''Bob'' ''secret123'') (\<lambda>_.
     andThen (seed_register lib baseURL ''carol@example.com'' ''Carol'' ''secret123'') (\<lambda>_.
     andThen (seed_login lib baseURL ''alice@example.com'' ''secret123'') (\<lambda>aliceToken.
     andThen (seed_login lib baseURL ''bob@example.com'' ''secret123'') (\<lambda>bobToken.
     andThen (seed_login lib baseURL ''carol@example.com'' ''secret123'') (\<lambda>carolToken.
     State_Monad.return (Inr (aliceToken, bobToken, carolToken))))))))"

definition seed_teams :: "seed_lib \<Rightarrow> string \<Rightarrow> string \<Rightarrow> string \<Rightarrow> string \<Rightarrow> (string \<times> string) seed" where
  "seed_teams lib baseURL aliceToken bobToken carolToken =
     (let bobID = jwtSub lib bobToken; carolID = jwtSub lib carolToken in
      andThen (seed_createTeam lib baseURL aliceToken ''Backend Squad'') (\<lambda>backendID.
      andThen (seed_createTeam lib baseURL bobToken ''Frontend Guild'') (\<lambda>frontendID.
      andThen (seed_invite lib baseURL aliceToken backendID bobID) (\<lambda>_.
      andThen (seed_invite lib baseURL aliceToken backendID carolID) (\<lambda>_.
      andThen (seed_invite lib baseURL bobToken frontendID carolID) (\<lambda>_.
      State_Monad.return (Inr (backendID, frontendID))))))))"

definition seed_backend :: "seed_lib \<Rightarrow> string \<Rightarrow> string \<Rightarrow> string \<Rightarrow> string \<Rightarrow> string list seed" where
  "seed_backend lib baseURL aliceToken bobToken backendID =
     andThen (seed_createTask lib baseURL aliceToken backendID ''Set up CI pipeline'' ''Configure GitHub Actions for lint, test, build'' ''high'' ''2026-07-15'') (\<lambda>t1.
     andThen (seed_createTask lib baseURL aliceToken backendID ''Design auth schema'' ''Users, sessions, refresh tokens'' ''medium'' ''2026-07-10'') (\<lambda>t2.
     andThen (seed_createTask lib baseURL bobToken backendID ''Write API docs'' ''Document all v1 endpoints in OpenAPI'' ''low'' ''2026-08-01'') (\<lambda>t3.
     andThen (seed_updateTask lib baseURL aliceToken t1 [(keyStatus, ''in_progress'')]) (\<lambda>_.
     andThen (seed_updateTask lib baseURL aliceToken t2 [(keyStatus, keyDone)]) (\<lambda>_.
     andThen (seed_addComment lib baseURL aliceToken t1 ''Pipeline draft is ready, needs review.'') (\<lambda>_.
     andThen (seed_addComment lib baseURL bobToken t1 ''LGTM, merging once tests pass.'') (\<lambda>_.
     andThen (seed_addComment lib baseURL aliceToken t2 ''Went with UUIDs for user IDs.'') (\<lambda>_.
     State_Monad.return (Inr [t1, t2, t3])))))))))"

definition seed_frontend :: "seed_lib \<Rightarrow> string \<Rightarrow> string \<Rightarrow> string \<Rightarrow> string \<Rightarrow> string list seed" where
  "seed_frontend lib baseURL bobToken carolToken frontendID =
     andThen (seed_createTask lib baseURL bobToken frontendID ''Scaffold React app'' ''Vite + TypeScript + Tailwind'' ''high'' ''2026-07-05'') (\<lambda>t4.
     andThen (seed_createTask lib baseURL bobToken frontendID ''Login page UI'' ''Email + password form, error states'' ''medium'' ''2026-07-12'') (\<lambda>t5.
     andThen (seed_createTask lib baseURL carolToken frontendID ''Dark mode support'' '''' ''low'' ''2026-08-15'') (\<lambda>t6.
     andThen (seed_updateTask lib baseURL bobToken t4 [(keyStatus, keyDone)]) (\<lambda>_.
     andThen (seed_updateTask lib baseURL bobToken t5 [(keyStatus, ''in_progress''), (''priority'', ''high'')]) (\<lambda>_.
     andThen (seed_addComment lib baseURL carolToken t5 ''Designs are in Figma, link in Notion.'') (\<lambda>_.
     andThen (seed_addComment lib baseURL bobToken t6 ''Can we use prefers-color-scheme for this?'') (\<lambda>_.
     State_Monad.return (Inr [t4, t5, t6]))))))))"

definition seed_main :: "seed_lib \<Rightarrow> string \<Rightarrow> string list seed" where
  "seed_main lib baseURL =
     andThen (seed_people lib baseURL) (\<lambda>(aliceToken, bobToken, carolToken).
     andThen (seed_teams lib baseURL aliceToken bobToken carolToken) (\<lambda>(backendID, frontendID).
     andThen (seed_backend lib baseURL aliceToken bobToken backendID) (\<lambda>ts.
     andThen (seed_frontend lib baseURL bobToken carolToken frontendID) (\<lambda>us.
     State_Monad.return (Inr (ts @ us))))))"

section \<open>How the script ends\<close>

text \<open>
  The reason of a fatal error: the request that was sent last was not answered, answered with a
  status the script does not accept, or its answer has no token or identifier.
\<close>

definition fatal_reason :: "seed_lib \<Rightarrow> string \<Rightarrow> seed_fatal \<Rightarrow> seed_request list \<Rightarrow> bool" where
  "fatal_reason lib baseURL f s \<longleftrightarrow>
     (let answer = sl_Do lib (length s - 1) (last s); sent_to = (\<lambda>path. s \<noteq> [] \<and> sr_URL (last s) = baseURL @ path) in
      case f of
        RegisterStatus email code \<Rightarrow> sent_to ''/register'' \<and> code \<notin> {200, 201, 204, 409} \<and> (\<exists>raw. answer = Inr (code, raw))
      | BadStatus meth path code \<Rightarrow> sent_to path \<and> path \<in> {''/login'', ''/teams'', ''/tasks''} \<and> 300 \<le> code \<and> (\<exists>raw. answer = Inr (code, raw))
      | BadResponse meth path e \<Rightarrow> sent_to path \<and> path \<in> {''/login'', ''/teams'', ''/tasks''} \<and>
          (\<exists>code raw. answer = Inr (code, raw) \<and> code < 300 \<and> (sl_Token lib raw = Inl e \<or> sl_ID lib raw = Inl e))
      | BadRequest e \<Rightarrow> (\<exists>meth path. sl_NewRequest lib meth (baseURL @ path) = Some e)
      | NotSent meth path e \<Rightarrow> sent_to path \<and> answer = Inl e)"

text \<open>A script that sends \<open>n\<close> requests and returns a value with \<open>Q\<close>, or gives up for a reason.\<close>

definition ends :: "seed_lib \<Rightarrow> string \<Rightarrow> nat \<Rightarrow> ('a \<Rightarrow> bool) \<Rightarrow> 'a seed \<Rightarrow> bool" where
  "ends lib baseURL n Q m \<longleftrightarrow> (\<forall>s. case run_state m s of
     (Inr x, s') \<Rightarrow> Q x \<and> (\<exists>qs. s' = s @ qs \<and> length qs = n)
   | (Inl f, s') \<Rightarrow> fatal_reason lib baseURL f s')"

named_theorems ends_intros

lemma ends_return [ends_intros]: "Q x \<Longrightarrow> ends lib baseURL 0 Q (State_Monad.return (Inr x))"
  by (simp add: ends_def)

lemma ends_andThen:
  assumes "ends lib baseURL n P m" and "\<And>x. P x \<Longrightarrow> ends lib baseURL k Q (f x)"
  shows "ends lib baseURL (n + k) Q (andThen m f)"
  unfolding ends_def
proof
  fix s
  obtain r s' where run: "run_state m s = (r, s')" by fastforce
  show "case run_state (andThen m f) s of
      (Inr x, s') \<Rightarrow> Q x \<and> (\<exists>qs. s' = s @ qs \<and> length qs = n + k)
    | (Inl g, s') \<Rightarrow> fatal_reason lib baseURL g s'"
  proof (cases r)
    case (Inl g)
    with assms(1) run show ?thesis by (auto simp: ends_def try_or_def dest: spec [of _ s])
  next
    case (Inr x)
    with assms(1) run have x: "P x" "\<exists>qs. s' = s @ qs \<and> length qs = n"
      by (auto simp: ends_def dest: spec [of _ s])
    obtain q t where q: "run_state (f x) s' = (q, t)" by fastforce
    with run Inr have "run_state (andThen m f) s = (q, t)" by (simp add: try_or_def)
    moreover from assms(2) [OF x(1)] q have "case q of Inr y \<Rightarrow> Q y \<and> (\<exists>qs. t = s' @ qs \<and> length qs = k)
        | Inl g \<Rightarrow> fatal_reason lib baseURL g t" by (auto simp: ends_def dest: spec [of _ s'])
    ultimately show ?thesis using x(2) by (cases q) auto
  qed
qed

lemma ends_seed_do [ends_intros]: "ends lib baseURL 1 (\<lambda>_. True) (seed_do lib baseURL meth path token body)"
  by (auto simp: ends_def seed_do_def try_or_def execRequest_def fatal_reason_def Let_def split: option.splits sum.splits)

lemma ends_doJSON:
  "path \<in> {''/login'', ''/teams'', ''/tasks''} \<Longrightarrow> decode \<in> {sl_Token lib, sl_ID lib} \<Longrightarrow>
   ends lib baseURL 1 (\<lambda>_. True) (doJSON lib baseURL meth path token body decode)"
  by (auto simp: ends_def doJSON_def try_or_def execRequest_def fatal_reason_def Let_def split: option.splits sum.splits)

lemma ends_register [ends_intros]: "ends lib baseURL 1 (\<lambda>_. True) (seed_register lib baseURL email name password)"
  by (auto simp: ends_def seed_register_def seed_do_def try_or_def execRequest_def fatal_reason_def Let_def split: option.splits sum.splits)

lemma ends_calls [ends_intros]:
  "ends lib baseURL 1 (\<lambda>_. True) (seed_login lib baseURL email password)"
  "ends lib baseURL 1 (\<lambda>_. True) (seed_createTeam lib baseURL token name)"
  "ends lib baseURL 1 (\<lambda>_. True) (seed_createTask lib baseURL token teamID title desc priority dueDate)"
  "ends lib baseURL 1 (\<lambda>_. True) (seed_invite lib baseURL token teamID target)"
  "ends lib baseURL 1 (\<lambda>_. True) (seed_updateTask lib baseURL token taskID changes)"
  "ends lib baseURL 1 (\<lambda>_. True) (seed_addComment lib baseURL token taskID text)"
  by (simp_all add: seed_login_def seed_createTeam_def seed_createTask_def seed_invite_def seed_updateTask_def
      seed_addComment_def ends_doJSON [unfolded One_nat_def] ends_seed_do [unfolded One_nat_def] Let_def)

lemma ends_1: "ends lib baseURL 1 (\<lambda>_. True) m \<Longrightarrow> (\<And>x. ends lib baseURL k Q (f x)) \<Longrightarrow> ends lib baseURL (Suc k) Q (andThen m f)"
  using ends_andThen [of lib baseURL 1 "\<lambda>_. True" m k Q f] by simp

lemma ends_parts:
  "ends lib baseURL 6 (\<lambda>_. True) (seed_people lib baseURL)"
  "ends lib baseURL 5 (\<lambda>_. True) (seed_teams lib baseURL a b c)"
  "ends lib baseURL 8 (\<lambda>ts. length ts = 3) (seed_backend lib baseURL a b team)"
  "ends lib baseURL 7 (\<lambda>ts. length ts = 3) (seed_frontend lib baseURL b c team)"
  unfolding seed_people_def seed_teams_def seed_backend_def seed_frontend_def Let_def numeral_eq_Suc pred_numeral_simps
    arith_simps BitM.simps numeral_One One_nat_def [symmetric]
  by (intro ends_1 ends_intros; simp)+


text \<open>With a service that answers everything with 201, and one that refuses every invitation.\<close>

definition ex_seed :: "nat \<Rightarrow> seed_lib" where
  "ex_seed k =
     \<lparr>sl_NewRequest = (\<lambda>_ _. None), sl_Do = (\<lambda>n q. Inr (if n = k then 403 else 201, [])),
      sl_Token = (\<lambda>_. Inr ''a.b.c''), sl_ID = (\<lambda>_. Inr ''7''), sl_Base64 = (\<lambda>_. Inr []), sl_Claims = (\<lambda>_. Inr (Some ''7''))\<rparr>"

lemma ex_seed_runs:
  "fst (run_state (seed_main (ex_seed 8) ''http://h'') []) = Inr [''7'', ''7'', ''7'', ''7'', ''7'', ''7'']"
  "fst (run_state (seed_main (ex_seed 4) ''http://h'') []) = Inl (BadStatus ''POST'' ''/login'' 403)"
  "map sr_URL (snd (run_state (seed_main (ex_seed 7) ''http://h'') [])) =
     map ((@) ''http://h'') [''/register'', ''/register'', ''/register'', ''/login'', ''/login'', ''/login'', ''/teams'', ''/teams'']"
  by code_simp+

end
