(* ===== verification/Json_Properties.thy ===== *)
theory Json_Properties
  imports Json Http_Properties Seed
begin

text \<open>
  Request bodies as clients write them: which texts mean the same update, what the service does
  with a body that lacks its fields, and how it reads the bodies of the seed script.
\<close>

section \<open>Null and missing members\<close>

lemma field_of_fold:
  assumes "field_of fs k = Some (n, f)"
  shows "(n, f) \<in> set fs \<and> fold_name n = fold_name k"
proof (cases "map_of fs k")
  case None
  with assms have "List.find (\<lambda>(n, f). fold_name n = fold_name k) fs = Some (n, f)" by (simp add: field_of_def)
  then show ?thesis by (induction fs) (auto split: if_splits)
next
  case (Some g)
  with assms have "n = k" "f = g" by (simp_all add: field_of_def)
  with map_of_SomeD [OF Some] show ?thesis by simp
qed

text \<open>Setting one field does not change whether null is accepted without effect for another.\<close>

definition apart :: "(json \<Rightarrow> 'r \<Rightarrow> 'r field_result) \<Rightarrow> (json \<Rightarrow> 'r \<Rightarrow> 'r field_result) \<Rightarrow> bool" where
  "apart g f \<longleftrightarrow> (\<forall>v r r'. g v r = FieldSet r' \<longrightarrow> f JNull r = FieldSet r \<longrightarrow> f JNull r' = FieldSet r')"

lemma sorted_wrt_pair:
  assumes "sorted_wrt P xs" and "sorted_wrt (\<lambda>x y. P y x) xs" and "i < length xs" and "j < length xs" and "i \<noteq> j"
  shows "P (xs ! i) (xs ! j)"
  using assms by (cases i j rule: linorder_cases) (auto dest: sorted_wrt_nth_less)

locale nullable_fields =
  fixes fs :: "'r field_table" and zero :: 'r
  assumes lower: "list_all (\<lambda>(n, f). fold_name n = n) fs"
    and unset: "list_all (\<lambda>(n, f). f JNull zero = FieldSet zero) fs"
    and apart: "sorted_wrt apart (map snd fs)" "sorted_wrt (\<lambda>f g. apart g f) (map snd fs)"
begin

lemma fields_apart:
  assumes "(m, g) \<in> set fs" and "(n, f) \<in> set fs" and "m \<noteq> n"
  shows "apart g f"
proof -
  from assms obtain i j where i: "i < length fs" "fs ! i = (m, g)" and j: "j < length fs" "fs ! j = (n, f)"
    by (metis in_set_conv_nth)
  with assms(3) have "i \<noteq> j" by auto
  with sorted_wrt_pair [OF apart, of i j] i j show ?thesis by simp
qed

definition still_unset :: "string \<Rightarrow> 'r \<Rightarrow> bool" where
  "still_unset n r \<longleftrightarrow> (\<forall>f. (n, f) \<in> set fs \<longrightarrow> f JNull r = FieldSet r)"

lemma field_lower: "field_of fs k = Some (n, f) \<Longrightarrow> (fold_name k, f) \<in> set fs"
  using field_of_fold [of fs k n f] lower by (auto simp: list_all_iff)

lemma still_unset_set:
  assumes "(m, g) \<in> set fs" and "m \<noteq> n" and "g v r = FieldSet r'" and "still_unset n r"
  shows "still_unset n r'"
  using assms fields_apart unfolding still_unset_def apart_def by blast

lemma read_null:
  assumes "distinct (map (\<lambda>(k, v). fold_name k) kvs)" and "\<forall>(k, v) \<in> set kvs. still_unset (fold_name k) r"
  shows "read_members jl tp fs (filter (\<lambda>(k, v). v \<noteq> JNull) kvs) saved r = read_members jl tp fs kvs saved r"
  using assms
proof (induction kvs arbitrary: saved r)
  case (Cons kv kvs)
  obtain k v where kv: "kv = (k, v)" by (cases kv)
  have rest: "distinct (map (\<lambda>(k, v). fold_name k) kvs)" using Cons.prems(1) by simp
  have IH: "read_members jl tp fs (filter (\<lambda>(k, v). v \<noteq> JNull) kvs) saved r = read_members jl tp fs kvs saved r" for saved
    by (rule Cons.IH [OF rest]) (use Cons.prems(2) in simp)
  show ?case
  proof (cases "field_of fs k")
    case None
    with IH kv show ?thesis by auto
  next
    case (Some nf)
    obtain n f where nf: "nf = (n, f)" by (cases nf)
    have f: "(fold_name k, f) \<in> set fs" using field_lower Some nf by blast
    show ?thesis
    proof (cases "v = JNull")
      case True
      with f Cons.prems(2) kv have "f v r = FieldSet r" by (auto simp: still_unset_def)
      with True IH kv Some nf show ?thesis by auto
    next
      case False
      have "read_members jl tp fs (filter (\<lambda>(k, v). v \<noteq> JNull) kvs) saved r' = read_members jl tp fs kvs saved r'"
        if r': "f v r = FieldSet r'" for r'
      proof (rule Cons.IH [OF rest], clarify)
        fix k' v'
        assume k': "(k', v') \<in> set kvs"
        with Cons.prems(1) kv have "fold_name k \<noteq> fold_name k'" by force
        moreover have "still_unset (fold_name k') r" using Cons.prems(2) k' by auto
        ultimately show "still_unset (fold_name k') r'" using still_unset_set [OF f _ r'] by blast
      qed
      with False Some kv nf IH show ?thesis by (cases "f v r") auto
    qed
  qed
qed simp

lemma struct_null:
  assumes "distinct (map (\<lambda>(k, v). fold_name k) kvs)"
  shows "read_struct jl tp fs zero (JObject (filter (\<lambda>(k, v). v \<noteq> JNull) kvs)) = read_struct jl tp fs zero (JObject kvs)"
proof -
  have "\<forall>(k, v) \<in> set kvs. still_unset (fold_name k) zero" using unset by (auto simp: still_unset_def list_all_iff)
  from read_null [OF assms this] show ?thesis by (simp add: read_struct_def)
qed

end

lemmas setter_defs = set_string_def set_uuid_def set_string_ptr_def set_uuid_ptr_def set_date_ptr_def method_set_def

text \<open>The fields of an update are independent of each other: each setter changes its own field only.\<close>

lemma update_unset [simp]:
  "r\<lparr>utr_AssigneeId := None\<rparr> = r \<longleftrightarrow> utr_AssigneeId r = None"
  "r\<lparr>utr_Description := None\<rparr> = r \<longleftrightarrow> utr_Description r = None"
  "r\<lparr>utr_DueDate := None\<rparr> = r \<longleftrightarrow> utr_DueDate r = None"
  "r\<lparr>utr_Priority := None\<rparr> = r \<longleftrightarrow> utr_Priority r = None"
  "r\<lparr>utr_Status := None\<rparr> = r \<longleftrightarrow> utr_Status r = None"
  "r\<lparr>utr_Title := None\<rparr> = r \<longleftrightarrow> utr_Title r = None"
  for r :: "'a UpdateTaskRequest_scheme"
  by (cases r, fastforce)+

lemma apartI:
  assumes "\<And>r. f JNull r = FieldSet r \<longleftrightarrow> get r = None" and "\<And>v r r'. g v r = FieldSet r' \<Longrightarrow> get r' = get r"
  shows "apart g f"
  using assms unfolding apart_def by metis

lemma setter_null:
  "set_string_ptr upd JNull r = FieldSet r \<longleftrightarrow> upd None r = r"
  "set_uuid_ptr jl updu JNull r = FieldSet r \<longleftrightarrow> updu None r = r"
  "set_date_ptr jl updd JNull r = FieldSet r \<longleftrightarrow> updd None r = r"
  by (simp_all add: setter_defs)

lemma setter_keeps:
  "set_string_ptr upd v r = FieldSet r' \<Longrightarrow> (\<And>x. get (upd x r) = get r) \<Longrightarrow> get r' = get r"
  "set_uuid_ptr jl updu v r = FieldSet r' \<Longrightarrow> (\<And>x. get (updu x r) = get r) \<Longrightarrow> get r' = get r"
  "set_date_ptr jl updd v r = FieldSet r' \<Longrightarrow> (\<And>x. get (updd x r) = get r) \<Longrightarrow> get r' = get r"
  by (auto simp: setter_defs split: json.splits sum.splits)

lemma update_apart:
  "sorted_wrt apart (map snd (update_fields jl))"
  "sorted_wrt (\<lambda>f g. apart g f) (map snd (update_fields jl))"
proof -
  let ?a = "set_uuid_ptr jl (\<lambda>x r :: UpdateTaskRequest. r\<lparr>utr_AssigneeId := x\<rparr>)" and ?s = "set_string_ptr (\<lambda>x r :: UpdateTaskRequest. r\<lparr>utr_Description := x\<rparr>)"
    and ?d = "set_date_ptr jl (\<lambda>x r :: UpdateTaskRequest. r\<lparr>utr_DueDate := x\<rparr>)" and ?p = "set_string_ptr (\<lambda>x r :: UpdateTaskRequest. r\<lparr>utr_Priority := x\<rparr>)"
    and ?u = "set_string_ptr (\<lambda>x r :: UpdateTaskRequest. r\<lparr>utr_Status := x\<rparr>)" and ?t = "set_string_ptr (\<lambda>x r :: UpdateTaskRequest. r\<lparr>utr_Title := x\<rparr>)"
  have "\<forall>g \<in> {?s, ?d, ?p, ?u, ?t}. apart g ?a"
    by (intro ballI apartI [of _ utr_AssigneeId]) (auto simp: setter_null dest: setter_keeps [where get = utr_AssigneeId])
  moreover have "\<forall>g \<in> {?a, ?d, ?p, ?u, ?t}. apart g ?s"
    by (intro ballI apartI [of _ utr_Description]) (auto simp: setter_null dest: setter_keeps [where get = utr_Description])
  moreover have "\<forall>g \<in> {?a, ?s, ?p, ?u, ?t}. apart g ?d"
    by (intro ballI apartI [of _ utr_DueDate]) (auto simp: setter_null dest: setter_keeps [where get = utr_DueDate])
  moreover have "\<forall>g \<in> {?a, ?s, ?d, ?u, ?t}. apart g ?p"
    by (intro ballI apartI [of _ utr_Priority]) (auto simp: setter_null dest: setter_keeps [where get = utr_Priority])
  moreover have "\<forall>g \<in> {?a, ?s, ?d, ?p, ?t}. apart g ?u"
    by (intro ballI apartI [of _ utr_Status]) (auto simp: setter_null dest: setter_keeps [where get = utr_Status])
  moreover have "\<forall>g \<in> {?a, ?s, ?d, ?p, ?u}. apart g ?t"
    by (intro ballI apartI [of _ utr_Title]) (auto simp: setter_null dest: setter_keeps [where get = utr_Title])
  ultimately show "sorted_wrt apart (map snd (update_fields jl))" "sorted_wrt (\<lambda>f g. apart g f) (map snd (update_fields jl))"
    by (simp_all add: update_fields_def)
qed

interpretation update_body: nullable_fields "update_fields jl" no_update for jl
proof
  show "list_all (\<lambda>(n, f). fold_name n = n) (update_fields jl)"
    unfolding update_fields_def fold_name_def by (simp add: lower_char_def)
  show "list_all (\<lambda>(n, f). f JNull no_update = FieldSet no_update) (update_fields jl)"
    by (simp add: update_fields_def no_update_def setter_defs)
qed (fact update_apart)+


text \<open>A decoder for which every body is the empty object, and a simple format of instants.\<close>

definition plain_json :: json_lib where
  "plain_json =
     \<lparr>jl_Parse = (\<lambda>_. Inr (JObject [])), jl_Mismatch = (\<lambda>_ _ _. ErrorString ''json: cannot unmarshal''), jl_UUID = plain_Parse,
      jl_Email = (\<lambda>j. case j of JString s \<Rightarrow> Inr s | _ \<Rightarrow> Inl (ErrorString ''failed to pass regex validation'')),
      jl_Date = (\<lambda>j. case j of JString s \<Rightarrow> Inr (int (length s)) | _ \<Rightarrow> Inl (ErrorString ''Date'')),
      jl_UUIDText = canonical_uuid, jl_Time = fmt_d\<rparr>"


section \<open>Missing members\<close>

text \<open>C34. The API requires address, name and password of a registration, the password with at least
  eight characters, but the service checks none of it: a body without members that is answered
  with 201 has added an account with the empty address, name and password.\<close>

theorem required_not_checked:
  assumes "server_laws srv" and "redis_laws rds" and "runtime_laws rt" and "world_ok srv w"
    and "jl_Parse jl (rq_Body rq) = Inr (JObject [])"
    and "route_of (json_api jl lib) rq = Some ((''POST'', ''/register''), i)"
    and "run_state (mountV1 (json_api jl lib) (app_handler srv rds rt cfg) user rq) w = (resp, w')" and "hr_Status resp = 201"
  shows "email_view srv (db w) '''' = None \<and>
    account_added (email_view srv) non_user_tables (same_email srv) (stored_user srv) (rt_Compare rt) '''' '''' '''' (db w) (db w')"
proof -
  let ?lib = "json_api jl lib" and ?h = "app_handler srv rds rt cfg"
  from mount_route [OF assms(6), where h = ?h] obtain f where f: "(''POST'', ''/register'', f) \<in> set routes"
    and run: "mountV1 ?lib ?h user rq = f ?lib (app_wrapper ?lib ?h) user i rq" by blast
  from f have "f = wrap_Register" by (simp add: routes_def)
  moreover have "al_RegisterRequest ?lib (rq_Body rq) = Inr \<lparr>rrq_Email = '''', rrq_Name = '''', rrq_Password = ''''\<rparr>"
    using assms(5) by (simp add: json_api_def read_RegisterRequest_def read_struct_def)
  ultimately have "mountV1 ?lib ?h user rq =
      strict default_options rq (\<lambda>_. BodyNone) (Register ?h (Some \<lparr>rrq_Email = '''', rrq_Name = '''', rrq_Password = ''''\<rparr>))"
    unfolding run by (simp add: wrap_app with_body_def)
  with assms(7) obtain x where x: "run_state (auth_Register (authSvc srv rt cfg) '''' '''' '''') w = (x, w')"
    and "hr_Status resp = (case x of Inl e \<Rightarrow> if errors_Is e ErrConflict then 409 else 500 | Inr _ \<Rightarrow> 201)"
    by (fastforce simp: strict_def Register_def respond_def visit_response_def http_Error_def split: prod.splits sum.splits if_splits)
  with assms(8) obtain y where "x = Inr y" by (cases x) (auto split: if_splits)
  moreover have "asv_Compare (authSvc srv rt cfg) = rt_Compare rt" by (simp add: authSvc_def)
  ultimately show ?thesis using auth_svc.Register_run [OF sys_invI [OF assms(1-4)] x] by simp
qed

lemma required_not_checked_witness:
  "email_view plain_server (db w_users) '''' = None \<and>
   hr_Status (fst (run_state (mountV1 (json_api plain_json plain_lib) (app_handler plain_server plain_redis plain_runtime plain_config)
     None rq_register) w_users)) = 201"
proof -
  let ?m = "run_state (mountV1 (json_api plain_json plain_lib) (app_handler plain_server plain_redis plain_runtime plain_config)
     None rq_register) w_users"
  have s: "hr_Status (fst ?m) = 201" by code_simp
  obtain resp w' where run: "?m = (resp, w')" by fastforce
  have r: "route_of (json_api plain_json plain_lib) rq_register = Some ((''POST'', ''/register''), '''')" by code_simp
  have p: "jl_Parse plain_json (rq_Body rq_register) = Inr (JObject [])" by (simp add: plain_json_def)
  from required_not_checked [OF plain_laws ex_ok(1) p r run] s run show ?thesis by simp
qed

section \<open>The bodies of the seed script\<close>

text \<open>The bodies the script sends, as the service reads them.\<close>

definition seed_json :: "(string \<times> string) list \<Rightarrow> json" where
  "seed_json body = JObject (map (\<lambda>(k, v). (k, JString v)) body)"

lemma seed_bodies_read:
  "read_LoginRequest jl (seed_json [(''email'', email), (''password'', password)]) =
     map_sum id (\<lambda>e. \<lparr>lrq_Email = e, lrq_Password = password\<rparr>) (jl_Email jl (JString email))"
  "read_RegisterRequest jl (seed_json [(''email'', email), (''name'', name), (''password'', password)]) =
     map_sum id (\<lambda>e. \<lparr>rrq_Email = e, rrq_Name = name, rrq_Password = password\<rparr>) (jl_Email jl (JString email))"
  "read_CreateTeamRequest jl (seed_json [(''name'', name)]) = Inr \<lparr>ctr_Name = name\<rparr>"
  "read_InviteRequest jl (seed_json [(''user_id'', target)]) = map_sum id InviteRequest.make (jl_UUID jl target)"
  "read_AddCommentRequest jl (seed_json [(''body'', body)]) = Inr \<lparr>acr_Body = body\<rparr>"
  "read_UpdateTaskRequest jl (seed_json [(keyStatus, s)]) = Inr (no_update\<lparr>utr_Status := Some s\<rparr>)"
  by (simp_all add: read_LoginRequest_def read_RegisterRequest_def read_CreateTeamRequest_def read_InviteRequest_def
      read_AddCommentRequest_def read_UpdateTaskRequest_def update_fields_def read_struct_def seed_json_def field_of_def
      setter_defs set_email_def keyStatus_def InviteRequest.make_def split: sum.split)

lemma seed_task_read:
  assumes "jl_UUID jl team = Inr t" and "jl_Date jl (JString due) = Inr d"
  shows "read_CreateTaskRequest jl (seed_json [(''team_id'', team), (''title'', title), (''priority'', prio), (''due_date'', due)]) =
     Inr \<lparr>ctr_AssigneeId = None, ctr_Description = None, ctr_DueDate = Some d, ctr_Priority = Some prio,
          ctr_TeamId = t, ctr_Title = title\<rparr>"
    and "read_CreateTaskRequest jl (seed_json [(''team_id'', team), (''title'', title), (''priority'', prio), (''due_date'', due),
       (''description'', desc)]) =
     Inr \<lparr>ctr_AssigneeId = None, ctr_Description = Some desc, ctr_DueDate = Some d, ctr_Priority = Some prio,
          ctr_TeamId = t, ctr_Title = title\<rparr>"
  using assms
  by (simp_all add: read_CreateTaskRequest_def read_struct_def seed_json_def field_of_def setter_defs)

end
