(* ===== verification/Sessions.thy ===== *)
theory Sessions
  imports Reachable Example
begin

text \<open>
  What holds from one request to any later one, with any other requests between them: no task,
  history entry, membership or account is lost, a created task is listed, and a registered
  user can log in.
\<close>

section \<open>Accounts stay\<close>

lemma email_view_same: "same_email srv m m' \<Longrightarrow> email_view srv d m = email_view srv d m'"
  by (simp add: email_view_def same_email_def)

lemma email_view_users: "users d' = users d \<Longrightarrow> email_view srv d' m = email_view srv d m"
  by (simp add: email_view_def)

lemma account_added_kept:
  assumes "account_added (email_view srv) non_user_tables (same_email srv) (stored_user srv) cmp email name pw d d'"
    and "email_view srv d m = Some u"
  shows "email_view srv d' m = Some u"
  using assms email_view_same [of srv m] by (auto simp: account_added_def)

lemma task_step_users:
  "task_saved task_view (\<lambda>d. (history_view d, team_members d, other_tables d)) norm t d d' \<Longrightarrow> users d' = users d"
  "task_changed task_view history_view (\<lambda>d. (team_members d, other_tables d)) norm same keep t es d d' \<Longrightarrow> users d' = users d"
  by (auto simp: task_saved_def task_changed_def other_tables_def)

lemma team_step_users:
  "team_added role_view team_view non_team_tables norm team c d d' \<Longrightarrow> users d' = users d"
  "member_saved role_view team_view non_team_tables t u r d d' \<Longrightarrow> users d' = users d"
  by (auto simp: team_added_def member_saved_def non_team_tables_def)

lemma team_invite_users:
  assumes inv: "sys_inv srv rds rt w" and run: "run_state (team_Invite (teamSvc srv rt cfg) c t u) w = (r, w')"
  shows "users (db w') = users (db w)"
  using inv run
proof (cases rule: team_svc.Invite_cases)
  case (unsure e)
  with team_step_users(2) show ?thesis by auto
next
  case (invited team usr)
  with team_step_users(2) show ?thesis by blast
qed simp

lemma task_create_users:
  assumes inv: "sys_inv srv rds rt w" and run: "run_state (task_Create (taskSvc srv rds rt cfg) c input) w = (r, w')"
  shows "users (db w') = users (db w)"
  using inv run
proof (cases rule: task_svc.Create_cases)
  case (unsure e t)
  from unsure(7) task_step_users(1) show ?thesis by (elim disjE) (simp, blast)
next
  case (created t v)
  from created(7) have "db w' = db v" using task_svc.cache_keeps(3) [OF created(4)] by metis
  with task_step_users(1) [OF created(6)] show ?thesis by simp
qed simp

lemma task_update_users:
  assumes inv: "sys_inv srv rds rt w" and run: "run_state (task_Update (taskSvc srv rds rt cfg) c i input) w = (r, w')"
  shows "users (db w') = users (db w)"
  using inv run
proof (cases rule: task_svc.Update_cases)
  case (unsure e t now)
  from unsure(7) task_step_users(2) show ?thesis by (elim disjE) (simp, blast)
next
  case (updated t now v)
  from updated(7) have "db w' = db v" using task_svc.cache_keeps(3) [OF updated(4)] by metis
  with task_step_users(2) [OF updated(6)] show ?thesis by simp
qed simp_all

lemma step_accounts:
  assumes step: "svc_step allowed srv rds rt cfg w w'" and inv: "sys_inv srv rds rt w"
    and view: "email_view srv (db w) m = Some u"
  shows "email_view srv (db w') m = Some u"
proof -
  have same: ?thesis if "users (db w') = users (db w)" using email_view_users [OF that] view by simp
  from step show ?thesis
  proof cases
    case (register email name pw r)
    from auth_svc.Register_run [OF inv register] view show ?thesis
      by (cases r) (auto dest: account_added_kept)
  next
    case login
    with auth_svc.Login_run [OF inv] same show ?thesis by auto
  next
    case team_create
    with team_svc.Create_run [OF inv team_create] team_step_users(1) show ?thesis by (auto intro!: same split: sum.splits)
  next
    case team_list
    from team_list_quiet [OF inv team_list] same show ?thesis by simp
  next
    case team_invite
    from team_invite_users [OF inv team_invite] same show ?thesis by simp
  next
    case task_create
    from task_create_users [OF inv task_create] same show ?thesis by simp
  next
    case (task_list c f)
    from task_svc.List_run [OF inv task_list(1)] same show ?thesis by simp
  next
    case task_update
    from task_update_users [OF inv task_update] same show ?thesis by simp
  next
    case task_history
    from task_svc.History_cases(1) [OF inv task_history] same show ?thesis by simp
  next
    case comment_add
    from comment_svc.Add_run [OF inv comment_add] show ?thesis
      by (auto simp: comment_added_def non_comment_tables_def intro!: same split: sum.splits)
  next
    case comment_list
    from comment_svc.List_run [OF inv comment_list] same show ?thesis by simp
  next
    case summaries
    from quiet_report [OF inv reads_report(1) summaries] same show ?thesis by simp
  next
    case contributors
    from quiet_report [OF inv reads_report(2) contributors] same show ?thesis by simp
  next
    case orphans
    from quiet_report [OF inv reads_report(3) orphans] same show ?thesis by simp
  qed (use view in simp)
qed

lemma steps_accounts:
  assumes "(svc_step allowed srv rds rt cfg)\<^sup>*\<^sup>* w w'" and "sys_inv srv rds rt w" and "email_view srv (db w) m = Some u"
  shows "sys_inv srv rds rt w' \<and> email_view srv (db w') m = Some u"
  using assms
proof (induction rule: rtranclp_induct)
  case (step y z)
  then show ?case using step_sys_inv step_accounts by blast
qed simp

section \<open>Logging in\<close>

lemma db_Get_certain:
  assumes "srv_fault srv (tick w) = NoFault" and "q (tick w) (db w) = Inr (x # xs)"
  shows "run_state (db_Get srv q) w = (Inr x, advance w)"
  using assms by (simp add: db_Get_def db_Select_def)

lemma GetByEmail_certain:
  assumes nf: "srv_fault srv (tick w) = NoFault" and ok: "db_ok srv n (db w)" and u: "email_view srv (db w) m = Some u"
  shows "run_state (GetByEmail srv m) w = (Inr u, advance w)"
proof (cases "filter (\<lambda>r. srv_collate srv (ur_Email r) = srv_collate srv m) (visit srv (tick w) (users (db w)))")
  case Nil
  then have "\<forall>r \<in> set (users (db w)). srv_collate srv (ur_Email r) \<noteq> srv_collate srv m"
    by (simp add: filter_empty_conv)
  with u show ?thesis by (simp add: email_view_None)
next
  case (Cons r rs)
  then have "r \<in> set (users (db w))" by (metis filter_eq_ConsD in_set_conv_decomp set_visit)
  then have "length (ur_ID r) = 16" using ok by (simp add: db_ok_def users_ok_def)
  then obtain v where "toUser r = Inr v" by (simp add: toUser_def bytesToUUID_def)
  with nf Cons have run: "run_state (GetByEmail srv m) w = (Inr v, advance w)" by (simp add: GetByEmail_def db_Get_def db_Select_def)
  with GetByEmail_Inr [OF ok run] u show ?thesis by simp
qed

text \<open>C16. An account stays usable: while the database answers and tokens can be signed, whoever has an
  account and knows its password can log in after any sequence of requests.\<close>

theorem login_available:
  assumes "server_laws srv" and "redis_laws rds" and "runtime_laws rt" and "reachable allowed srv rds rt cfg w"
    and "email_view srv (db w) email = Some usr" and "rt_Compare rt (user_Password usr) pw"
    and "(svc_step allowed srv rds rt cfg)\<^sup>*\<^sup>* w w'" and "srv_fault srv (tick w') = NoFault"
    and "\<And>k. \<not> isl (rt_Sign rt (cfg_JWTSecret cfg) (rt_String rt (user_ID usr), Unix (rt_Now rt k + cfg_JWTExpiry cfg)))"
  shows "\<exists>token w''. run_state (auth_Login (authSvc srv rt cfg) email pw) w' = (Inr token, w'')"
proof -
  from steps_accounts [OF assms(7) reachable_sys_inv [OF assms(1-4)] assms(5)]
  have inv: "sys_inv srv rds rt w'" and u: "email_view srv (db w') email = Some usr" by blast+
  have "\<exists>token. rt_Sign rt (cfg_JWTSecret cfg) (rt_String rt (user_ID usr), Unix (rt_Now rt k + cfg_JWTExpiry cfg)) = Inr token" for k
    using assms(9) [of k] by (auto simp: isl_def split: sum.splits) (metis Inr_Inl_False obj_sumE)
  with GetByEmail_certain [OF assms(8) sys_invD(5) [OF inv] u] assms(6) show ?thesis
    by (fastforce simp: auth_Login_def authSvc_def try_or_def time_Now_def)
qed

lemma ex_steps:
  "(svc_step allowed plain_server plain_redis plain_runtime plain_config)\<^sup>*\<^sup>* w_users w_task"
  "tf_Status ex_filter \<noteq> Some ''all'' \<Longrightarrow> allowed ex_filter \<Longrightarrow>
     svc_step allowed plain_server plain_redis plain_runtime plain_config w_task w_listed"
proof -
  let ?S = "svc_step allowed plain_server plain_redis plain_runtime plain_config"
  have "?S w_users w_team" unfolding w_team_def by (rule team_create) (rule prod.collapse [symmetric])
  moreover have "?S w_team w_invited" unfolding w_invited_def by (rule team_invite) (rule prod.collapse [symmetric])
  moreover have "?S w_invited w_task" unfolding w_task_def by (rule task_create) (rule prod.collapse [symmetric])
  ultimately show "?S\<^sup>*\<^sup>* w_users w_task" by (meson r_into_rtranclp rtranclp_trans)
  show "?S w_task w_listed" if "allowed ex_filter" using that unfolding w_listed_def
    by (intro task_list) (rule prod.collapse [symmetric])
qed

lemma login_available_witness:
  "\<exists>token w''. run_state (auth_Login ex_auth ''alice@x'' ''pw'') w_task = (Inr token, w'')"
proof -
  have "map_option (\<lambda>u. rt_Compare plain_runtime (user_Password u) ''pw'') (email_view plain_server (db w_users) ''alice@x'') = Some True"
    by code_simp
  then obtain usr where usr: "email_view plain_server (db w_users) ''alice@x'' = Some usr" "rt_Compare plain_runtime (user_Password usr) ''pw''"
    by auto
  show ?thesis
    by (rule login_available [OF plain_laws ex_reachable(1) usr ex_steps(1)])
      (use canonical_uuid_text in \<open>auto simp: plain_server_def plain_runtime_def plain_Sign_def plain_config_def uuid_text_def Unix_def\<close>)
qed

section \<open>Listing\<close>

lemma first_page:
  assumes ok: "db_ok srv n' d" and page: "task_page srv d g us n" and "tf_Page g = 1" and "int n \<le> sint (tf_Limit g)"
    and t: "task_view d i = Some t" and "task_matches srv g t"
  shows "t \<in> set us"
proof -
  from page assms(3) obtain ys where ys: "newest_first srv g d ys" "us = take (nat (sint (tf_Limit g))) ys"
    and n: "n = length (filter (task_matches srv g) (all_tasks d))"
    by (auto simp: task_page_def list_offset_def)
  then have "mset ys = mset (filter (task_matches srv g) (all_tasks d))" by (simp add: newest_first_def)
  then have "length ys = n" and "set ys = set (filter (task_matches srv g) (all_tasks d))"
    using n by (metis size_mset, metis set_mset_mset)
  with ys(2) assms(4,6) t show ?thesis by (simp add: task_view_iff [OF ok])
qed



section \<open>Nothing is lost\<close>

text \<open>C6. Nothing is lost: from any reachable state to any later one every task stays in its team with its
  creator and creation time, the history of every task is only appended to, memberships do not
  end and an address keeps its account.\<close>

theorem nothing_lost:
  assumes "server_laws srv" and "redis_laws rds" and "runtime_laws rt" and "reachable allowed srv rds rt cfg w"
    and "(svc_step allowed srv rds rt cfg)\<^sup>*\<^sup>* w w'"
  shows "(\<forall>i t. task_view (db w) i = Some t \<longrightarrow> (\<exists>u. task_view (db w') i = Some u \<and> task_TeamID u = task_TeamID t \<and>
        task_CreatedBy u = task_CreatedBy t \<and> task_CreatedAt u = task_CreatedAt t)) \<and>
    (\<forall>i. \<exists>es. history_view (db w') i = history_view (db w) i @ es) \<and>
    (\<forall>t u. role_view (db w) t u \<noteq> None \<longrightarrow> role_view (db w') t u \<noteq> None) \<and>
    (\<forall>m u. email_view srv (db w) m = Some u \<longrightarrow> email_view srv (db w') m = Some u)"
proof -
  note inv = reachable_sys_inv [OF assms(1-4)]
  from steps_kept [OF assms(5) inv] have "kept (db w) (db w')" ..
  moreover have "email_view srv (db w') m = Some u" if "email_view srv (db w) m = Some u" for m u
    using steps_accounts [OF assms(5) inv that] ..
  ultimately show ?thesis unfolding kept_def by blast
qed

lemma nothing_lost_witness:
  "\<exists>es. history_view (db (snd (run_state (task_Update ex_tasks bob ex_task ex_change) w_task))) ex_task =
     history_view (db w_task) ex_task @ es \<and> length es = 2"
proof -
  let ?w = "snd (run_state (task_Update ex_tasks bob ex_task ex_change) w_task)"
  have step: "(svc_step (\<lambda>f. True) plain_server plain_redis plain_runtime plain_config)\<^sup>*\<^sup>* w_task ?w"
    by (rule r_into_rtranclp, rule task_update) (rule prod.collapse [symmetric])
  have "length (history_view (db ?w) ex_task) = 2" "length (history_view (db w_task) ex_task) = 0" by code_simp+
  moreover from nothing_lost [OF plain_laws ex_reachable(4) step]
  obtain es where "history_view (db ?w) ex_task = history_view (db w_task) ex_task @ es" by blast
  ultimately show ?thesis by auto
qed

end
