(* ===== verification/Interleaving.thy ===== *)
theory Interleaving
  imports Sessions
begin

text \<open>
  Requests that overlap.  Each operation of the task service is cut where it has made its checks
  or its query and has not yet written; other requests may run in between.  The checks stay
  valid, because no membership ends; but an update writes back every field it has read, and a
  list may be cached after a write has cleared the cache.
\<close>

section \<open>The two halves of an operation\<close>

definition create_check :: "'w task_service \<Rightarrow> uuid \<Rightarrow> CreateTaskInput \<Rightarrow> ('w, unit) op" where
  "create_check s creatorID input =
     try_or (forbidden_or ''task.Service.Create: get member role: '')
       (tsv_GetMemberRole s (cti_TeamID input) creatorID) (\<lambda>_.
     try_or (assignee_or ''task.Service.Create: check assignee membership: '')
       (case cti_AssigneeID input of
          None \<Rightarrow> State_Monad.return (Inr '''')
        | Some a \<Rightarrow> tsv_GetMemberRole s (cti_TeamID input) a) (\<lambda>_.
     State_Monad.return (Inr ())))"

definition create_write :: "'w task_service \<Rightarrow> uuid \<Rightarrow> CreateTaskInput \<Rightarrow> ('w, Task) op" where
  "create_write s creatorID input =
     try_or (errorf ''task.Service.Create: generate task id: '') (tsv_NewV7 s) (\<lambda>i. do {
       now \<leftarrow> tsv_Now s;
       let task = new_task i now creatorID input;
       try_or (errorf ''task.Service.Create: save task: '') (tsv_SaveTask s task) (\<lambda>_. do {
         _ \<leftarrow> tsv_Invalidate s (cachePattern (tsv_String s) (cti_TeamID input));
         State_Monad.return (Inr task) }) })"

definition update_check :: "'w task_service \<Rightarrow> uuid \<Rightarrow> uuid \<Rightarrow> UpdateTaskInput \<Rightarrow> ('w, Task) op" where
  "update_check s callerID taskID input =
     try_or (errorf ''task.Service.Update: get task: '') (tsv_GetTaskByID s taskID) (\<lambda>task.
     try_or (forbidden_or ''task.Service.Update: get member role: '')
       (tsv_GetMemberRole s (task_TeamID task) callerID) (\<lambda>_.
     try_or (assignee_or ''task.Service.Update: check assignee membership: '')
       (case uti_AssigneeID input of
          None \<Rightarrow> State_Monad.return (Inr '''')
        | Some a \<Rightarrow> if \<not> uuidPtrEqual (task_AssigneeID task) (uti_AssigneeID input)
                    then tsv_GetMemberRole s (task_TeamID task) a else State_Monad.return (Inr '''')) (\<lambda>_.
     State_Monad.return (Inr task))))"

definition update_write :: "'w task_service \<Rightarrow> uuid \<Rightarrow> uuid \<Rightarrow> UpdateTaskInput \<Rightarrow> Task \<Rightarrow> ('w, Task) op" where
  "update_write s callerID taskID input task =
     (case buildHistoryEntries (tsv_String s) task input taskID callerID of (task, entries) \<Rightarrow> do {
       now \<leftarrow> tsv_Now s;
       let task = task\<lparr>task_UpdatedAt := now\<rparr>;
       let entries = map (\<lambda>e. e\<lparr>th_ChangedAt := task_UpdatedAt task\<rparr>) entries;
       try_or (errorf ''task.Service.Update: update task: '') (tsv_UpdateTaskWithHistory s task entries) (\<lambda>_. do {
         _ \<leftarrow> tsv_Invalidate s (cachePattern (tsv_String s) (task_TeamID task));
         State_Monad.return (Inr task) }) })"

text \<open>An answer that is complete, or one that is still to be cached under a key.\<close>

definition list_query :: "'w task_service \<Rightarrow> uuid \<Rightarrow> TaskFilter \<Rightarrow> ('w, string option \<times> Task list \<times> nat) op" where
  "list_query s callerID flt =
     (case tf_TeamID flt of
        None \<Rightarrow> State_Monad.return (Inl (Sentinel ErrForbidden))
      | Some teamID \<Rightarrow>
          try_or (forbidden_or ''task.Service.List: get member role: '') (tsv_GetMemberRole s teamID callerID) (\<lambda>_.
          let flt = normalize flt; key = cacheKey (tsv_String s) flt;
              query = try_or (errorf ''task.Service.List: list tasks: '') (tsv_ListTasks s flt) (\<lambda>r. State_Monad.return (Inr (Some key, r)))
          in do {
            d \<leftarrow> tsv_Get s key;
            case d of
              Inl _ \<Rightarrow> query
            | Inr data \<Rightarrow>
                (case tsv_Unmarshal s data of
                   Inl _ \<Rightarrow> query
                 | Inr cached \<Rightarrow> State_Monad.return (Inr (None, cached))) }))"

definition list_store :: "'w task_service \<Rightarrow> string option \<times> Task list \<times> nat \<Rightarrow> ('w, Task list \<times> nat) op" where
  "list_store s p =
     (case p of
        (None, r) \<Rightarrow> State_Monad.return (Inr r)
      | (Some key, r) \<Rightarrow> do {
          _ \<leftarrow> (case tsv_Marshal s r of
              Inl _ \<Rightarrow> State_Monad.return (Inr ())
            | Inr data \<Rightarrow> tsv_Set s key data (tsv_ttl s));
          State_Monad.return (Inr r) })"

text \<open>Without anything in between the halves are the operation.\<close>

lemma try_or_halves: "try_or (\<lambda>e. e) (try_or g m k) f = try_or g m (\<lambda>x. try_or (\<lambda>e. e) (k x) f)"
  by (rule state.expand) (auto simp: try_or_def fun_eq_iff split: prod.splits sum.splits)

lemma try_or_return: "try_or g (State_Monad.return (Inr x)) k = k x"
  by (rule state.expand) (simp add: try_or_def fun_eq_iff)

lemma halves:
  "task_Create s c input = try_or (\<lambda>e. e) (create_check s c input) (\<lambda>_. create_write s c input)"
  "task_Update s c i uinput = try_or (\<lambda>e. e) (update_check s c i uinput) (update_write s c i uinput)"
  by (simp_all add: task_Create_def task_Update_def create_check_def create_write_def update_check_def update_write_def
      try_or_halves try_or_return)

lemma list_halves: "task_List s c f = try_or (\<lambda>e. e) (list_query s c f) (list_store s)"
  by (rule state.expand)
    (auto simp: task_List_def list_query_def list_store_def list_uncached_def try_or_def fun_eq_iff Let_def
      split: prod.splits sum.splits option.splits)

section \<open>What a half guarantees\<close>

context task_service_deps
begin

lemma create_check_passed:
  assumes w: "good w" and run: "run_state (create_check S c input) w = (Inr u, v)"
  shows "may_create (role_of (data w)) c input \<and> good v \<and> data v = data w"
  using w run [unfolded create_check_def]
proof (cases rule: check_member)
  case (passed x v1)
  from passed(2,5) show ?thesis
  proof (cases rule: check_assignee)
    case (passed y v2)
    with \<open>role_of (data w) _ c = Some x\<close> \<open>data v1 = data w\<close> show ?thesis by (auto simp: may_create_def)
  qed simp
qed simp

lemma create_write_saved:
  assumes w: "good w" and run: "run_state (create_write S c input) w = (Inr t, w')"
  shows "task_for input c t \<and> good w' \<and> saved t (data w) (data w')"
  using newv7_quiet w run [unfolded create_write_def]
proof (cases rule: quiet_try_or)
  case (ok i v)
  from now_quiet ok(2) ok(5) obtain now v2 where v2: "good v2" "data v2 = data v"
    and save: "run_state (try_or (errorf ''task.Service.Create: save task: '')
      (tsv_SaveTask S (new_task i now c input))
      (\<lambda>_. tsv_Invalidate S (cachePattern (tsv_String S) (cti_TeamID input)) \<bind>
         (\<lambda>_. State_Monad.return (Inr (new_task i now c input))))) v2 = (Inr t, w')"
    by (rule quiet_bind_step) (auto simp: Let_def)
  from save show ?thesis
  proof (cases rule: try_or_cases)
    case saved_ok: (ok x v3)
    then obtain u where "run_state (tsv_Invalidate S (cachePattern (tsv_String S) (cti_TeamID input))) v3 = (u, w')"
      and "t = new_task i now c input" by (auto split: prod.splits)
    with cache_keeps(3) storesD [OF save_stores v2(1) saved_ok(1)] save_run [OF v2(1) saved_ok(1)] v2 ok(3) show ?thesis
      by (auto simp: task_for_def new_task_def)
  qed simp
qed simp

lemma update_check_passed:
  assumes w: "good w" and run: "run_state (update_check S c i input) w = (Inr t, v)"
  shows "task_of (data w) i = Some t \<and> may_update (role_of (data w)) c t input \<and> good v \<and> data v = data w"
  using task_quiet w run [unfolded update_check_def]
proof (cases rule: quiet_try_or)
  case (ok t' v1)
  have t: "task_of (data w) i = Some t'" using task_found [OF w ok(1)] .
  note d1 = ok(3)
  from ok(2,5) show ?thesis
  proof (cases rule: check_member)
    case (passed x v2)
    note role = passed(1) and d2 = passed(3)
    define a where "a = (if uuidPtrEqual (task_AssigneeID t') (uti_AssigneeID input) then None else uti_AssigneeID input)"
    have "(case uti_AssigneeID input of None \<Rightarrow> State_Monad.return (Inr '''')
        | Some a \<Rightarrow> if \<not> uuidPtrEqual (task_AssigneeID t') (uti_AssigneeID input)
            then tsv_GetMemberRole S (task_TeamID t') a else State_Monad.return (Inr '''')) =
        (case a of None \<Rightarrow> State_Monad.return (Inr '''') | Some u \<Rightarrow> tsv_GetMemberRole S (task_TeamID t') u)"
      by (auto simp: a_def split: option.splits)
    from passed(2) passed(5) [unfolded this] show ?thesis
    proof (cases rule: check_assignee)
      case (passed y v3)
      with role d1 d2 t show ?thesis by (auto simp: may_update_def a_def split: if_splits)
    qed simp
  qed simp
qed simp

lemma update_write_changed:
  assumes w: "good w" and run: "run_state (update_write S c i input t) w = (Inr u, w')"
  shows "\<exists>now. u = (apply_update input t)\<lparr>task_UpdatedAt := now\<rparr> \<and> good w' \<and>
    changed u (update_entries (tsv_String S) t input i c now) (data w) (data w')"
proof -
  let ?u = "\<lambda>now. (apply_update input t)\<lparr>task_UpdatedAt := now\<rparr>"
  let ?es = "update_entries (tsv_String S) t input i c"
  from now_quiet w run [unfolded update_write_def buildHistoryEntries_eq prod.case]
  obtain now v where v: "good v" "data v = data w"
    and upd: "run_state (try_or (errorf ''task.Service.Update: update task: '')
      (tsv_UpdateTaskWithHistory S (?u now) (?es now))
      (\<lambda>_. tsv_Invalidate S (cachePattern (tsv_String S) (task_TeamID t)) \<bind>
         (\<lambda>_. State_Monad.return (Inr (?u now))))) v = (Inr u, w')"
    by (rule quiet_bind_step) (auto simp: Let_def update_entries_def buildHistoryEntries_eq apply_update_def)
  from upd show ?thesis
  proof (cases rule: try_or_cases)
    case (ok x v2)
    then obtain y where "run_state (tsv_Invalidate S (cachePattern (tsv_String S) (task_TeamID t))) v2 = (y, w')"
      and "u = ?u now" by (auto split: prod.splits)
    with cache_keeps(3) storesD [OF update_stores v(1) ok(1)] update_run [OF v(1) ok(1)] v(2) show ?thesis
      by (intro exI [of _ now]) auto
  qed simp
qed

end

section \<open>Checks stay valid\<close>

lemma steps_assignees:
  assumes "(svc_step allowed srv rds rt cfg)\<^sup>*\<^sup>* w w'" and "sys_inv srv rds rt w" and "assignees_ok (db w)"
  shows "assignees_ok (db w')"
  using assms
proof (induction rule: rtranclp_induct)
  case (step y z)
  then show ?case using steps_kept [OF step(1)] step_assignees by blast
qed simp

lemma may_create_kept: "kept d d' \<Longrightarrow> may_create (role_view d) c input \<Longrightarrow> may_create (role_view d') c input"
  unfolding may_create_def kept_def by blast

text \<open>C10. The checks of a creation stay valid until the task is written, whatever other requests are
  served in between: at that time the caller and the assignee are still members, exactly the new
  task is added, and all assignees are members of the teams of their tasks.\<close>

theorem checks_stay_valid:
  assumes "server_laws srv" and "redis_laws rds" and "runtime_laws rt" and "reachable allowed srv rds rt cfg w"
    and "run_state (create_check (taskSvc srv rds rt cfg) c input) w = (Inr (), v)"
    and "(svc_step allowed srv rds rt cfg)\<^sup>*\<^sup>* v v'"
    and "run_state (create_write (taskSvc srv rds rt cfg) c input) v' = (Inr t, w')"
  shows "task_for input c t \<and> may_create (role_view (db v')) c input \<and>
    task_saved task_view (\<lambda>d. (history_view d, team_members d, other_tables d)) (stored_task srv) t (db v') (db w') \<and>
    (\<forall>i x a. task_view (db w') i = Some x \<and> task_AssigneeID x = Some a \<longrightarrow> role_view (db w') (task_TeamID x) a \<noteq> None)"
proof -
  note inv = reachable_sys_inv [OF assms(1-4)]
  from task_svc.create_check_passed [OF inv assms(5)]
  have may: "may_create (role_view (db w)) c input" and v: "sys_inv srv rds rt v" "db v = db w" by auto
  from steps_kept [OF assms(6) v(1)] have v': "sys_inv srv rds rt v'" "kept (db v) (db v')" by auto
  have may': "may_create (role_view (db v')) c input" using may_create_kept [OF v'(2)] may v(2) by simp
  have "assignees_ok (db v')"
    using steps_assignees [OF assms(6) v(1)] reachable_assignees [OF assms(1-4)] v(2) by simp
  moreover note written = task_svc.create_write_saved [OF v'(1) assms(7)]
  ultimately have "assignees_ok (db w')" using assignees_ok_saved may' by blast
  with written may' show ?thesis unfolding assignees_ok_def by blast
qed

text \<open>Between the check and the write of a creation Alice demotes herself to a plain member.\<close>

lemma checks_stay_valid_witness:
  "\<exists>t w'. run_state (create_write ex_tasks alice ex_input)
      (snd (run_state (team_Invite ex_teams alice ex_team alice) (snd (run_state (create_check ex_tasks alice ex_input) w_invited)))) = (Inr t, w') \<and>
     task_for ex_input alice t \<and> role_view (db w') ex_team alice = Some RoleMember"
proof -
  let ?v = "snd (run_state (create_check ex_tasks alice ex_input) w_invited)"
  let ?v' = "snd (run_state (team_Invite ex_teams alice ex_team alice) ?v)"
  let ?m = "run_state (create_write ex_tasks alice ex_input) ?v'"
  have "fst (run_state (create_check ex_tasks alice ex_input) w_invited) = Inr ()" by code_simp
  note check = run_pair [OF this]
  have "svc_step (\<lambda>f. True) plain_server plain_redis plain_runtime plain_config ?v ?v'"
    by (rule team_invite) (rule prod.collapse [symmetric])
  note step = r_into_rtranclp [where r = "svc_step _ _ _ _ _", OF this]
  have role: "role_view (db (snd ?m)) ex_team alice = Some RoleMember" by code_simp
  have "\<not> isl (fst ?m)" by code_simp
  then obtain t where t: "?m = (Inr t, snd ?m)" by (cases "fst ?m") (auto dest: run_pair)
  from checks_stay_valid [OF plain_laws ex_reachable(3) check step t] t role show ?thesis by auto
qed

section \<open>Lost updates\<close>

text \<open>C11. An update writes back the whole task as it was read at its check: whatever other requests
  changed in between is overwritten, except the columns that no update touches, although the
  history has recorded it.\<close>

theorem update_overwrites:
  assumes "server_laws srv" and "redis_laws rds" and "runtime_laws rt" and "reachable allowed srv rds rt cfg w"
    and "run_state (update_check (taskSvc srv rds rt cfg) c i input) w = (Inr t, v)"
    and "(svc_step allowed srv rds rt cfg)\<^sup>*\<^sup>* v v'"
    and "run_state (update_write (taskSvc srv rds rt cfg) c i input t) v' = (Inr u, w')"
  shows "task_view (db w) i = Some t \<and>
    (\<exists>now s x. u = (apply_update input t)\<lparr>task_UpdatedAt := now\<rparr> \<and> stored_task srv u = Some s \<and>
       task_view (db v') i = Some x \<and> task_view (db w') i = Some (replace_task s x)) \<and>
    (\<exists>es fs. history_view (db v') i = history_view (db w) i @ es \<and> history_view (db w') i = history_view (db w) i @ es @ fs)"
proof -
  note inv = reachable_sys_inv [OF assms(1-4)]
  from task_svc.update_check_passed [OF inv assms(5)]
  have t: "task_view (db w) i = Some t" and v: "sys_inv srv rds rt v" "db v = db w" by auto
  from steps_kept [OF assms(6) v(1)] have v': "sys_inv srv rds rt v'" "kept (db v) (db v')" by auto
  from task_svc.update_write_changed [OF v'(1) assms(7)] obtain now where
    u: "u = (apply_update input t)\<lparr>task_UpdatedAt := now\<rparr>" and
    changed: "task_changed task_view history_view (\<lambda>d. (team_members d, other_tables d)) (stored_task srv) (entry_stored srv)
      replace_task u (update_entries (rt_String rt) t input i c now) (db v') (db w')" by auto
  have i: "task_ID u = i" using task_view_ID [OF t] u by (simp add: apply_update_def)
  from v'(2) v(2) t obtain x where x: "task_view (db v') i = Some x" unfolding kept_def by metis
  from changed i x obtain s where "stored_task srv u = Some s" "task_view (db w') i = Some (replace_task s x)"
    unfolding task_changed_def by auto
  moreover from kept_changed [OF changed] v'(2) v(2)
  have "\<exists>fs. history_view (db w') i = history_view (db v') i @ fs" "\<exists>es. history_view (db v') i = history_view (db w) i @ es"
    unfolding kept_def by auto
  ultimately show ?thesis using t u x by auto
qed

definition ex_title :: UpdateTaskInput where
  "ex_title = \<lparr>uti_Title = Some ''ship'', uti_Description = None, uti_Status = None, uti_AssigneeID = None,
     uti_DueDate = None, uti_Priority = None\<rparr>"

definition w_checked :: world where
  "w_checked = snd (run_state (update_check ex_tasks bob ex_task ex_title) w_task)"

definition w_between :: world where
  "w_between = snd (run_state (task_Update ex_tasks alice ex_task ex_change) w_checked)"

text \<open>Bob renames the task; between his check and his write Alice sets it to done: it is to do again.\<close>

lemma update_overwrites_witness:
  "\<exists>t u w'. run_state (update_check ex_tasks bob ex_task ex_title) w_task = (Inr t, w_checked) \<and>
     run_state (update_write ex_tasks bob ex_task ex_title t) w_between = (Inr u, w') \<and>
     map_option task_Status (task_view (db w_between) ex_task) = Some ''done'' \<and>
     map_option task_Status (task_view (db w') ex_task) = Some ''todo'' \<and>
     (\<exists>es fs. history_view (db w') ex_task = history_view (db w_task) ex_task @ es @ fs)"
proof -
  let ?c = "run_state (update_check ex_tasks bob ex_task ex_title) w_task"
  let ?m = "\<lambda>t. run_state (update_write ex_tasks bob ex_task ex_title t) w_between"
  have "map_sum (\<lambda>_. ()) (\<lambda>t. \<not> isl (fst (?m t)) \<and>
      map_option task_Status (task_view (db (snd (?m t))) ex_task) = Some ''todo'') (fst ?c) = Inr True" by code_simp
  then obtain t where t: "?c = (Inr t, w_checked)" and ok: "\<not> isl (fst (?m t))"
    and todo: "map_option task_Status (task_view (db (snd (?m t))) ex_task) = Some ''todo''"
    unfolding w_checked_def by (cases "fst ?c") (auto dest: run_pair)
  have fin: "map_option task_Status (task_view (db w_between) ex_task) = Some ''done''" by code_simp
  have "svc_step (\<lambda>f. True) plain_server plain_redis plain_runtime plain_config w_checked w_between"
    unfolding w_between_def by (rule task_update) (rule prod.collapse [symmetric])
  note step = r_into_rtranclp [where r = "svc_step _ _ _ _ _", OF this]
  from ok obtain u where u: "?m t = (Inr u, snd (?m t))" by (cases "fst (?m t)") (auto dest: run_pair)
  from update_overwrites [OF plain_laws ex_reachable(4) t step u] t u todo fin show ?thesis by blast
qed

section \<open>A stale page\<close>


end
