(* ===== verification/Genschema.thy ===== *)
theory Genschema
  imports Slogx "HOL-Library.List_Lexorder" "HOL-Library.Char_ord"
begin

text \<open>
  \<open>scripts/genschema\<close>: the diagram of the tables in the README.  The script reads the
  \<open>CREATE TABLE\<close> statements of the migrations line by line and replaces the text between two
  markers.  The texts are ASCII; each regular expression is a deterministic matcher, tried at
  every position.
\<close>

section \<open>Texts\<close>

definition is_space :: "char \<Rightarrow> bool" where
  "is_space c \<longleftrightarrow> c \<in> {CHR 0x09, CHR 0x0A, CHR 0x0B, CHR 0x0C, CHR 0x0D, CHR '' ''}"

definition is_word :: "char \<Rightarrow> bool" where
  "is_word c \<longleftrightarrow> (let n = of_char c :: nat in 48 \<le> n \<and> n \<le> 57 \<or> 65 \<le> n \<and> n \<le> 90 \<or> n = 95 \<or> 97 \<le> n \<and> n \<le> 122)"

definition TrimSpace :: "string \<Rightarrow> string" where
  "TrimSpace s = rev (dropWhile is_space (rev (dropWhile is_space s)))"

fun fields_from :: "string \<Rightarrow> string \<Rightarrow> string list" where
  "fields_from w [] = (if w = [] then [] else [rev w])"
| "fields_from w (c # s) =
     (if is_space c then (if w = [] then fields_from [] s else rev w # fields_from [] s) else fields_from (c # w) s)"

definition Fields :: "string \<Rightarrow> string list" where
  "Fields s = fields_from [] s"

definition ToLower :: "string \<Rightarrow> string" where
  "ToLower s = map lower_char s"

fun Index :: "string \<Rightarrow> string \<Rightarrow> nat option" where
  "Index [] sub = (if sub = [] then Some 0 else None)"
| "Index (c # s) sub = (if take (length sub) (c # s) = sub then Some 0 else map_option Suc (Index s sub))"

section \<open>Regular expressions\<close>

definition lit :: "string \<Rightarrow> string \<Rightarrow> string option" where
  "lit p s = (if ToLower (take (length p) s) = ToLower p then Some (drop (length p) s) else None)"

definition many1 :: "(char \<Rightarrow> bool) \<Rightarrow> string \<Rightarrow> (string \<times> string) option" where
  "many1 P s = (if takeWhile P s = [] then None else Some (takeWhile P s, dropWhile P s))"

fun find_match :: "(string \<Rightarrow> 'a option) \<Rightarrow> string \<Rightarrow> 'a option" where
  "find_match f [] = f []"
| "find_match f (c # s) = (case f (c # s) of Some x \<Rightarrow> Some x | None \<Rightarrow> find_match f s)"

definition reCreateTable :: "string \<Rightarrow> string option" where
  "reCreateTable = find_match (\<lambda>s.
     Option.bind (lit ''CREATE TABLE IF NOT EXISTS '' s) (\<lambda>s. map_option fst (many1 is_word s)))"

definition rePK :: "string \<Rightarrow> string option" where
  "rePK = find_match (\<lambda>s.
     Option.bind (lit ''PRIMARY KEY'' s) (\<lambda>s.
     Option.bind (lit ''('' (dropWhile is_space s)) (\<lambda>s.
     Option.bind (many1 (\<lambda>c. c \<noteq> CHR '')'') s) (\<lambda>(cols, s).
     map_option (\<lambda>_. cols) (lit '')'' s)))))"

definition reUK :: "string \<Rightarrow> string option" where
  "reUK = find_match (\<lambda>s.
     Option.bind (lit ''UNIQUE KEY '' s) (\<lambda>s.
     Option.bind (many1 is_word s) (\<lambda>(_, s).
     Option.bind (lit '' ('' s) (\<lambda>s.
     Option.bind (many1 is_word s) (\<lambda>(col, s).
     map_option (\<lambda>_. col) (lit '')'' s))))))"

definition reFK :: "string \<Rightarrow> (string \<times> string) option" where
  "reFK = find_match (\<lambda>s.
     Option.bind (lit ''FOREIGN KEY'' s) (\<lambda>s.
     Option.bind (lit ''('' (dropWhile is_space s)) (\<lambda>s.
     Option.bind (many1 is_word s) (\<lambda>(src, s).
     Option.bind (lit '')'' s) (\<lambda>s.
     Option.bind (lit ''REFERENCES'' (dropWhile is_space s)) (\<lambda>s.
     Option.bind (many1 is_space s) (\<lambda>(_, s).
     map_option (\<lambda>(dst, _). (src, dst)) (many1 is_word s))))))))"

section \<open>Parsing the migrations\<close>

record column =
  col_name :: string
  col_typ :: string
  col_pk :: bool
  col_fk :: bool
  col_uk :: bool

record foreignKey =
  fk_srcCol :: string
  fk_dstTable :: string

record table =
  tbl_name :: string
  tbl_cols :: "column list"
  tbl_fks :: "foreignKey list"

definition skipPrefixes :: "string list" where
  "skipPrefixes = [''primary key'', ''unique key'', ''constraint'', ''key '', ''index '', '') engine'', '')'']"

definition skipKeywords :: "string list" where
  "skipKeywords = [''primary'', ''unique'', ''constraint'', ''key'', ''index'']"

definition mark :: "string \<Rightarrow> (column \<Rightarrow> column) \<Rightarrow> table \<Rightarrow> table" where
  "mark name f cur = cur\<lparr>tbl_cols := map (\<lambda>c. if col_name c = name then f c else c) (tbl_cols cur)\<rparr>"

definition markPKColumns :: "string \<Rightarrow> table \<Rightarrow> table" where
  "markPKColumns colList cur = fold (\<lambda>c. mark (TrimSpace c) (\<lambda>x. x\<lparr>col_pk := True\<rparr>)) (Split (CHR '','') colList) cur"

definition markUKColumn :: "string \<Rightarrow> table \<Rightarrow> table" where
  "markUKColumn name cur = mark name (\<lambda>x. x\<lparr>col_uk := True\<rparr>) cur"

definition addFK :: "string \<Rightarrow> string \<Rightarrow> table \<Rightarrow> table" where
  "addFK src dst cur =
     mark src (\<lambda>x. x\<lparr>col_fk := True\<rparr>) (cur\<lparr>tbl_fks := tbl_fks cur @ [\<lparr>fk_srcCol = src, fk_dstTable = dst\<rparr>]\<rparr>)"

text \<open>
  \<open>normalizeType\<close> is only called on a field, which is neither empty nor has spaces; the base type
  ends at an opening parenthesis that is not the first character.
\<close>

definition normalizeType :: "string \<Rightarrow> string" where
  "normalizeType s =
     (let t = ToLower s; u = (case Index t ''('' of Some i \<Rightarrow> if 0 < i then take i t else t | None \<Rightarrow> t)
      in hd (Fields u))"

definition addColumnIfValid :: "string \<Rightarrow> table \<Rightarrow> table" where
  "addColumnIfValid trimmed cur =
     (case Fields trimmed of
        name # typ # _ \<Rightarrow>
          if ToLower name \<in> set skipKeywords then cur
          else cur\<lparr>tbl_cols := tbl_cols cur @ [\<lparr>col_name = name, col_typ = normalizeType typ, col_pk = False, col_fk = False, col_uk = False\<rparr>]\<rparr>
      | _ \<Rightarrow> cur)"

definition shouldSkip :: "string \<Rightarrow> bool" where
  "shouldSkip lower \<longleftrightarrow> list_ex (HasPrefix lower) skipPrefixes \<or> lower = '''' \<or> HasPrefix lower ''--''"

definition processTableLine :: "string \<Rightarrow> string \<Rightarrow> table \<Rightarrow> table" where
  "processTableLine trimmed lower cur =
     (case rePK trimmed of Some cols \<Rightarrow> markPKColumns cols cur
      | None \<Rightarrow>
     (case reUK trimmed of Some c \<Rightarrow> markUKColumn (TrimSpace c) cur
      | None \<Rightarrow>
     (case reFK trimmed of Some (src, dst) \<Rightarrow> addFK (TrimSpace src) (TrimSpace dst) cur
      | None \<Rightarrow> if \<not> shouldSkip lower then addColumnIfValid trimmed cur else cur)))"

text \<open>One line of a file: the finished tables and the open one.\<close>

definition parse_line :: "string \<Rightarrow> table list \<times> table option \<Rightarrow> table list \<times> table option" where
  "parse_line raw st =
     (case st of (tables, cur) \<Rightarrow>
        let trimmed = TrimSpace raw; lower = ToLower trimmed in
        case reCreateTable trimmed of
          Some name \<Rightarrow> (tables, Some \<lparr>tbl_name = name, tbl_cols = [], tbl_fks = []\<rparr>)
        | None \<Rightarrow>
            (case cur of
               None \<Rightarrow> (tables, None)
             | Some t \<Rightarrow> if HasPrefix lower '')'' then (tables @ [t], None) else (tables, Some (processTableLine trimmed lower t))))"

definition parseSQL :: "string \<Rightarrow> table list" where
  "parseSQL sql = fst (fold parse_line (Split (CHR 0x0A) sql) ([], None))"

text \<open>
  The files of the project: their contents, the errors of reading and writing them, and what
  \<open>filepath.Glob\<close> finds; \<open>sort.Strings\<close> orders names by their bytes.
\<close>

record disk =
  dk_files :: "string \<Rightarrow> string option"
  dk_read_error :: "string \<Rightarrow> err option"
  dk_write_error :: "string \<Rightarrow> err option"
  dk_Glob :: "string \<Rightarrow> err + string list"

definition ReadFile :: "disk \<Rightarrow> string \<Rightarrow> err + string" where
  "ReadFile d path =
     (case dk_read_error d path of
        Some e \<Rightarrow> Inl e
      | None \<Rightarrow>
          (case dk_files d path of
             None \<Rightarrow> Inl (ErrorString (''open '' @ path @ '': no such file or directory''))
           | Some data \<Rightarrow> Inr data))"

definition WriteFile :: "disk \<Rightarrow> string \<Rightarrow> string \<Rightarrow> disk \<times> err option" where
  "WriteFile d path data =
     (case dk_write_error d path of
        Some e \<Rightarrow> (d, Some e)
      | None \<Rightarrow> (d\<lparr>dk_files := (dk_files d)(path \<mapsto> data)\<rparr>, None))"

definition parseMigrations :: "disk \<Rightarrow> string \<Rightarrow> err + table list" where
  "parseMigrations d dir =
     and_then (dk_Glob d (dir @ ''/*.up.sql'')) (\<lambda>files.
     and_then (traverse (ReadFile d) (sort files)) (\<lambda>datas.
       Inr (concat (map parseSQL datas))))"

section \<open>The diagram\<close>

definition nl :: string where "nl = [CHR 0x0A]"

definition column_attr :: "column \<Rightarrow> string" where
  "column_attr c =
     (if col_pk c \<and> col_fk c then '' PK,FK'' else if col_pk c then '' PK''
      else if col_fk c then '' FK'' else if col_uk c then '' UK'' else '''')"

definition mermaidERD :: "table list \<Rightarrow> string" where
  "mermaidERD tables =
     ''```mermaid'' @ nl @ ''erDiagram'' @ nl @
     concat (map (\<lambda>t. ''    '' @ tbl_name t @ '' {'' @ nl @
       concat (map (\<lambda>c. ''        '' @ col_typ c @ '' '' @ col_name c @ column_attr c @ nl) (tbl_cols t)) @
       ''    }'' @ nl) tables) @
     concat (map (\<lambda>t. concat (map (\<lambda>fk. ''    '' @ fk_dstTable fk @ '' ||--o{ '' @ tbl_name t @ '' : '' @ Quote (fk_srcCol fk) @ nl)
       (tbl_fks t))) tables) @ ''```''"

definition startMarker :: string where "startMarker = ''<!-- schema:start -->''"
definition endMarker :: string where "endMarker = ''<!-- schema:end -->''"

text \<open>The new contents of the README, or the error; \<open>patchReadme\<close> reads and writes the file.\<close>

definition patched :: "string \<Rightarrow> string \<Rightarrow> string \<Rightarrow> err + string" where
  "patched path src content =
     (let failed = Inl (ErrorString (''markers '' @ Quote startMarker @ '' / '' @ Quote endMarker @ '' not found in '' @ path)) in
      case (Index src startMarker, Index src endMarker) of
        (Some si, Some ei) \<Rightarrow>
          if ei \<le> si then failed
          else Inr (take (si + length startMarker) src @ nl @ content @ nl @ drop ei src)
      | _ \<Rightarrow> failed)"

definition patchReadme :: "disk \<Rightarrow> string \<Rightarrow> string \<Rightarrow> disk \<times> err option" where
  "patchReadme d path content =
     (case ReadFile d path of
        Inl e \<Rightarrow> (d, Some e)
      | Inr src \<Rightarrow>
          (case patched path src content of
             Inl e \<Rightarrow> (d, Some e)
           | Inr out \<Rightarrow> WriteFile d path out))"

section \<open>The script\<close>

definition migrationsDir :: string where "migrationsDir = ''migrations''"
definition readmePath :: string where "readmePath = ''README.md''"

text \<open>How the script ends: exit code 1 and a line on standard error, or a line on standard output.\<close>

datatype script_end = Exit1 string | Printed string

text \<open>The dash is written as its three bytes.\<close>

definition genschema_main :: "disk \<Rightarrow> disk \<times> script_end" where
  "genschema_main d =
     (case parseMigrations d migrationsDir of
        Inl e \<Rightarrow> (d, Exit1 (''genschema: parse migrations: '' @ Error e @ nl))
      | Inr tables \<Rightarrow>
          (case patchReadme d readmePath (mermaidERD tables) of
             (d', Some e) \<Rightarrow> (d', Exit1 (''genschema: patch readme: '' @ Error e @ nl))
           | (d', None) \<Rightarrow>
               (d', Printed (''README.md '' @ [CHR 0xE2, CHR 0x80, CHR 0x94] @ '' Mermaid ER diagram updated.'' @ nl))))"

section \<open>Patching the README\<close>

lemma Index_Some:
  "Index s sub = Some i \<longleftrightarrow>
     i \<le> length s \<and> take (length sub) (drop i s) = sub \<and> (\<forall>j<i. take (length sub) (drop j s) \<noteq> sub)"
proof (induction s arbitrary: i)
  case Nil
  show ?case by auto
next
  case (Cons c s)
  show ?case
  proof (cases i)
    case 0
    then show ?thesis by (auto split: option.splits)
  next
    case (Suc k)
    have "(\<forall>j<Suc k. Q j) \<longleftrightarrow> Q 0 \<and> (\<forall>j<k. Q (Suc j))" for Q by (metis less_Suc_eq_0_disj)
    from this [of "\<lambda>j. take (length sub) (drop j (c # s)) \<noteq> sub"] Cons [of k] Suc show ?thesis by auto
  qed
qed

lemma Index_None: "Index s sub = None \<longleftrightarrow> (\<forall>j\<le>length s. take (length sub) (drop j s) \<noteq> sub)"
proof (induction s)
  case (Cons c s)
  have "(\<forall>j\<le>length (c # s). Q j) \<longleftrightarrow> Q 0 \<and> (\<forall>j\<le>length s. Q (Suc j))" for Q
    by (metis Suc_le_mono le0 length_Cons not0_implies_Suc)
  from this [of "\<lambda>j. take (length sub) (drop j (c # s)) \<noteq> sub"] Cons show ?case by simp
qed auto

text \<open>A text without line ends does not reach over one.\<close>

lemma before_newline:
  assumes "take (length sub) (drop j (a @ nl @ b)) = sub" and "CHR 0x0A \<notin> set sub" and "j \<le> length a"
  shows "take (length sub) (drop j a) = sub"
proof -
  have "length sub \<le> length a - j"
  proof (rule ccontr)
    assume "\<not> length sub \<le> length a - j"
    then have "length a - j < length sub" by simp
    then have "sub ! (length a - j) = take (length sub) (drop j (a @ nl @ b)) ! (length a - j)" using assms(1) by simp
    also have "\<dots> = CHR 0x0A" using \<open>length a - j < length sub\<close> assms(3) by (simp add: nth_append nl_def)
    finally show False using assms(2) \<open>length a - j < length sub\<close> by (metis nth_mem)
  qed
  with assms(1,3) show ?thesis by simp
qed


lemma markers:
  "CHR 0x0A \<notin> set startMarker" "CHR 0x0A \<notin> set endMarker" "length startMarker = 21" "length endMarker = 19"
  by (simp_all add: startMarker_def endMarker_def)

lemma taken_nth: "take n (drop i s) = sub \<Longrightarrow> k < length sub \<Longrightarrow> sub ! k = s ! (i + k)"
  by auto

lemma end_after_start:
  assumes "take 21 (drop i s) = startMarker" and "take 19 (drop j s) = endMarker" and "i < j"
  shows "i + 21 \<le> j"
proof (rule ccontr)
  assume "\<not> i + 21 \<le> j"
  define k where "k = j - i"
  with assms(3) \<open>\<not> i + 21 \<le> j\<close> have k: "j = i + k" "k \<in> {1..<21}" by auto
  have "startMarker ! k = s ! j" using taken_nth [OF assms(1), of k] k by (simp add: markers)
  also have "\<dots> = CHR ''<''" using taken_nth [OF assms(2), of 0] by (simp add: endMarker_def)
  finally have "startMarker ! k = CHR ''<''" .
  moreover have "\<forall>k\<in>{1..<21}. startMarker ! k \<noteq> CHR ''<''" by code_simp
  ultimately show False using k by blast
qed

text \<open>Where the markers are in a README, and where they are after patching.\<close>

lemma patch_cases:
  assumes "patched path src c = Inr out"
  obtains si ei where "Index src startMarker = Some si" "Index src endMarker = Some ei" "si + 21 \<le> ei" "ei + 19 \<le> length src"
    "out = take (si + 21) src @ nl @ c @ nl @ drop ei src"
proof -
  from assms obtain si ei where i: "Index src startMarker = Some si" "Index src endMarker = Some ei" "si < ei"
    and out: "out = take (si + 21) src @ nl @ c @ nl @ drop ei src"
    by (auto simp: patched_def Let_def markers split: option.splits if_splits)
  from i have "take 21 (drop si src) = startMarker" and e: "take 19 (drop ei src) = endMarker"
    by (simp_all add: Index_Some markers)
  with i(3) have "si + 21 \<le> ei" by (intro end_after_start)
  moreover from arg_cong [OF e, of length] have "ei + 19 \<le> length src" by (simp add: markers)
  ultimately show thesis using i out that by blast
qed

lemma patched_markers:
  assumes s: "Index src startMarker = Some si" and e: "Index src endMarker = Some ei" and "si + 21 \<le> ei" and "ei + 19 \<le> length src"
    and c: "Index c endMarker = None"
  defines "p \<equiv> take (si + 21) src"
  shows "Index (p @ nl @ c @ nl @ drop ei src) startMarker = Some si"
    and "Index (p @ nl @ c @ nl @ drop ei src) endMarker = Some (length p + 1 + length c + 1)"
proof -
  let ?out = "p @ nl @ c @ nl @ drop ei src"
  have p: "length p = si + 21" using assms(3,4) by (simp add: p_def)
  have pre: "take n (drop j p) = take n (drop j src)" if "j + n \<le> si + 21" for n j
    using that by (simp add: p_def drop_take min_def)
  have out: "take n (drop j ?out) = take n (drop j p)" if "j + n \<le> si + 21" for n j
    using that p by simp
  have same: "take 21 (drop j ?out) = take 21 (drop j src)" if "j \<le> si" for j
    by (rule trans [OF out pre]) (use that in simp_all)
  have "si \<le> length ?out" using p by simp
  with s [unfolded Index_Some markers] show "Index ?out startMarker = Some si"
    unfolding Index_Some markers by (metis less_imp_le order_refl same)
  have no_p: "take 19 (drop j ?out) \<noteq> endMarker" if "j < si + 22" for j
  proof
    assume "take 19 (drop j ?out) = endMarker"
    with before_newline [of endMarker j p "c @ nl @ drop ei src"] that p have m: "take 19 (drop j p) = endMarker"
      by (simp add: markers)
    moreover from arg_cong [OF m, of length] have "j + 19 \<le> si + 21" using p by (simp add: markers)
    ultimately have "take 19 (drop j src) = endMarker" "j < ei" using pre assms(3) by simp_all
    with e show False by (simp add: Index_Some markers)
  qed
  have no_c: "take 19 (drop j (c @ nl @ drop ei src)) \<noteq> endMarker" if "j < length c + 1" for j
    using before_newline [of endMarker j c "drop ei src"] that c by (auto simp: Index_None markers)
  show "Index ?out endMarker = Some (length p + 1 + length c + 1)"
    unfolding Index_Some
  proof (intro conjI allI impI)
    show "take (length endMarker) (drop (length p + 1 + length c + 1) ?out) = endMarker"
      using e by (simp add: Index_Some nl_def)
    show "take (length endMarker) (drop j ?out) \<noteq> endMarker" if j: "j < length p + 1 + length c + 1" for j
    proof (cases "j < si + 22")
      case True
      with no_p show ?thesis by (simp add: markers)
    next
      case False
      then obtain k where k: "j = length (p @ nl) + k" using p by (auto simp: nl_def not_less le_iff_add)
      have "?out = (p @ nl) @ c @ nl @ drop ei src" by simp
      then have "drop j ?out = drop k (c @ nl @ drop ei src)" unfolding k by (metis append_eq_conv_conj drop_drop add.commute)
      with no_c [of k] j k show ?thesis by (simp add: markers nl_def del: drop_append)
    qed
  qed (simp add: nl_def)
qed

text \<open>Patching the README replaces exactly the text between the markers and keeps everything else, and
  doing it again with another diagram is the same as doing it once with that one.\<close>

theorem patch_readme_again:
  assumes "patched path src c = Inr out" and "Index c endMarker = None"
  shows "patched path out c' = patched path src c' \<and>
    (\<exists>pre mid post. src = pre @ startMarker @ mid @ endMarker @ post \<and>
       out = pre @ startMarker @ nl @ c @ nl @ endMarker @ post)"
proof -
  from assms(1) obtain si ei where i: "Index src startMarker = Some si" "Index src endMarker = Some ei"
    "si + 21 \<le> ei" "ei + 19 \<le> length src" and out: "out = take (si + 21) src @ nl @ c @ nl @ drop ei src"
    by (rule patch_cases)
  note m = patched_markers [OF i assms(2), folded out]
  have p: "length (take (si + 21) src) = si + 21" using i(3,4) by simp
  have "patched path out c' = patched path src c'"
    using m i p unfolding patched_def Let_def by (simp add: markers out nl_def)
  moreover have s: "take 21 (drop si src) = startMarker" and e: "take 19 (drop ei src) = endMarker"
    using i by (simp_all add: Index_Some markers)
  have t: "take (si + 21) src = take si src @ startMarker" using s by (simp add: take_add)
  have d: "drop ei src = endMarker @ drop (ei + 19) src" using e by (metis add.commute append_take_drop_id drop_drop)
  have "src = take (si + 21) src @ take (ei - (si + 21)) (drop (si + 21) src) @ drop ei src"
    using i(3) by (metis append.assoc append_take_drop_id le_add_diff_inverse take_add)
  with t d out have "src = take si src @ startMarker @ take (ei - (si + 21)) (drop (si + 21) src) @ endMarker @ drop (ei + 19) src"
    "out = take si src @ startMarker @ nl @ c @ nl @ endMarker @ drop (ei + 19) src" by simp_all
  ultimately show ?thesis by blast
qed

lemma patch_readme_again_witness:
  "\<exists>out. patched ''README.md'' (''a'' @ startMarker @ ''old'' @ endMarker @ ''z'') ''new'' = Inr out \<and>
     patched ''README.md'' out ''new'' = Inr out"
proof -
  let ?src = "''a'' @ startMarker @ ''old'' @ endMarker @ ''z''"
  have "\<not> isl (patched ''README.md'' ?src ''new'')" by code_simp
  then obtain out where out: "patched ''README.md'' ?src ''new'' = Inr out" by (cases "patched ''README.md'' ?src ''new''") auto
  have "Index ''new'' endMarker = None" by code_simp
  from patch_readme_again [OF out this, of "''new''"] out show ?thesis by auto
qed

section \<open>Running the script\<close>

lemma main_cases:
  assumes "genschema_main d = (d', fin)"
  obtains (failed) msg where "d' = d" "fin = Exit1 msg"
  | (updated) tables src out line where "parseMigrations d migrationsDir = Inr tables" "ReadFile d readmePath = Inr src"
      "patched readmePath src (mermaidERD tables) = Inr out" "dk_write_error d readmePath = None"
      "d' = d\<lparr>dk_files := (dk_files d)(readmePath \<mapsto> out)\<rparr>" "fin = Printed line"
proof (cases "parseMigrations d migrationsDir")
  case (Inl e)
  with assms have "d' = d" "\<exists>msg. fin = Exit1 msg" by (auto simp: genschema_main_def)
  with that(1) show thesis by blast
next
  case parsed: (Inr tables)
  show thesis
  proof (cases "ReadFile d readmePath")
    case (Inl e)
    with assms parsed have "d' = d" "\<exists>msg. fin = Exit1 msg" by (auto simp: genschema_main_def patchReadme_def)
    with that(1) show thesis by blast
  next
    case (Inr src)
    have main: "genschema_main d =
        (case case patched readmePath src (mermaidERD tables) of Inl e \<Rightarrow> (d, Some e) | Inr out \<Rightarrow> WriteFile d readmePath out of
           (d', Some e) \<Rightarrow> (d', Exit1 (''genschema: patch readme: '' @ Error e @ nl))
         | (d', None) \<Rightarrow> (d', Printed (''README.md '' @ [CHR 0xE2, CHR 0x80, CHR 0x94] @ '' Mermaid ER diagram updated.'' @ nl)))"
      by (simp only: genschema_main_def patchReadme_def parsed Inr sum.case)
    show thesis
    proof (cases "(\<exists>e. patched readmePath src (mermaidERD tables) = Inl e) \<or> dk_write_error d readmePath \<noteq> None")
      case True
      with assms main have "d' = d \<and> (\<exists>msg. fin = Exit1 msg)"
        by (auto simp: WriteFile_def simp del: append.simps split: sum.splits option.splits)
      with that(1) show thesis by blast
    next
      case False
      then obtain out where out: "patched readmePath src (mermaidERD tables) = Inr out" "dk_write_error d readmePath = None"
        by (cases "patched readmePath src (mermaidERD tables)") auto
      with assms main have "d' = d\<lparr>dk_files := (dk_files d)(readmePath \<mapsto> out)\<rparr>" "\<exists>line. fin = Printed line"
        by (auto simp: WriteFile_def simp del: append.simps)
      with that(2) [OF parsed Inr out] show thesis by blast
    qed
  qed
qed

lemma traverse_cong: "(\<And>x. x \<in> set xs \<Longrightarrow> f x = g x) \<Longrightarrow> traverse f xs = traverse g xs"
  by (induction xs) (auto split: sum.splits)

lemma ReadFile_other: "path' \<noteq> path \<Longrightarrow> ReadFile (d\<lparr>dk_files := (dk_files d)(path \<mapsto> x)\<rparr>) path' = ReadFile d path'"
  by (simp add: ReadFile_def split: option.split)

lemma parseMigrations_other:
  assumes "\<And>files. dk_Glob d (dir @ ''/*.up.sql'') = Inr files \<Longrightarrow> path \<notin> set files"
  shows "parseMigrations (d\<lparr>dk_files := (dk_files d)(path \<mapsto> x)\<rparr>) dir = parseMigrations d dir"
proof (cases "dk_Glob d (dir @ ''/*.up.sql'')")
  case (Inr files)
  then have "traverse (ReadFile (d\<lparr>dk_files := (dk_files d)(path \<mapsto> x)\<rparr>)) (sort files) = traverse (ReadFile d) (sort files)"
    using assms by (intro traverse_cong ReadFile_other) auto
  with Inr show ?thesis by (simp add: parseMigrations_def)
qed (simp add: parseMigrations_def)


definition ex_disk :: disk where
  "ex_disk =
     \<lparr>dk_files = [''README.md'' \<mapsto> ''a'' @ startMarker @ ''old'' @ endMarker @ ''z'',
                  ''migrations/1.up.sql'' \<mapsto> ''CREATE TABLE IF NOT EXISTS t ('' @ nl @ ''id INT'' @ nl @ '')''],
      dk_read_error = (\<lambda>_. None), dk_write_error = (\<lambda>_. None),
      dk_Glob = (\<lambda>_. Inr [''migrations/1.up.sql''])\<rparr>"


end
