(* ===== verification/Loggers.thy ===== *)
theory Loggers
  imports Slogx
begin

text \<open>
  The loggers of \<open>pkg/slogx\<close>: values that share a pointer to their configuration, derived from
  one another, carried by a context, and writing records.  A pointer is a position in the list
  of all pointers created so far; the standard library's default logger has none.
\<close>

section \<open>Loggers\<close>

datatype log_handler = Dynamic nat DynamicHandler | StdDefault "handler_op list"

record Logger =
  lg_Handler :: log_handler
  lg_cfgPtr :: "nat option"

record logging =
  lo_pointers :: "log_state list"
  lo_default :: log_handler

definition Logger_New :: "(Config \<Rightarrow> Config) option list \<Rightarrow> logging \<Rightarrow> Logger \<times> logging" where
  "Logger_New opts st =
     (case slogx_New opts of (ptr, h) \<Rightarrow>
        (\<lparr>lg_Handler = Dynamic (length (lo_pointers st)) h, lg_cfgPtr = Some (length (lo_pointers st))\<rparr>,
         st\<lparr>lo_pointers := lo_pointers st @ [ptr]\<rparr>))"

definition NewNop :: "logging \<Rightarrow> Logger \<times> logging" where
  "NewNop = Logger_New [Some (WithOutput (Some ''io.Discard''))]"

definition SetupDefault :: "(Config \<Rightarrow> Config) option list \<Rightarrow> logging \<Rightarrow> logging" where
  "SetupDefault opts st = (case Logger_New opts st of (l, st') \<Rightarrow> st'\<lparr>lo_default := lg_Handler l\<rparr>)"

text \<open>\<open>pkg/logger\<close>: the loggers of the service and of its tests.\<close>

definition service_logger :: "string \<Rightarrow> logging \<Rightarrow> Logger \<times> logging" where
  "service_logger env st =
     (case logger_New env of (ptr, h) \<Rightarrow>
        (\<lparr>lg_Handler = Dynamic (length (lo_pointers st)) h, lg_cfgPtr = Some (length (lo_pointers st))\<rparr>,
         st\<lparr>lo_pointers := lo_pointers st @ [ptr]\<rparr>))"

definition logger_Nop :: "logging \<Rightarrow> Logger \<times> logging" where
  "logger_Nop = NewNop"

text \<open>Deriving a logger; \<open>log/slog\<close> ignores empty arguments.\<close>

fun handler_op :: "handler_op \<Rightarrow> log_handler \<Rightarrow> log_handler" where
  "handler_op (OpAttrs as) (Dynamic p h) = Dynamic p (WithAttrs as h)"
| "handler_op (OpGroup g) (Dynamic p h) = Dynamic p (WithGroup g h)"
| "handler_op c (StdDefault ops) = StdDefault (ops @ [c])"

definition Logger_With :: "attr list \<Rightarrow> Logger \<Rightarrow> Logger" where
  "Logger_With args l = (if args = [] then l else l\<lparr>lg_Handler := handler_op (OpAttrs args) (lg_Handler l)\<rparr>)"

definition Logger_WithGroup :: "string \<Rightarrow> Logger \<Rightarrow> Logger" where
  "Logger_WithGroup name l = (if name = '''' then l else l\<lparr>lg_Handler := handler_op (OpGroup name) (lg_Handler l)\<rparr>)"

text \<open>Changing the configuration; a logger without a pointer panics.\<close>

definition Logger_UpdateConfig :: "(Config \<Rightarrow> Config) \<Rightarrow> Logger \<Rightarrow> logging \<Rightarrow> logging option" where
  "Logger_UpdateConfig fn l st =
     (case lg_cfgPtr l of
        None \<Rightarrow> None
      | Some p \<Rightarrow> Some (st\<lparr>lo_pointers := (lo_pointers st)[p := UpdateConfig fn (lo_pointers st ! p)]\<rparr>))"

definition Logger_SetLevel :: "int \<Rightarrow> Logger \<Rightarrow> logging \<Rightarrow> logging option" where
  "Logger_SetLevel lvl = Logger_UpdateConfig (\<lambda>c. c\<lparr>lc_Level := lvl\<rparr>)"

section \<open>The context\<close>

text \<open>A context has a logger under the private key of the package, and values under strings.\<close>

record log_context =
  cx_logger :: "Logger option"
  cx_value :: "string \<Rightarrow> logvalue option"

definition FromContext :: "logging \<Rightarrow> log_context \<Rightarrow> Logger" where
  "FromContext st ctx =
     (case cx_logger ctx of Some l \<Rightarrow> l | None \<Rightarrow> \<lparr>lg_Handler = lo_default st, lg_cfgPtr = None\<rparr>)"

definition ToContext :: "log_context \<Rightarrow> Logger \<Rightarrow> log_context" where
  "ToContext ctx l = ctx\<lparr>cx_logger := Some l\<rparr>"

text \<open>The context that the middleware \<open>RequestID\<close> hands on.\<close>

definition request_context :: "Logger \<Rightarrow> string \<Rightarrow> log_context \<Rightarrow> log_context" where
  "request_context log requestID ctx =
     (let reqLog = Logger_With [Attr ''request_id'' (StringValue requestID)] log in ToContext ctx reqLog)"

section \<open>Writing\<close>

text \<open>
  A call writes nothing, a line, or panics.  The default handler of \<open>log/slog\<close> writes text from
  level INFO on.
\<close>

datatype log_line = Dropped | Line Format string "leaf list" | LogPanic

definition line_of :: "(Format \<times> string \<times> leaf list) option \<Rightarrow> log_line" where
  "line_of x = (case x of None \<Rightarrow> LogPanic | Some (fmt, out, ls) \<Rightarrow> Line fmt out ls)"

fun handler_Enabled :: "logging \<Rightarrow> log_handler \<Rightarrow> int \<Rightarrow> bool" where
  "handler_Enabled st (Dynamic p h) level = Enabled (lo_pointers st ! p) level"
| "handler_Enabled st (StdDefault ops) level = (LevelInfo \<le> level)"

definition Logger_Log ::
  "logging \<Rightarrow> log_context \<Rightarrow> string \<Rightarrow> int \<Rightarrow> string \<Rightarrow> attr list \<Rightarrow> Logger \<Rightarrow> log_line \<times> Logger" where
  "Logger_Log st ctx now level msg args l =
     (if \<not> handler_Enabled st (lg_Handler l) level then (Dropped, l)
      else let r = \<lparr>lr_Time = Some now, lr_Level = level, lr_Message = msg, lr_Attrs = args\<rparr> in
        case lg_Handler l of
          Dynamic p h \<Rightarrow>
            (case Handle (lo_pointers st ! p) (cx_value ctx) r h of
               (x, h') \<Rightarrow> (line_of x, l\<lparr>lg_Handler := Dynamic p h'\<rparr>))
        | StdDefault ops \<Rightarrow>
            (line_of (slog_Handle \<lparr>sh_Format = FormatText, sh_Output = ''log'', sh_Replace = Some, sh_ops = ops\<rparr> r), l))"

definition TraceContext :: "logging \<Rightarrow> log_context \<Rightarrow> string \<Rightarrow> string \<Rightarrow> attr list \<Rightarrow> Logger \<Rightarrow> log_line \<times> Logger" where
  "TraceContext st ctx now msg args l = Logger_Log st ctx now LevelTrace msg args l"

text \<open>The status with which the process ends, unless the handler panics first.\<close>

definition FatalContext :: "logging \<Rightarrow> log_context \<Rightarrow> string \<Rightarrow> string \<Rightarrow> attr list \<Rightarrow> Logger \<Rightarrow> log_line \<times> nat option" where
  "FatalContext st ctx now msg args l =
     (let line = fst (Logger_Log st ctx now LevelFatal msg args l)
      in (line, if line = LogPanic then None else Some 1))"

section \<open>Derived loggers\<close>

definition derive :: "handler_op list \<Rightarrow> Logger \<Rightarrow> Logger" where
  "derive = fold (\<lambda>c. case c of OpAttrs as \<Rightarrow> Logger_With as | OpGroup g \<Rightarrow> Logger_WithGroup g)"

fun added_attrs :: "handler_op list \<Rightarrow> attr list" where
  "added_attrs [] = []"
| "added_attrs (OpAttrs as # cs) = as @ added_attrs cs"
| "added_attrs (OpGroup g # cs) = added_attrs cs"

fun opened_groups :: "handler_op list \<Rightarrow> string list" where
  "opened_groups [] = []"
| "opened_groups (OpAttrs as # cs) = opened_groups cs"
| "opened_groups (OpGroup g # cs) = (if g = '''' then opened_groups cs else g # opened_groups cs)"

abbreviation fresh_handler :: "attr list \<Rightarrow> string list \<Rightarrow> DynamicHandler" where
  "fresh_handler as gs \<equiv> \<lparr>dh_attrs = as, dh_groups = gs, dh_cachedHandler = None, dh_cachedConfigVersion = None\<rparr>"

lemma derive_fresh:
  "derive cs \<lparr>lg_Handler = Dynamic p (fresh_handler as gs), lg_cfgPtr = q\<rparr> =
   \<lparr>lg_Handler = Dynamic p (fresh_handler (as @ added_attrs cs) (gs @ opened_groups cs)), lg_cfgPtr = q\<rparr>"
proof (induction cs arbitrary: as gs)
  case (Cons c cs)
  then show ?case
    by (cases c) (simp_all add: derive_def Logger_With_def Logger_WithGroup_def WithAttrs_def WithGroup_def)
qed (simp add: derive_def)

lemma derive_cfgPtr [simp]: "lg_cfgPtr (derive cs l) = lg_cfgPtr l"
proof (induction cs arbitrary: l)
  case (Cons c cs)
  then show ?case by (cases c) (simp_all add: derive_def Logger_With_def Logger_WithGroup_def)
qed (simp add: derive_def)

lemma derive_pointer: "lg_Handler l = Dynamic p h \<Longrightarrow> \<exists>h'. lg_Handler (derive cs l) = Dynamic p h'"
proof (induction cs arbitrary: l h)
  case (Cons c cs)
  let ?k = "case c of OpAttrs as \<Rightarrow> Logger_With as | OpGroup g \<Rightarrow> Logger_WithGroup g"
  from Cons.prems have "\<exists>h'. lg_Handler (?k l) = Dynamic p h'"
    by (cases c) (simp_all add: Logger_With_def Logger_WithGroup_def)
  with Cons.IH have "\<exists>h'. lg_Handler (derive cs (?k l)) = Dynamic p h'" by blast
  then show ?case by (simp add: derive_def)
qed (simp add: derive_def)

lemma map_filter_in: "x \<in> set xs \<Longrightarrow> f x = Some y \<Longrightarrow> y \<in> set (List.map_filter f xs)"
  by (force simp: List.map_filter_def)

lemma map_filter_sound: "y \<in> set (List.map_filter f xs) \<Longrightarrow> \<exists>x \<in> set xs. f x = Some y"
  by (auto simp: List.map_filter_def)

lemma visible_key: "visible l = Some (gs, k, v) \<Longrightarrow> k \<notin> {''password'', ''token'', ''secret''}"
  by (cases l) (simp add: visible_def split: if_splits)

lemma service_logger_pair:
  "service_logger env st =
    (\<lparr>lg_Handler = Dynamic (length (lo_pointers st)) (fresh_handler [] []), lg_cfgPtr = Some (length (lo_pointers st))\<rparr>,
     st\<lparr>lo_pointers := lo_pointers st @ [fst (logger_New env)]\<rparr>)"
  by (simp add: service_logger_def logger_New_def slogx_New_def Let_def)

lemma service_enabled: "Enabled (fst (logger_New env)) level \<longleftrightarrow> (if env = ''prod'' then LevelInfo else LevelDebug) \<le> level"
  by (simp add: Enabled_def Load_def logger_New_config service_config_def)

section \<open>Properties\<close>


definition ex_logging :: logging where
  "ex_logging = \<lparr>lo_pointers = [], lo_default = StdDefault []\<rparr>"


text \<open>A change of the configuration through any logger derived from one that was created reaches all
  loggers derived from it, whether they were derived before or later, and no other logger; the
  logger that stands in for a missing one in a context cannot be changed: the attempt panics.\<close>

theorem reconfigure_shared:
  assumes "Logger_New opts st = (log, st')"
  shows "(\<exists>st''. Logger_SetLevel lvl (derive cs log) st' = Some st'' \<and>
      (\<forall>ds level. handler_Enabled st'' (lg_Handler (derive ds log)) level \<longleftrightarrow> lvl \<le> level) \<and>
      (\<forall>p h level. p < length (lo_pointers st) \<longrightarrow>
         handler_Enabled st'' (Dynamic p h) level = handler_Enabled st (Dynamic p h) level)) \<and>
    (cx_logger ctx = None \<longrightarrow> Logger_SetLevel lvl (derive cs (FromContext st' ctx)) st' = None)"
proof
  let ?p = "length (lo_pointers st)"
  obtain ptr h where new: "slogx_New opts = (ptr, h)" by fastforce
  with assms have log: "log = \<lparr>lg_Handler = Dynamic ?p h, lg_cfgPtr = Some ?p\<rparr>"
    and st': "st' = st\<lparr>lo_pointers := lo_pointers st @ [ptr]\<rparr>" by (auto simp: Logger_New_def)
  let ?st = "st\<lparr>lo_pointers := lo_pointers st @ [SetLevel lvl ptr]\<rparr>"
  have "Logger_SetLevel lvl (derive cs log) st' = Some ?st"
    by (simp add: Logger_SetLevel_def Logger_UpdateConfig_def SetLevel_def log st')
  moreover have "handler_Enabled ?st (lg_Handler (derive ds log)) level \<longleftrightarrow> lvl \<le> level" for ds level
    using derive_pointer [of log ?p h ds] log
    by (auto simp: Enabled_def Load_def SetLevel_def UpdateConfig_def)
  moreover have "handler_Enabled ?st (Dynamic p k) level = handler_Enabled st (Dynamic p k) level"
    if "p < ?p" for p k level using that by (simp add: nth_append)
  ultimately show "\<exists>st''. Logger_SetLevel lvl (derive cs log) st' = Some st'' \<and>
      (\<forall>ds level. handler_Enabled st'' (lg_Handler (derive ds log)) level \<longleftrightarrow> lvl \<le> level) \<and>
      (\<forall>p h level. p < ?p \<longrightarrow> handler_Enabled st'' (Dynamic p h) level = handler_Enabled st (Dynamic p h) level)"
    by blast
  show "cx_logger ctx = None \<longrightarrow> Logger_SetLevel lvl (derive cs (FromContext st' ctx)) st' = None"
    by (simp add: Logger_SetLevel_def Logger_UpdateConfig_def FromContext_def)
qed

lemma reconfigure_shared_witness:
  "case Logger_New [] ex_logging of (log, st) \<Rightarrow>
     (\<exists>st'. Logger_SetLevel LevelWarn (Logger_WithGroup ''g'' log) st = Some st' \<and>
        \<not> handler_Enabled st' (lg_Handler log) LevelInfo \<and> handler_Enabled st (lg_Handler log) LevelInfo)"
proof -
  obtain log st where run: "Logger_New [] ex_logging = (log, st)" by fastforce
  have "derive [OpGroup ''g''] log = Logger_WithGroup ''g'' log" "derive [] log = log" by (simp_all add: derive_def)
  with reconfigure_shared [OF run, where lvl = LevelWarn and cs = "[OpGroup ''g'']"]
  obtain st' where st': "Logger_SetLevel LevelWarn (Logger_WithGroup ''g'' log) st = Some st'"
    and on: "\<And>ds level. handler_Enabled st' (lg_Handler (derive ds log)) level \<longleftrightarrow> LevelWarn \<le> level" by metis
  from on [of "[]"] have "\<not> handler_Enabled st' (lg_Handler log) LevelInfo"
    by (simp add: derive_def LevelWarn_def LevelInfo_def)
  moreover from run have "handler_Enabled st (lg_Handler log) LevelInfo"
    by (auto simp: Logger_New_def ex_logging_def slogx_New_def Enabled_def Load_def defaultOptions_def LevelTrace_def LevelInfo_def)
  ultimately show ?thesis using st' run by auto
qed

end
