(* ===== verification/Lifecycle.thy ===== *)
theory Lifecycle
  imports Http Slogx
begin

text \<open>
  Start and end of the process: \<open>internal/config\<close>, the connections
  (\<open>internal/storage/mysql/db.go\<close>, \<open>internal/storage/redis/client.go\<close>), the construction and the
  shutdown of the application (\<open>internal/app/app.go\<close>) and \<open>cmd/teamtasks/main.go\<close>.  The state is
  what the process holds: open pools and clients, whether the life-cycle context is cancelled,
  the background goroutines, and how long it slept.
\<close>

section \<open>Configuration\<close>

record Server_cfg =
  sc_Port :: int
  sc_ReadTimeout :: time
  sc_WriteTimeout :: time
  sc_ShutdownTimeout :: time

record Database_cfg =
  dc_Host :: string
  dc_Port :: int
  dc_Name :: string
  dc_User :: string
  dc_Password :: string
  dc_MaxOpenConns :: int
  dc_MaxIdleConns :: int
  dc_ConnMaxLifetime :: time

record Redis_cfg =
  rc_Addr :: string
  rc_Password :: string
  rc_DB :: int
  rc_PoolSize :: int
  rc_TaskListTTL :: time

record Auth_cfg =
  ac_JWTSecret :: string
  ac_JWTExpiry :: time

record RateLimit_cfg =
  lc_RequestsPerMinute :: int

record CircuitBreaker_cfg =
  cc_MaxRequests :: "32 word"
  cc_Interval :: time
  cc_Timeout :: time

record EmailService_cfg =
  ec_BaseURL :: string

record Config_file =
  cf_Env :: string
  cf_Server :: Server_cfg
  cf_Database :: Database_cfg
  cf_Redis :: Redis_cfg
  cf_Auth :: Auth_cfg
  cf_RateLimit :: RateLimit_cfg
  cf_CircuitBreaker :: CircuitBreaker_cfg
  cf_EmailService :: EmailService_cfg

definition Addr :: "Server_cfg \<Rightarrow> string" where
  "Addr s = '':'' @ fmt_d (sc_Port s)"

definition buildDSN :: "Database_cfg \<Rightarrow> string" where
  "buildDSN cfg =
     dc_User cfg @ '':'' @ dc_Password cfg @ ''@tcp('' @ dc_Host cfg @ '':'' @ fmt_d (dc_Port cfg) @ '')/'' @ dc_Name cfg @
     ''?parseTime=true&loc=UTC''"

section \<open>The process and the outside\<close>

record process =
  pr_dbs :: "nat list"
  pr_clients :: "nat list"
  pr_handles :: nat
  pr_pings :: nat
  pr_slept :: time
  pr_cancelled :: bool
  pr_cleanups :: nat

definition init_process :: process where
  "init_process = \<lparr>pr_dbs = [], pr_clients = [], pr_handles = 0, pr_pings = 0, pr_slept = 0, pr_cancelled = False, pr_cleanups = 0\<rparr>"

text \<open>
  The drivers: whether a DSN can be parsed, the answers to the pings in the order they are sent,
  the result of the server's graceful shutdown, and the configuration file.
\<close>

record infra_lib =
  il_OpenDB :: "string \<Rightarrow> err option"
  il_PingDB :: "nat \<Rightarrow> err option"
  il_PingRedis :: "nat \<Rightarrow> err option"
  il_Shutdown :: "err option"
  il_ReadConfig :: "string \<Rightarrow> err + Config_file"

record sql_pool =
  sp_handle :: nat
  sp_MaxOpenConns :: int
  sp_MaxIdleConns :: int
  sp_ConnMaxLifetime :: time

definition sqlx_Open :: "infra_lib \<Rightarrow> string \<Rightarrow> (process, err + nat) state" where
  "sqlx_Open il dsn = State (\<lambda>p.
     case il_OpenDB il dsn of
       Some e \<Rightarrow> (Inl e, p)
     | None \<Rightarrow> (Inr (pr_handles p), p\<lparr>pr_dbs := pr_handles p # pr_dbs p, pr_handles := Suc (pr_handles p)\<rparr>))"

definition db_Close :: "nat \<Rightarrow> (process, unit) state" where
  "db_Close d = State (\<lambda>p. ((), p\<lparr>pr_dbs := remove1 d (pr_dbs p)\<rparr>))"

text \<open>A client with its options: address, password, database number and pool size.\<close>

record redis_client =
  rcl_handle :: nat
  rcl_options :: "string \<times> string \<times> int \<times> int"

definition redis_NewClient :: "string \<times> string \<times> int \<times> int \<Rightarrow> (process, redis_client) state" where
  "redis_NewClient opts = State (\<lambda>p.
     (\<lparr>rcl_handle = pr_handles p, rcl_options = opts\<rparr>,
      p\<lparr>pr_clients := pr_handles p # pr_clients p, pr_handles := Suc (pr_handles p)\<rparr>))"

definition client_Close :: "nat \<Rightarrow> (process, unit) state" where
  "client_Close c = State (\<lambda>p. ((), p\<lparr>pr_clients := remove1 c (pr_clients p)\<rparr>))"

definition ping :: "(nat \<Rightarrow> err option) \<Rightarrow> (process, err option) state" where
  "ping answers = State (\<lambda>p. (answers (pr_pings p), p\<lparr>pr_pings := Suc (pr_pings p)\<rparr>))"

definition sleep :: "time \<Rightarrow> (process, unit) state" where
  "sleep d = State (\<lambda>p. ((), p\<lparr>pr_slept := pr_slept p + d\<rparr>))"

definition cancel :: "(process, unit) state" where
  "cancel = State (\<lambda>p. ((), p\<lparr>pr_cancelled := True, pr_cleanups := 0\<rparr>))"

definition maxRetries :: nat where
  "maxRetries = 10"

definition retryInterval :: time where
  "retryInterval = 3 * 1000000000"

section \<open>Connections\<close>

definition unavailable :: "string \<Rightarrow> err option \<Rightarrow> err" where
  "unavailable name lastErr =
     (let msg = name @ '': unavailable after '' @ fmt_d (int maxRetries) @ '' attempts: '' in
      case lastErr of None \<Rightarrow> ErrorString (msg @ ''%!w(<nil>)'') | Some e \<Rightarrow> errorf msg e)"

text \<open>The loop over the attempts that are left.\<close>

fun mysql_attempts :: "infra_lib \<Rightarrow> Database_cfg \<Rightarrow> nat \<Rightarrow> err option \<Rightarrow> (process, err + sql_pool) state" where
  "mysql_attempts il cfg 0 lastErr = State_Monad.return (Inl (unavailable ''mysql'' lastErr))"
| "mysql_attempts il cfg (Suc n) lastErr = do {
     opened \<leftarrow> sqlx_Open il (buildDSN cfg);
     case opened of
       Inl e \<Rightarrow> State_Monad.return (Inl (errorf ''mysql: invalid dsn: '' e))
     | Inr d \<Rightarrow> do {
         r \<leftarrow> ping (il_PingDB il);
         case r of
           None \<Rightarrow> State_Monad.return (Inr \<lparr>sp_handle = d, sp_MaxOpenConns = dc_MaxOpenConns cfg,
             sp_MaxIdleConns = dc_MaxIdleConns cfg, sp_ConnMaxLifetime = dc_ConnMaxLifetime cfg\<rparr>)
         | Some e \<Rightarrow> do {
             _ \<leftarrow> db_Close d;
             _ \<leftarrow> sleep retryInterval;
             mysql_attempts il cfg n (Some e) } } }"

definition mysql_New :: "infra_lib \<Rightarrow> Database_cfg \<Rightarrow> (process, err + sql_pool) state" where
  "mysql_New il cfg = mysql_attempts il cfg maxRetries None"

fun redis_attempts :: "infra_lib \<Rightarrow> redis_client \<Rightarrow> nat \<Rightarrow> err option \<Rightarrow> (process, err + redis_client) state" where
  "redis_attempts il client 0 lastErr = do {
     _ \<leftarrow> client_Close (rcl_handle client);
     State_Monad.return (Inl (unavailable ''redis'' lastErr)) }"
| "redis_attempts il client (Suc n) lastErr = do {
     r \<leftarrow> ping (il_PingRedis il);
     case r of
       None \<Rightarrow> State_Monad.return (Inr client)
     | Some e \<Rightarrow> do { _ \<leftarrow> sleep retryInterval; redis_attempts il client n (Some e) } }"

definition redis_New :: "infra_lib \<Rightarrow> Redis_cfg \<Rightarrow> (process, err + redis_client) state" where
  "redis_New il cfg = do {
     client \<leftarrow> redis_NewClient (rc_Addr cfg, rc_Password cfg, rc_DB cfg, rc_PoolSize cfg);
     redis_attempts il client maxRetries None }"

section \<open>The application\<close>

text \<open>The circuit breaker of the e-mail client trips at the third failure in a row.\<close>

record breaker_settings =
  bs_Name :: string
  bs_MaxRequests :: "32 word"
  bs_Interval :: time
  bs_Timeout :: time
  bs_ReadyToTrip :: "32 word \<Rightarrow> bool"

record EmailClient =
  ec_cb :: breaker_settings
  ec_baseURL :: string
  ec_timeout :: time

definition NewEmailClient :: "EmailService_cfg \<Rightarrow> CircuitBreaker_cfg \<Rightarrow> EmailClient" where
  "NewEmailClient cfg cbCfg =
     \<lparr>ec_cb = \<lparr>bs_Name = ''email-service'', bs_MaxRequests = cc_MaxRequests cbCfg, bs_Interval = cc_Interval cbCfg,
        bs_Timeout = cc_Timeout cbCfg, bs_ReadyToTrip = (\<lambda>consecutiveFailures. 3 \<le> consecutiveFailures)\<rparr>,
      ec_baseURL = ec_BaseURL cfg, ec_timeout = 5 * 1000000000\<rparr>"

text \<open>What the services get of the configuration.\<close>

definition service_settings :: "Config_file \<Rightarrow> config" where
  "service_settings cfg =
     \<lparr>cfg_JWTSecret = ac_JWTSecret (cf_Auth cfg), cfg_JWTExpiry = ac_JWTExpiry (cf_Auth cfg),
      cfg_TaskListTTL = rc_TaskListTTL (cf_Redis cfg),
      cfg_EmailBaseURL = ec_baseURL (NewEmailClient (cf_EmailService cfg) (cf_CircuitBreaker cfg)),
      cfg_RequestsPerMinute = lc_RequestsPerMinute (cf_RateLimit cfg)\<rparr>"

record App =
  app_addr :: string
  app_readTimeout :: time
  app_writeTimeout :: time
  app_settings :: config
  app_db :: sql_pool
  app_rdb :: redis_client

definition app_New :: "infra_lib \<Rightarrow> Config_file \<Rightarrow> (process, err + App) state" where
  "app_New il cfg = do {
     d \<leftarrow> mysql_New il (cf_Database cfg);
     case d of
       Inl e \<Rightarrow> do { _ \<leftarrow> cancel; State_Monad.return (Inl e) }
     | Inr pool \<Rightarrow> do {
         r \<leftarrow> redis_New il (cf_Redis cfg);
         case r of
           Inl e \<Rightarrow> do { _ \<leftarrow> cancel; _ \<leftarrow> db_Close (sp_handle pool); State_Monad.return (Inl e) }
         | Inr rdb \<Rightarrow> do {
             _ \<leftarrow> State (\<lambda>p. ((), p\<lparr>pr_cleanups := Suc (pr_cleanups p)\<rparr>));
             State_Monad.return (Inr \<lparr>app_addr = Addr (cf_Server cfg), app_readTimeout = sc_ReadTimeout (cf_Server cfg),
               app_writeTimeout = sc_WriteTimeout (cf_Server cfg), app_settings = service_settings cfg,
               app_db = pool, app_rdb = rdb\<rparr>) } } }"

definition app_Shutdown :: "infra_lib \<Rightarrow> App \<Rightarrow> (process, err option) state" where
  "app_Shutdown il a = do {
     _ \<leftarrow> cancel;
     let e = il_Shutdown il;
     _ \<leftarrow> db_Close (sp_handle (app_db a));
     _ \<leftarrow> client_Close (rcl_handle (app_rdb a));
     State_Monad.return e }"

section \<open>The main program\<close>

text \<open>What ends the wait of \<open>main\<close>: a signal, or an error of \<open>ListenAndServe\<close> other than \<open>ErrServerClosed\<close>.\<close>

datatype stop = SignalReceived string | ServerFailed err

datatype outcome = Exit nat | Panicked string

definition MustLoad :: "infra_lib \<Rightarrow> string \<Rightarrow> string + Config_file" where
  "MustLoad il path = (case il_ReadConfig il path of Inl e \<Rightarrow> Inl (''config: '' @ Error e) | Inr cfg \<Rightarrow> Inr cfg)"

definition main :: "infra_lib \<Rightarrow> string \<Rightarrow> stop \<Rightarrow> (process, outcome) state" where
  "main il cfgPath stop =
     (case MustLoad il cfgPath of
        Inl msg \<Rightarrow> State_Monad.return (Panicked msg)
      | Inr cfg \<Rightarrow> do {
          r \<leftarrow> app_New il cfg;
          case r of
            Inl e \<Rightarrow> State_Monad.return (Exit 1)
          | Inr a \<Rightarrow>
              (case stop of
                 ServerFailed e \<Rightarrow> State_Monad.return (Exit 1)
               | SignalReceived sig \<Rightarrow> do {
                   e \<leftarrow> app_Shutdown il a;
                   case e of Some x \<Rightarrow> State_Monad.return (Exit 1) | None \<Rightarrow> State_Monad.return (Exit 0) }) })"

section \<open>A concrete start\<close>

text \<open>MySQL answers the third ping; Redis answers from the fourth on, or never.\<close>

definition ex_config :: Config_file where
  "ex_config =
     \<lparr>cf_Env = ''local'',
      cf_Server = \<lparr>sc_Port = 8080, sc_ReadTimeout = 0, sc_WriteTimeout = 0, sc_ShutdownTimeout = 0\<rparr>,
      cf_Database = \<lparr>dc_Host = ''db'', dc_Port = 3306, dc_Name = ''tasks'', dc_User = ''app'', dc_Password = ''pw'',
        dc_MaxOpenConns = 25, dc_MaxIdleConns = 5, dc_ConnMaxLifetime = 0\<rparr>,
      cf_Redis = \<lparr>rc_Addr = ''redis:6379'', rc_Password = [], rc_DB = 0, rc_PoolSize = 10, rc_TaskListTTL = 300000000000\<rparr>,
      cf_Auth = \<lparr>ac_JWTSecret = ''secret'', ac_JWTExpiry = 3600000000000\<rparr>, cf_RateLimit = \<lparr>lc_RequestsPerMinute = 100\<rparr>,
      cf_CircuitBreaker = \<lparr>cc_MaxRequests = 1, cc_Interval = 0, cc_Timeout = 0\<rparr>, cf_EmailService = \<lparr>ec_BaseURL = ''http://mail''\<rparr>\<rparr>"

definition ex_infra :: "bool \<Rightarrow> infra_lib" where
  "ex_infra up =
     \<lparr>il_OpenDB = (\<lambda>_. None), il_PingDB = (\<lambda>i. if i < 2 then Some (DriverErr ''connection refused'') else None),
      il_PingRedis = (\<lambda>i. if up then None else Some (DriverErr ''i/o timeout'')), il_Shutdown = None,
      il_ReadConfig = (\<lambda>_. Inr ex_config)\<rparr>"

lemmas start_defs = main_def MustLoad_def app_New_def app_Shutdown_def mysql_New_def redis_New_def redis_NewClient_def maxRetries_def
  sqlx_Open_def ping_def sleep_def cancel_def db_Close_def client_Close_def ex_infra_def init_process_def eval_nat_numeral

section \<open>Properties\<close>

text \<open>
  A retry loop fails \<open>k\<close> pings and sleeps after each; then a ping succeeds, or all \<open>n\<close> attempts
  are used.
\<close>

definition retried :: "(nat \<Rightarrow> err option) \<Rightarrow> nat \<Rightarrow> nat \<Rightarrow> process \<Rightarrow> process \<Rightarrow> bool" where
  "retried answers n k p p' \<longleftrightarrow> k \<le> n \<and> (\<forall>j<k. answers (pr_pings p + j) \<noteq> None) \<and>
     pr_slept p' = pr_slept p + int k * retryInterval \<and> pr_cancelled p' = pr_cancelled p \<and> pr_cleanups p' = pr_cleanups p"

lemma retried_Suc:
  assumes "retried answers n k q p'" and "answers (pr_pings p) \<noteq> None" and "pr_pings q = Suc (pr_pings p)"
    and "pr_slept q = pr_slept p + retryInterval" and "pr_cancelled q = pr_cancelled p" and "pr_cleanups q = pr_cleanups p"
  shows "retried answers (Suc n) (Suc k) p p'"
proof -
  have "answers (pr_pings p + j) \<noteq> None" if "j < Suc k" for j
    using assms(1-3) that by (cases j) (auto simp: retried_def)
  with assms show ?thesis by (simp add: retried_def algebra_simps)
qed

lemma mysql_attempts_run:
  assumes "run_state (mysql_attempts il cfg n lastErr) p = (r, p')"
  shows "\<exists>k. retried (il_PingDB il) n k p p' \<and> pr_clients p' = pr_clients p \<and> pr_handles p \<le> pr_handles p' \<and>
    ((\<exists>pool. r = Inr pool \<and> k < n \<and> il_PingDB il (pr_pings p + k) = None \<and> pr_pings p' = pr_pings p + k + 1 \<and>
        pr_dbs p' = sp_handle pool # pr_dbs p \<and> sp_handle pool < pr_handles p') \<or>
     (\<exists>e. r = Inl e \<and> pr_dbs p' = pr_dbs p \<and> (il_OpenDB il (buildDSN cfg) \<noteq> None \<or> k = n)))"
  using assms
proof (induction n arbitrary: lastErr p)
  case 0
  then show ?case by (intro exI [of _ 0]) (auto simp: retried_def)
next
  case (Suc n)
  show ?case
  proof (cases "il_OpenDB il (buildDSN cfg)")
    case (Some e)
    with Suc.prems show ?thesis by (intro exI [of _ 0]) (auto simp: sqlx_Open_def retried_def)
  next
    case None
    show ?thesis
    proof (cases "il_PingDB il (pr_pings p)")
      case ok: None
      with None Suc.prems show ?thesis by (intro exI [of _ 0]) (auto simp: sqlx_Open_def ping_def retried_def)
    next
      case (Some e)
      let ?q = "p\<lparr>pr_handles := Suc (pr_handles p), pr_pings := Suc (pr_pings p), pr_slept := pr_slept p + retryInterval\<rparr>"
      from Some None Suc.prems have "run_state (mysql_attempts il cfg n (Some e)) ?q = (r, p')"
        by (simp add: sqlx_Open_def ping_def db_Close_def sleep_def)
      from Suc.IH [OF this] obtain k where "retried (il_PingDB il) n k ?q p'" and
        k: "pr_clients p' = pr_clients p" "Suc (pr_handles p) \<le> pr_handles p'"
          "(\<exists>pool. r = Inr pool \<and> k < n \<and> il_PingDB il (Suc (pr_pings p) + k) = None \<and> pr_pings p' = Suc (pr_pings p) + k + 1 \<and>
             pr_dbs p' = sp_handle pool # pr_dbs p \<and> sp_handle pool < pr_handles p') \<or>
           (\<exists>e. r = Inl e \<and> pr_dbs p' = pr_dbs p \<and> (il_OpenDB il (buildDSN cfg) \<noteq> None \<or> k = n))" by auto
      then have "retried (il_PingDB il) (Suc n) (Suc k) p p'" using Some by (intro retried_Suc [where q = ?q]) auto
      with k show ?thesis by (intro exI [of _ "Suc k"]) auto
    qed
  qed
qed

lemma redis_attempts_run:
  assumes "run_state (redis_attempts il c n lastErr) p = (r, p')"
  shows "\<exists>k. retried (il_PingRedis il) n k p p' \<and> pr_dbs p' = pr_dbs p \<and>
    (r = Inr c \<and> k < n \<and> il_PingRedis il (pr_pings p + k) = None \<and> pr_clients p' = pr_clients p \<or>
     (\<exists>e. r = Inl e \<and> k = n \<and> pr_clients p' = remove1 (rcl_handle c) (pr_clients p)))"
  using assms
proof (induction n arbitrary: lastErr p)
  case 0
  then show ?case by (intro exI [of _ 0]) (auto simp: retried_def client_Close_def)
next
  case (Suc n)
  show ?case
  proof (cases "il_PingRedis il (pr_pings p)")
    case None
    with Suc.prems show ?thesis by (intro exI [of _ 0]) (auto simp: ping_def retried_def)
  next
    case (Some e)
    let ?q = "p\<lparr>pr_pings := Suc (pr_pings p), pr_slept := pr_slept p + retryInterval\<rparr>"
    from Some Suc.prems have "run_state (redis_attempts il c n (Some e)) ?q = (r, p')"
      by (simp add: ping_def sleep_def)
    from Suc.IH [OF this] obtain k where "retried (il_PingRedis il) n k ?q p'" and
      k: "pr_dbs p' = pr_dbs p"
        "r = Inr c \<and> k < n \<and> il_PingRedis il (Suc (pr_pings p) + k) = None \<and> pr_clients p' = pr_clients p \<or>
         (\<exists>e. r = Inl e \<and> k = n \<and> pr_clients p' = remove1 (rcl_handle c) (pr_clients p))" by auto
    then have "retried (il_PingRedis il) (Suc n) (Suc k) p p'" using Some by (intro retried_Suc [where q = ?q]) auto
    with k show ?thesis by (intro exI [of _ "Suc k"]) auto
  qed
qed

lemma redis_New_run:
  assumes "run_state (redis_New il cfg) p = (r, p')"
  shows "\<exists>k. retried (il_PingRedis il) 10 k p p' \<and> pr_dbs p' = pr_dbs p \<and>
    ((\<exists>c. r = Inr c \<and> pr_clients p' = rcl_handle c # pr_clients p) \<or> (\<exists>e. r = Inl e \<and> k = 10 \<and> pr_clients p' = pr_clients p))"
proof -
  let ?q = "p\<lparr>pr_clients := pr_handles p # pr_clients p, pr_handles := Suc (pr_handles p)\<rparr>"
  let ?c = "\<lparr>rcl_handle = pr_handles p, rcl_options = (rc_Addr cfg, rc_Password cfg, rc_DB cfg, rc_PoolSize cfg)\<rparr>"
  from assms have "run_state (redis_attempts il ?c 10 None) ?q = (r, p')"
    by (simp add: redis_New_def redis_NewClient_def maxRetries_def)
  from redis_attempts_run [OF this] show ?thesis by (auto simp: retried_def)
qed

lemma app_New_cases:
  assumes "run_state (app_New il cfg) p = (r, p')"
  obtains (no_mysql) e k where "r = Inl e" "retried (il_PingDB il) 10 k p (p'\<lparr>pr_cancelled := pr_cancelled p, pr_cleanups := pr_cleanups p\<rparr>)"
      "il_OpenDB il (buildDSN (cf_Database cfg)) \<noteq> None \<or> k = 10"
      "pr_dbs p' = pr_dbs p" "pr_clients p' = pr_clients p" "pr_cancelled p'" "pr_cleanups p' = 0"
  | (no_redis) e q where "r = Inl e" "retried (il_PingRedis il) 10 10 q (p'\<lparr>pr_cancelled := pr_cancelled q, pr_cleanups := pr_cleanups q\<rparr>)"
      "pr_dbs p' = pr_dbs p" "pr_clients p' = pr_clients p" "pr_cancelled p'" "pr_cleanups p' = 0"
  | (started) a k q m where "r = Inr a" "retried (il_PingDB il) 10 k p q" "retried (il_PingRedis il) 10 m q (p'\<lparr>pr_cleanups := pr_cleanups q\<rparr>)"
      "k < 10" "pr_dbs p' = sp_handle (app_db a) # pr_dbs p" "pr_clients p' = rcl_handle (app_rdb a) # pr_clients p"
      "pr_cancelled p' = pr_cancelled p" "pr_cleanups p' = Suc (pr_cleanups p)"
proof -
  obtain d q where d: "run_state (mysql_New il (cf_Database cfg)) p = (d, q)" by fastforce
  from mysql_attempts_run [OF d [unfolded mysql_New_def maxRetries_def]] obtain k where
    k: "retried (il_PingDB il) 10 k p q" "pr_clients q = pr_clients p" and
    cases: "(\<exists>pool. d = Inr pool \<and> k < 10 \<and> pr_dbs q = sp_handle pool # pr_dbs p) \<or>
     (\<exists>e. d = Inl e \<and> pr_dbs q = pr_dbs p \<and> (il_OpenDB il (buildDSN (cf_Database cfg)) \<noteq> None \<or> k = 10))" by blast
  from cases consider (no) e where "d = Inl e" "pr_dbs q = pr_dbs p" "il_OpenDB il (buildDSN (cf_Database cfg)) \<noteq> None \<or> k = 10"
    | (yes) pool where "d = Inr pool" "k < 10" "pr_dbs q = sp_handle pool # pr_dbs p" by blast
  then show thesis
  proof cases
    case (no e)
    with assms d have "r = Inl e" "p' = q\<lparr>pr_cancelled := True, pr_cleanups := 0\<rparr>" by (simp_all add: app_New_def cancel_def)
    with k no show thesis by (intro no_mysql [of e k]) (simp_all add: retried_def)
  next
    case pool: (yes pool)
    obtain c v where c: "run_state (redis_New il (cf_Redis cfg)) q = (c, v)" by fastforce
    from redis_New_run [OF this] obtain m where m: "retried (il_PingRedis il) 10 m q v" "pr_dbs v = pr_dbs q" and
      cases: "(\<exists>x. c = Inr x \<and> pr_clients v = rcl_handle x # pr_clients q) \<or> (\<exists>e. c = Inl e \<and> m = 10 \<and> pr_clients v = pr_clients q)" by blast
    from cases show thesis
    proof (elim disjE exE conjE)
      fix x
      assume "c = Inr x" "pr_clients v = rcl_handle x # pr_clients q"
      with assms d pool c obtain a where "r = Inr a" "p' = v\<lparr>pr_cleanups := Suc (pr_cleanups v)\<rparr>" "app_db a = pool" "app_rdb a = x"
        by (auto simp: app_New_def)
      with pool m k \<open>pr_clients v = rcl_handle x # pr_clients q\<close> show thesis
        by (intro started [of a k q m]) (simp_all add: retried_def)
    next
      fix e
      assume "c = Inl e" "m = 10" "pr_clients v = pr_clients q"
      with assms d c pool m k show thesis
        by (intro no_redis [of e q]) (auto simp: app_New_def retried_def cancel_def db_Close_def)
    qed
  qed
qed

lemma app_New_open:
  assumes "run_state (app_New il cfg) p = (r, p')"
  shows "(case r of
      Inl e \<Rightarrow> pr_dbs p' = pr_dbs p \<and> pr_clients p' = pr_clients p \<and> pr_cancelled p' \<and> pr_cleanups p' = 0
    | Inr a \<Rightarrow> pr_dbs p' = sp_handle (app_db a) # pr_dbs p \<and> pr_clients p' = rcl_handle (app_rdb a) # pr_clients p \<and>
        pr_cancelled p' = pr_cancelled p \<and> pr_cleanups p' = Suc (pr_cleanups p))"
  using assms by (cases rule: app_New_cases) simp_all

text \<open>C29. Starting the application is all or nothing: on an error every pool and client that was opened
  is closed again, the context is cancelled and no goroutine is left; on success exactly one
  pool and one client are open and the cleanup goroutine runs.\<close>

theorem startup_all_or_nothing:
  assumes "run_state (app_New il cfg) p = (r, p')"
  shows "(case r of
      Inl e \<Rightarrow> pr_dbs p' = pr_dbs p \<and> pr_clients p' = pr_clients p \<and> pr_cancelled p' \<and> pr_cleanups p' = 0
    | Inr a \<Rightarrow> pr_dbs p' = sp_handle (app_db a) # pr_dbs p \<and> pr_clients p' = rcl_handle (app_rdb a) # pr_clients p \<and>
        pr_cancelled p' = pr_cancelled p \<and> pr_cleanups p' = Suc (pr_cleanups p))"
  by (rule app_New_open [OF assms])

lemma startup_all_or_nothing_witness:
  "(\<exists>e. fst (run_state (app_New (ex_infra False) ex_config) init_process) = Inl e) \<and>
   pr_dbs (snd (run_state (app_New (ex_infra False) ex_config) init_process)) = [] \<and>
   pr_slept (snd (run_state (app_New (ex_infra False) ex_config) init_process)) = 12 * retryInterval"
proof -
  have "isl (fst (run_state (app_New (ex_infra False) ex_config) init_process))" by (simp add: start_defs)
  then obtain e where e: "fst (run_state (app_New (ex_infra False) ex_config) init_process) = Inl e"
    by (cases "fst (run_state (app_New (ex_infra False) ex_config) init_process)") auto
  have "pr_slept (snd (run_state (app_New (ex_infra False) ex_config) init_process)) = 12 * retryInterval" by (simp add: start_defs)
  moreover from startup_all_or_nothing [of "ex_infra False" ex_config init_process "Inl e", OF prod_eqI] e
  have "pr_dbs (snd (run_state (app_New (ex_infra False) ex_config) init_process)) = []" by (simp add: init_process_def)
  ultimately show ?thesis using e by blast
qed

text \<open>C30. The application starts as soon as its databases answer: when the connection string is valid,
  MySQL answers one of the first ten pings and Redis one of ten in a row, it starts after at most
  eighteen pauses of three seconds.\<close>

theorem startup_succeeds:
  assumes "il_OpenDB il (buildDSN (cf_Database cfg)) = None" and "k < 10" and "il_PingDB il (pr_pings p + k) = None"
    and "\<And>i. \<exists>m<10. il_PingRedis il (i + m) = None"
  shows "\<exists>a p'. run_state (app_New il cfg) p = (Inr a, p') \<and>
    pr_slept p \<le> pr_slept p' \<and> pr_slept p' \<le> pr_slept p + 18 * retryInterval"
proof -
  have early: "m \<le> 9" if "retried answers 10 m q q'" "answers (pr_pings q + j) = None" "j < 10" for answers m q q' j
    using that by (cases "m \<le> j") (auto simp: retried_def not_le)
  obtain r p' where run: "run_state (app_New il cfg) p = (r, p')" by fastforce
  then show ?thesis
  proof (cases rule: app_New_cases)
    case (no_mysql e j)
    with assms(1) early [OF no_mysql(2) assms(3,2)] show ?thesis by simp
  next
    case (no_redis e q)
    from assms(4) obtain m where "m < 10" "il_PingRedis il (pr_pings q + m) = None" by blast
    from early [OF no_redis(2) this(2,1)] show ?thesis by simp
  next
    case (started a j q m)
    from assms(4) obtain l where "l < 10" "il_PingRedis il (pr_pings q + l) = None" by blast
    from early [OF started(3) this(2,1)] early [OF started(2) assms(3,2)] started(2,3)
    have "pr_slept p' = pr_slept p + int (j + m) * retryInterval" "j + m \<le> 18" by (simp_all add: retried_def algebra_simps)
    moreover have "0 \<le> int (j + m) * retryInterval" "int (j + m) * retryInterval \<le> 18 * retryInterval"
      using \<open>j + m \<le> 18\<close> by (simp_all add: retryInterval_def)
    ultimately show ?thesis using run started(1) by auto
  qed
qed

lemma startup_succeeds_witness:
  "\<exists>a p'. run_state (app_New (ex_infra True) ex_config) init_process = (Inr a, p') \<and>
     0 \<le> pr_slept p' \<and> pr_slept p' \<le> 18 * retryInterval"
proof -
  have "\<exists>m<10. il_PingRedis (ex_infra True) (i + m) = None" for i by (intro exI [of _ 0]) (simp add: ex_infra_def)
  from startup_succeeds [of "ex_infra True" ex_config 2 init_process, OF _ _ _ this] show ?thesis
    by (simp add: ex_infra_def init_process_def)
qed

text \<open>C31. The process gives back what it opened: unless the server itself fails while running, the main
  program ends with no open pool or client and no goroutine, and it reports success only after a
  signal and an orderly shutdown.\<close>

theorem main_releases:
  assumes "run_state (main il path stop) init_process = (out, p')"
  shows "((\<forall>e. stop \<noteq> ServerFailed e) \<longrightarrow> pr_dbs p' = [] \<and> pr_clients p' = [] \<and> pr_cleanups p' = 0) \<and>
    (out = Exit 0 \<longrightarrow> (\<exists>sig. stop = SignalReceived sig) \<and> il_Shutdown il = None)"
proof (cases "MustLoad il path")
  case (Inl msg)
  with assms show ?thesis by (auto simp: main_def init_process_def)
next
  case (Inr cfg)
  obtain r q where new: "run_state (app_New il cfg) init_process = (r, q)" by fastforce
  note start = app_New_open [OF new]
  show ?thesis
  proof (cases r)
    case (Inl e)
    with assms Inr new start show ?thesis by (auto simp: main_def init_process_def)
  next
    case a: (Inr a)
    with start have q: "pr_dbs q = [sp_handle (app_db a)]" "pr_clients q = [rcl_handle (app_rdb a)]" by (simp_all add: init_process_def)
    show ?thesis
    proof (cases stop)
      case (SignalReceived sig)
      with assms Inr new a q show ?thesis
        by (auto simp: main_def app_Shutdown_def cancel_def db_Close_def client_Close_def Let_def split: option.splits)
    next
      case (ServerFailed e)
      with assms Inr new a show ?thesis by (auto simp: main_def)
    qed
  qed
qed

lemma main_releases_witness:
  "fst (run_state (main (ex_infra True) ''configs/config.yaml'' (SignalReceived ''terminated'')) init_process) = Exit 0 \<and>
   pr_dbs (snd (run_state (main (ex_infra True) ''configs/config.yaml'' (SignalReceived ''terminated'')) init_process)) = []"
proof -
  let ?m = "run_state (main (ex_infra True) ''configs/config.yaml'' (SignalReceived ''terminated'')) init_process"
  have "fst ?m = Exit 0" by (simp add: start_defs)
  moreover have "?m = (fst ?m, snd ?m)" by simp
  ultimately show ?thesis using main_releases [of "ex_infra True" "''configs/config.yaml''" "SignalReceived ''terminated''" "fst ?m" "snd ?m"] by simp
qed

end
