(* ===== verification/Spec2Isabelle.thy ===== *)
theory Spec2Isabelle
  imports Http_Properties Collectors Api_Properties Json_Properties Interleaving Genschema Loggers Lifecycle Seed
begin

text \<open>
  Verification of the Team Tasks service (Go; chi, MySQL, Redis): teams, their members, tasks
  with a change history and comments, accounts with JWT login, and three reports, behind a REST
  API.  This root theory holds the properties that span components and this description.

  \<^bold>\<open>The program and its parts.\<close>  A request passes the middlewares (\<open>internal/middleware\<close>: request
  identifier, metrics, JWT, rate limit) and the generated router and strict server
  (\<open>internal/handler/api/v1/api.gen.go\<close>), reaches a handler (\<open>internal/handler\<close>), which calls a
  service (\<open>internal/service\<close>).  The services reach MySQL (\<open>internal/storage/mysql\<close>), Redis
  (\<open>internal/storage/redis\<close>) and the e-mail service (\<open>internal/circuitbreaker\<close>) through small Go
  interfaces.  \<open>internal/app\<close> builds and stops all of it, \<open>cmd/teamtasks\<close> is the main program,
  \<open>pkg/slogx\<close> and \<open>pkg/logger\<close> are the logger, and \<open>scripts\<close> has the generator of the schema diagram
  and the script that seeds test data.

  \<^bold>\<open>How code becomes definitions.\<close>  Types keep their names: a struct is a record, a pointer field
  an option, a Go \<open>int\<close> a 64-bit word, an instant or duration a number of nanoseconds, a UUID
  sixteen bytes.  A function with results \<open>(T, error)\<close> has a value of the sum type, \<open>Inl\<close> the error
  with its wrapping (\<open>errors.Is\<close>, \<open>errors.As\<close>), and \<open>try_or\<close> is the idiom \<open>if err != nil { return
  ... }\<close>.  Stateful code is in the state monad.  The shared state is the record \<open>world\<close>: the tables,
  the open transaction, the Redis key space, the mails, and a counter \<open>tick\<close> of external calls.
  What the code calls and the repository does not contain is a parameter: \<open>server\<close> (MySQL:
  conversions, collation, row order, clock, and at every tick whether the connection is lost
  before or after a statement), \<open>redis_server\<close>, \<open>runtime\<close> (clock, UUIDs, JSON, bcrypt, JWT, e-mail
  transport), \<open>api_lib\<close> (routing and decoding), \<open>json_lib\<close>, \<open>rate_lib\<close>, \<open>infra_lib\<close>, \<open>seed_lib\<close>.  What the code
  relies on is a named hypothesis with documented behaviour: \<open>server_laws\<close>, \<open>redis_laws\<close>,
  \<open>runtime_laws\<close>; \<open>dependable\<close> adds that Redis does not fail and no write is lost after it was done.
  Nothing else is assumed: every theorem without \<open>dependable\<close> holds for every pattern of lost
  connections.  \<open>Example\<close> instantiates all of them with concrete functions, in which the witnesses
  run the program.

  \<^bold>\<open>Theories.\<close>
  \<^item> \<open>Prelude\<close>, \<open>Go_Base\<close>: collections, combinators, generic lemmas; Go errors, strings, dates, UUIDs.
  \<^item> \<open>Domain\<close>: \<open>internal/domain\<close>.  \<open>Database\<close>: the migrations as insert, update and select functions
    with all key, foreign-key and column constraints (\<open>db_ok\<close>).  \<open>World\<close>: \<open>database/sql\<close> calls and
    transactions on the state.
  \<^item> \<open>Interfaces\<close>: the Go interfaces of the services as locales: what a storage or cache promises of
    its abstract data, independent of MySQL and Redis.
  \<^item> \<open>MySQL_Helpers\<close>, \<open>MySQL_User\<close>, \<open>MySQL_Team\<close>, \<open>MySQL_Task\<close>, \<open>MySQL_Comment\<close>, \<open>MySQL_Analytics\<close>: one per
    file of \<open>internal/storage/mysql\<close>; views of the tables, every outcome of every operation, and
    the interpretation of the locales.  \<open>Redis_Cache\<close>: \<open>taskcache.go\<close> with the SCAN loop.
  \<^item> \<open>Runtime\<close>: the other libraries.  \<open>Task_Service\<close>, \<open>Team_Service\<close>, \<open>Auth_Service\<close>, \<open>Comment_Service\<close>,
    \<open>Analytics_Service\<close>: \<open>internal/service\<close>, polymorphic in the state; each contract is proved once
    inside a locale over the interfaces (for tasks in \<open>Task_Contract\<close>, with the coherence of the
    cached lists).
  \<^item> \<open>Handlers\<close>: \<open>internal/handler\<close>.  The generated code is in \<open>Api\<close> (request and response objects, strict
    server), \<open>Api_Server\<close> (parameters, wrappers with their middlewares, routes, the constructors of the
    router, and the routes as the service mounts them), \<open>Json\<close> (the bodies by their field tags) and
    \<open>Api_Properties\<close> (facts about any implementation of its interfaces).  \<open>Middleware\<close>:
    \<open>internal/middleware\<close>.  \<open>Collectors\<close>: \<open>internal/metrics\<close>.
  \<^item> \<open>System\<close>: \<open>app.New\<close>: the services on their storages (interpretations of the service locales) and
    the middleware chain.  \<open>Reachable\<close>: the service as an inductive step relation and its
    invariants.  \<open>Http\<close>, \<open>Http_Chain\<close>: the server as a transition system that simulates the former,
    and every outcome of the chain.
  \<^item> \<open>Lifecycle\<close>: \<open>internal/config\<close>, the connections with their retries, construction, shutdown and
    \<open>main\<close>.  \<open>Slogx\<close>, \<open>Loggers\<close>: \<open>pkg/slogx\<close>, \<open>pkg/logger\<close>.  \<open>Genschema\<close>, \<open>Seed\<close>: \<open>scripts\<close>.
  \<^item> \<open>Example\<close>, \<open>Storage_Properties\<close>, \<open>Http_Properties\<close>, \<open>Json_Properties\<close>, \<open>Sessions\<close> and this theory: the
    concrete environment and the properties.
  \<^item> \<open>Interleaving\<close>: the task service again, each operation cut between its reads and its writes.

  \<^bold>\<open>What is proved.\<close>  In every reachable state, whatever fails, all table constraints hold, no
  transaction is open, and assignees are team members; nothing that was stored is lost later
  (\<open>Sessions\<close>).  For each service operation all outcomes are stated: who may call it, exactly what
  changes, and what each error means.  Cached lists are pages of the current tasks and contain
  what was created before.  Over HTTP, only a member gets a successful answer, callers without a
  token change nothing, answers are the declared ones, and limiters do not interfere.  A token
  identifies the account that logged in, and whoever has an account can log in while the database
  answers.  A start that fails leaves nothing open, and a start succeeds when the databases answer
  in time.  Log lines carry the request identifier and never a password, token or secret.  The two
  metrics agree with each other on every series, and what the generated server does with its
  middlewares holds for any implementation of its interfaces.  Where the code differs from its
  API description or its comments, a theorem says what it does: missing members of a body are not
  noticed, null changes nothing, refused requests are counted under their raw path.

  \<^bold>\<open>Bounds.\<close>  The SCAN loop has fuel \<open>rds_calls\<close>, the bound that \<open>redis_laws\<close> gives on the number of
  answers until the cursor returns to zero; \<open>scan_loop_fuel\<close> shows that it never runs out.  The
  retry loops run over the ten attempts of the code.  All other recursion is structural.

  Requests that overlap are treated where it matters most, in \<open>Interleaving\<close>: the checks of a creation
  stay valid because memberships do not end, but overlapping updates lose changes and a list can
  be cached after it is outdated.

  \<^bold>\<open>Not modelled.\<close>  Outside \<open>Interleaving\<close> requests are served one after the other; there, one
  operation is cut once and whole requests run in between, which leaves finer interleavings and
  data races out.  The code of a request has no panic that the model leaves out (those of the loggers are values, which
  \<open>request_id_logged\<close> excludes), so \<open>Recoverer\<close> is left out; cancelled contexts and timeouts are not
  modelled.  Routing in chi, the texts of JSON, YAML and log lines
  (bodies and log records are modelled as trees and attributes), HTTP headers other than those of authorisation and request
  identifier, and the \<open>/metrics\<close> page with the registry of the collectors are left to the
  parameters; so are the internals of gobreaker, the token bucket, bcrypt and JWT.  Routes are
  tried in the order in which they are registered, which is what chi does for patterns that do
  not overlap, as here.  The service passes no middlewares to the strict server, whose chain is left
  out.  What the scripts print and the log lines of the storages are not modelled, and \<open>tests\<close> is
  the test suite.
\<close>

section \<open>Invariants of the running service\<close>

text \<open>C1. In every state the service can reach, whatever fails on the way, the tables satisfy all
  key, foreign-key and column constraints and no transaction is left open.\<close>

theorem reachable_integrity:
  assumes "server_laws srv" and "redis_laws rds" and "runtime_laws rt" and "reachable allowed srv rds rt cfg w"
  shows "db_ok srv (tick w) (db w) \<and> tx w = None"
  using sys_invD(5) [OF reachable_sys_inv [OF assms]] reachable_idle [OF assms(4)] by (simp add: idle_def)

lemma reachable_integrity_witness:
  "reachable (\<lambda>f. True) plain_server plain_redis plain_runtime plain_config w_task \<and>
   db_ok plain_server (tick w_task) (db w_task) \<and> tx w_task = None"
  using reachable_integrity [OF plain_laws ex_reachable(4)] ex_reachable(4) by blast

text \<open>C9. In every reachable state the assignee of a task is a member of the task's team, so the
  report of orphaned tasks, when it returns at all, is empty.\<close>

theorem reachable_no_orphans:
  assumes "server_laws srv" and "redis_laws rds" and "runtime_laws rt" and "reachable allowed srv rds rt cfg w"
    and "run_state (analytics_OrphanTasks (analyticsSvc srv)) w = (Inr os, w')"
  shows "os = [] \<and> (\<forall>i t a. task_view (db w) i = Some t \<and> task_AssigneeID t = Some a \<longrightarrow>
    role_view (db w) (task_TeamID t) a \<noteq> None)"
proof -
  note inv = reachable_sys_inv [OF assms(1-4)]
  have ok: "assignees_ok (db w)" using reachable_assignees [OF assms(1-4)] .
  from assms(5) have "run_state (OrphanTasks srv) w = (Inr os, w')"
    by (auto simp: analyticsSvc_def dest: analytics_Inr)
  from OrphanTasks_Inr [OF sys_invD(5) [OF inv] this]
  have "mset os = mset (List.map_filter (orphan_of (db w)) (all_tasks (db w)))" .
  moreover have "orphan_of (db w) t = None" if "t \<in> set (all_tasks (db w))" for t
    using that ok task_view_iff [OF sys_invD(5) [OF inv]]
    by (auto simp: orphan_of_def assignees_ok_def split: option.splits)
  ultimately have "os = []" by (simp add: map_filter_None)
  with ok show ?thesis unfolding assignees_ok_def by blast
qed

lemma reachable_no_orphans_witness:
  "fst (run_state (analytics_OrphanTasks (analyticsSvc plain_server)) w_task) = Inr [] \<and>
   role_view (db w_task) ex_team bob \<noteq> None"
proof -
  have "fst (run_state (analytics_OrphanTasks (analyticsSvc plain_server)) w_task) = Inr []" by code_simp
  note run = run_pair [OF this]
  have "map_option task_AssigneeID (task_view (db w_task) ex_task) = Some (Some bob)"
    "map_option task_TeamID (task_view (db w_task) ex_task) = Some ex_team" by code_simp+
  with reachable_no_orphans [OF plain_laws ex_reachable(4) run] \<open>fst (run_state _ w_task) = Inr []\<close> show ?thesis by fastforce
qed




text \<open>A list filtered by the status \<open>all\<close> has the cache key of the list without a status, and so
  it spoils the cache: after such a request the unfiltered list of the same team is answered
  with no tasks although the team has one.\<close>

theorem status_all_spoils_cache:
  "cacheKey str (f\<lparr>tf_Status := Some ''all''\<rparr>) = cacheKey str (f\<lparr>tf_Status := None\<rparr>) \<and>
   map_sum (\<lambda>_. ()) snd (fst (run_state (task_List ex_tasks bob (ex_filter\<lparr>tf_Status := None\<rparr>)) w_task)) = Inr 1 \<and>
   fst (run_state (task_List ex_tasks bob (ex_filter\<lparr>tf_Status := None\<rparr>))
     (snd (run_state (task_List ex_tasks bob (ex_filter\<lparr>tf_Status := Some ''all''\<rparr>)) w_task))) = Inr ([], 0)"
proof (intro conjI)
  show "cacheKey str (f\<lparr>tf_Status := Some ''all''\<rparr>) = cacheKey str (f\<lparr>tf_Status := None\<rparr>)"
    by (simp add: cacheKey_parts key_status_def)
  show "map_sum (\<lambda>_. ()) snd (fst (run_state (task_List ex_tasks bob (ex_filter\<lparr>tf_Status := None\<rparr>)) w_task)) = Inr 1"
    by code_simp
  show "fst (run_state (task_List ex_tasks bob (ex_filter\<lparr>tf_Status := None\<rparr>))
     (snd (run_state (task_List ex_tasks bob (ex_filter\<lparr>tf_Status := Some ''all''\<rparr>)) w_task))) = Inr ([], 0)"
    by code_simp
qed

section \<open>Tasks\<close>

text \<open>C8. Creating a task: on success the caller and the assignee are members of the team, the new
  task has the requested fields, status \<open>todo\<close>, the default priority when none is given, and
  exactly that task is added, in its stored form; on an error either nothing was written or,
  when the connection was lost, exactly that; \<open>ErrForbidden\<close> is only answered to someone who
  may not create the task, and then neither the tables nor the cache nor the mail change.\<close>

theorem task_Create_contract:
  assumes "server_laws srv" and "redis_laws rds" and "runtime_laws rt" and "world_ok srv w"
    and "run_state (task_Create (taskSvc srv rds rt cfg) c input) w = (r, w')"
  shows "case r of
      Inr t \<Rightarrow> may_create (role_view (db w)) c input \<and> task_for input c t \<and>
        task_saved task_view (\<lambda>d. (history_view d, team_members d, other_tables d)) (stored_task srv) t (db w) (db w')
    | Inl e \<Rightarrow>
        (db w' = db w \<or> may_create (role_view (db w)) c input \<and> (\<exists>t. task_for input c t \<and>
           task_saved task_view (\<lambda>d. (history_view d, team_members d, other_tables d)) (stored_task srv) t (db w) (db w'))) \<and>
        (errors_Is e ErrForbidden \<longrightarrow> \<not> may_create (role_view (db w)) c input \<and> db w' = db w \<and> outside w' = outside w)"
  using sys_invI [OF assms(1-4)] assms(5)
proof (cases rule: task_svc.Create_cases)
  case (created t v)
  then have "db w' = db v" using task_svc.cache_keeps(3) by metis
  with created show ?thesis by simp
qed auto

lemma task_Create_contract_witness:
  "\<exists>t w'. run_state (task_Create ex_tasks alice ex_input) w_invited = (Inr t, w') \<and> task_for ex_input alice t \<and>
     task_saved task_view (\<lambda>d. (history_view d, team_members d, other_tables d)) (stored_task plain_server) t (db w_invited) (db w')"
proof -
  have ok: "\<not> isl (fst (run_state (task_Create ex_tasks alice ex_input) w_invited))" by code_simp
  obtain r w' where run: "run_state (task_Create ex_tasks alice ex_input) w_invited = (r, w')" by fastforce
  with ok obtain t where "r = Inr t" by (cases r) auto
  with task_Create_contract [OF plain_laws ex_ok(3) run] run show ?thesis by auto
qed

text \<open>C7. Updating a task: on success the caller is a member of the task's team and so is a new
  assignee, the answer is the old task with the given fields replaced and the time of the
  update, exactly that task changes, and the history gets one entry per changed field, all in
  one transaction; on an error either nothing was written or all of it;
  \<open>ErrNotFound\<close> means that there is no such task, \<open>ErrForbidden\<close> that the caller may not make
  the change, and then nothing changes.\<close>

theorem task_Update_contract:
  assumes "server_laws srv" and "redis_laws rds" and "runtime_laws rt" and "world_ok srv w"
    and "run_state (task_Update (taskSvc srv rds rt cfg) c i input) w = (r, w')"
  shows "case r of
      Inr u \<Rightarrow> (\<exists>t now. task_view (db w) i = Some t \<and> may_update (role_view (db w)) c t input \<and>
        u = (apply_update input t)\<lparr>task_UpdatedAt := now\<rparr> \<and>
        task_changed task_view history_view (\<lambda>d. (team_members d, other_tables d)) (stored_task srv) (entry_stored srv)
          replace_task u (update_entries (rt_String rt) t input i c now) (db w) (db w'))
    | Inl e \<Rightarrow>
        (db w' = db w \<or> (\<exists>t now. task_view (db w) i = Some t \<and> may_update (role_view (db w)) c t input \<and>
           task_changed task_view history_view (\<lambda>d. (team_members d, other_tables d)) (stored_task srv) (entry_stored srv)
             replace_task ((apply_update input t)\<lparr>task_UpdatedAt := now\<rparr>)
             (update_entries (rt_String rt) t input i c now) (db w) (db w'))) \<and>
        (errors_Is e ErrNotFound \<longrightarrow> task_view (db w) i = None \<and> db w' = db w \<and> outside w' = outside w) \<and>
        (errors_Is e ErrForbidden \<longrightarrow> (\<exists>t. task_view (db w) i = Some t \<and> \<not> may_update (role_view (db w)) c t input) \<and>
           db w' = db w \<and> outside w' = outside w)"
  using sys_invI [OF assms(1-4)] assms(5)
proof (cases rule: task_svc.Update_cases)
  case (updated t now v)
  then have "db w' = db v" using task_svc.cache_keeps(3) by metis
  with updated show ?thesis by auto
next
  case (unsure e t now)
  then show ?thesis by auto
next
  case (refused e t)
  then show ?thesis by auto
qed auto

lemma task_Update_contract_witness:
  "\<exists>u w'. run_state (task_Update ex_tasks bob ex_task ex_change) w_task = (Inr u, w') \<and> task_Status u = ''done'' \<and>
     length (history_view (db w') ex_task) = 2 \<and> (\<exists>t. task_view (db w_task) ex_task = Some t \<and> may_update (role_view (db w_task)) bob t ex_change)"
proof -
  let ?m = "run_state (task_Update ex_tasks bob ex_task ex_change) w_task"
  have ok: "case fst ?m of Inl _ \<Rightarrow> False | Inr u \<Rightarrow> task_Status u = ''done''" by code_simp
  have len: "length (history_view (db (snd ?m)) ex_task) = 2" by code_simp
  obtain r w' where run: "?m = (r, w')" by fastforce
  with ok obtain u where "r = Inr u" "task_Status u = ''done''" by (cases r) auto
  with task_Update_contract [OF plain_laws ex_ok(4) run] run len show ?thesis by auto
qed

text \<open>Reading the history of a task changes nothing; on success the caller is a member of the
  task's team and the answer is the whole history, oldest entry first; \<open>ErrForbidden\<close> is only
  answered to someone who is no member.\<close>

theorem task_History_contract:
  assumes "server_laws srv" and "redis_laws rds" and "runtime_laws rt" and "world_ok srv w"
    and "run_state (task_History (taskSvc srv rds rt cfg) c i) w = (r, w')"
  shows "db w' = db w \<and> outside w' = outside w \<and>
    (case r of
       Inr hs \<Rightarrow> (\<exists>t. task_view (db w) i = Some t \<and> role_view (db w) (task_TeamID t) c \<noteq> None) \<and>
         mset hs = mset (history_view (db w) i) \<and> sorted_wrt (\<lambda>g h. th_ChangedAt g \<le> th_ChangedAt h) hs
     | Inl e \<Rightarrow> errors_Is e ErrForbidden \<longrightarrow> (\<exists>t. task_view (db w) i = Some t \<and> role_view (db w) (task_TeamID t) c = None))"
proof -
  note h = task_svc.History_cases [OF sys_invI [OF assms(1-4)] assms(5)]
  from h(1) have "db w' = db w \<and> outside w' = outside w" by simp
  with h(2,3) show ?thesis by (cases r) auto
qed

lemma task_History_contract_witness:
  "\<exists>hs w'. run_state (task_History ex_tasks bob ex_task) w_task = (Inr hs, w') \<and> mset hs = mset (history_view (db w_task) ex_task)"
proof -
  let ?m = "run_state (task_History ex_tasks bob ex_task) w_task"
  have ok: "\<not> isl (fst ?m)" by code_simp
  obtain r w' where run: "?m = (r, w')" by fastforce
  with ok obtain hs where "r = Inr hs" by (cases r) auto
  with task_History_contract [OF plain_laws ex_ok(4) run] run show ?thesis by auto
qed

section \<open>Teams\<close>

text \<open>C18. Creating a team adds the team and its creator as the only member, with role owner, both or
  neither, and nothing else; on an error it is either done completely or not at all.\<close>

theorem team_Create_contract:
  assumes "server_laws srv" and "redis_laws rds" and "runtime_laws rt" and "world_ok srv w"
    and "run_state (team_Create (teamSvc srv rt cfg) owner name) w = (r, w')"
  shows "outside w' = outside w \<and>
    (case r of
       Inr team \<Rightarrow> team_Name team = name \<and> team_CreatedBy team = owner \<and>
         team_added role_view team_view non_team_tables (stored_team srv) team owner (db w) (db w')
     | Inl e \<Rightarrow> (\<forall>g. \<not> errors_Is e g) \<and> (db w' = db w \<or> (\<exists>team. team_Name team = name \<and> team_CreatedBy team = owner \<and>
         team_added role_view team_view non_team_tables (stored_team srv) team owner (db w) (db w'))))"
  using team_svc.Create_run [OF sys_invI [OF assms(1-4)] assms(5)] by simp

lemma team_Create_contract_witness:
  "\<exists>team w'. run_state (team_Create ex_teams alice ''core'') w_users = (Inr team, w') \<and>
     team_added role_view team_view non_team_tables (stored_team plain_server) team alice (db w_users) (db w')"
proof -
  let ?m = "run_state (team_Create ex_teams alice ''core'') w_users"
  have ok: "\<not> isl (fst ?m)" by code_simp
  obtain r w' where run: "?m = (r, w')" by fastforce
  with ok obtain team where "r = Inr team" by (cases r) auto
  with team_Create_contract [OF plain_laws ex_ok(1) run] run show ?thesis by auto
qed

text \<open>C17. Inviting: it succeeds only when the caller has a role above member in the team and the
  invited user exists; then that user's role becomes member and nothing else in the tables
  changes, and at most one mail goes out, to the address of the invited user and about this team, also when sending
  fails; \<open>ErrForbidden\<close> and \<open>ErrNotFound\<close> are answered only for their reason and change nothing.\<close>

theorem team_Invite_contract:
  assumes "server_laws srv" and "redis_laws rds" and "runtime_laws rt" and "world_ok srv w"
    and "run_state (team_Invite (teamSvc srv rt cfg) c t u) w = (r, w')"
  shows "case r of
      Inr _ \<Rightarrow> may_invite (role_view (db w)) c t \<and>
        member_saved role_view team_view non_team_tables t u RoleMember (db w) (db w') \<and>
        (\<exists>team usr. team_view (db w) t = Some team \<and> user_view (db w) u = Some usr \<and>
           (outside w' = outside w \<or>
            outside w' = mail_sent (cfg_EmailBaseURL cfg) (user_Email usr) (team_Name team) (outside w)))
    | Inl e \<Rightarrow> outside w' = outside w \<and>
        (db w' = db w \<or> may_invite (role_view (db w)) c t \<and>
           member_saved role_view team_view non_team_tables t u RoleMember (db w) (db w')) \<and>
        (errors_Is e ErrForbidden \<longrightarrow> \<not> may_invite (role_view (db w)) c t \<and> db w' = db w) \<and>
        (errors_Is e ErrNotFound \<longrightarrow> (team_view (db w) t = None \<or> user_view (db w) u = None) \<and> db w' = db w)"
  using sys_invI [OF assms(1-4)] assms(5)
  by (cases rule: team_svc.Invite_cases) auto

lemma team_Invite_contract_witness:
  "\<exists>w'. run_state (team_Invite ex_teams alice ex_team bob) w_team = (Inr (), w') \<and> role_view (db w') ex_team bob = Some RoleMember \<and>
     snd (outside w') = [\<lparr>mail_url = ''http://mail/send'', mail_to = ''bob@x'', mail_team = ''core''\<rparr>]"
proof -
  let ?m = "run_state (team_Invite ex_teams alice ex_team bob) w_team"
  have ok: "fst ?m = Inr ()" by code_simp
  have out: "snd (outside (snd ?m)) = [\<lparr>mail_url = ''http://mail/send'', mail_to = ''bob@x'', mail_team = ''core''\<rparr>]" by code_simp
  note run = run_pair [OF ok]
  from team_Invite_contract [OF plain_laws ex_ok(2) run] have "role_view (db (snd ?m)) ex_team bob = Some RoleMember"
    by (simp add: member_saved_def set_role_def)
  with run out show ?thesis by (intro exI [of _ "snd ?m"]) simp
qed

text \<open>Inviting someone who already has a role in the team, even its owner inviting herself, sets
  that role to member: the owner of a team can lose it by an invitation.\<close>

theorem team_Invite_demotes:
  assumes "server_laws srv" and "redis_laws rds" and "runtime_laws rt" and "world_ok srv w"
    and "run_state (team_Invite (teamSvc srv rt cfg) c t c) w = (Inr (), w')"
  shows "role_view (db w) t c \<noteq> Some RoleMember \<and> role_view (db w') t c = Some RoleMember \<and>
    \<not> may_invite (role_view (db w')) c t"
  using sys_invI [OF assms(1-4)] assms(5)
  by (cases rule: team_svc.Invite_cases) (auto simp: may_invite_def member_saved_def set_role_def)

lemma team_Invite_demotes_witness:
  "role_view (db w_team) ex_team alice = Some RoleOwner \<and>
   role_view (db (snd (run_state (team_Invite ex_teams alice ex_team alice) w_team))) ex_team alice = Some RoleMember"
proof -
  let ?m = "run_state (team_Invite ex_teams alice ex_team alice) w_team"
  have ok: "fst ?m = Inr ()" by code_simp
  have "role_view (db w_team) ex_team alice = Some RoleOwner" by code_simp
  with team_Invite_demotes [OF plain_laws ex_ok(2) run_pair [OF ok]] show ?thesis by simp
qed

text \<open>The teams listed for a user are exactly the teams in which the user has a role.\<close>

theorem team_ListForUser_contract:
  assumes "server_laws srv" and "redis_laws rds" and "runtime_laws rt" and "world_ok srv w"
    and "run_state (team_ListForUser (teamSvc srv rt cfg) u) w = (Inr ts, w')"
  shows "db w' = db w \<and> outside w' = outside w \<and>
    mset ts = mset (filter (\<lambda>t. role_view (db w) (team_ID t) u \<noteq> None) (all_teams (db w)))"
  using team_svc.ListForUser_run [OF sys_invI [OF assms(1-4)] assms(5)] by simp

lemma team_ListForUser_contract_witness:
  "\<exists>ts. run_state (team_ListForUser ex_teams bob) w_invited = (Inr ts, advance w_invited) \<and> map team_Name ts = [''core''] \<and>
     mset ts = mset (filter (\<lambda>t. role_view (db w_invited) (team_ID t) bob \<noteq> None) (all_teams (db w_invited)))"
proof -
  let ?m = "run_state (team_ListForUser ex_teams bob) w_invited"
  have ok: "case fst ?m of Inl _ \<Rightarrow> False | Inr ts \<Rightarrow> map team_Name ts = [''core'']" by code_simp
  obtain r w' where run: "?m = (r, w')" by fastforce
  with ok obtain ts where ts: "r = Inr ts" "map team_Name ts = [''core'']" by (cases r) auto
  have "w' = advance w_invited"
    using run by (auto simp: team_ListForUser_def teamSvc_def GetTeamsByUser_def db_Select_def plain_server_def try_or_def
        split: sum.splits)
  with team_ListForUser_contract [OF plain_laws ex_ok(3) run [unfolded ts(1)]] run ts show ?thesis by auto
qed

section \<open>Accounts\<close>

text \<open>C19. Registering: on success the address was free, and afterwards exactly that address (as the
  database compares addresses) belongs to a user with the given name whose stored hash matches the
  password; every other address and all other tables are as before; on an error either nothing
  was written or all of it, and the only sentinel error is \<open>ErrConflict\<close>, which writes nothing.\<close>

theorem auth_Register_contract:
  assumes "server_laws srv" and "redis_laws rds" and "runtime_laws rt" and "world_ok srv w"
    and "run_state (auth_Register (authSvc srv rt cfg) email name pw) w = (r, w')"
  shows "outside w' = outside w \<and>
    (case r of
       Inr _ \<Rightarrow> email_view srv (db w) email = None \<and>
         account_added (email_view srv) non_user_tables (same_email srv) (stored_user srv) (rt_Compare rt) email name pw (db w) (db w')
     | Inl e \<Rightarrow> (db w' = db w \<or> email_view srv (db w) email = None \<and>
         account_added (email_view srv) non_user_tables (same_email srv) (stored_user srv) (rt_Compare rt) email name pw (db w) (db w')) \<and>
         (\<forall>g. errors_Is e g \<longrightarrow> g = ErrConflict \<and> db w' = db w))"
proof -
  have "asv_Compare (authSvc srv rt cfg) = rt_Compare rt" by (simp add: authSvc_def)
  then show ?thesis using auth_svc.Register_run [OF sys_invI [OF assms(1-4)] assms(5)] by (cases r) simp_all
qed

lemma auth_Register_contract_witness:
  "\<exists>w'. run_state (auth_Register ex_auth ''carol@x'' ''Carol'' ''pw'') w_users = (Inr (), w') \<and>
     account_added (email_view plain_server) non_user_tables (same_email plain_server) (stored_user plain_server)
       (rt_Compare plain_runtime) ''carol@x'' ''Carol'' ''pw'' (db w_users) (db w')"
proof -
  have "fst (run_state (auth_Register ex_auth ''carol@x'' ''Carol'' ''pw'') w_users) = Inr ()" by code_simp
  note run = run_pair [OF this]
  from auth_Register_contract [OF plain_laws ex_ok(1) run] run show ?thesis by auto
qed

text \<open>C20. Logging in changes nothing; a token is only issued for the account of the address, when its
  hash matches the password, and it carries that account's identifier and the configured
  expiry; the only sentinel error is \<open>ErrUnauthorized\<close>, for a wrong address or password.\<close>

theorem auth_Login_contract:
  assumes "server_laws srv" and "redis_laws rds" and "runtime_laws rt" and "world_ok srv w"
    and "run_state (auth_Login (authSvc srv rt cfg) email pw) w = (r, w')"
  shows "db w' = db w \<and> outside w' = outside w \<and>
    (case r of
       Inr token \<Rightarrow> (\<exists>usr now. email_view srv (db w) email = Some usr \<and> rt_Compare rt (user_Password usr) pw \<and>
         rt_Sign rt (cfg_JWTSecret cfg) (rt_String rt (user_ID usr), Unix (now + cfg_JWTExpiry cfg)) = Inr token)
     | Inl e \<Rightarrow> \<forall>g. errors_Is e g \<longrightarrow> g = ErrUnauthorized \<and>
         (case email_view srv (db w) email of None \<Rightarrow> True | Some usr \<Rightarrow> \<not> rt_Compare rt (user_Password usr) pw))"
  using auth_svc.Login_run [OF sys_invI [OF assms(1-4)] assms(5)]
  by (cases r; cases "email_view srv (db w) email") (simp_all add: authSvc_def)

lemma auth_Login_contract_witness:
  "\<exists>e w'. run_state (auth_Login ex_auth ''bob@x'' ''wrong'') w_users = (Inl e, w') \<and> errors_Is e ErrUnauthorized \<and>
     (\<exists>usr. email_view plain_server (db w_users) ''bob@x'' = Some usr \<and> \<not> rt_Compare plain_runtime (user_Password usr) ''wrong'')"
proof -
  let ?m = "run_state (auth_Login ex_auth ''bob@x'' ''wrong'') w_users"
  have ok: "case fst ?m of Inl e \<Rightarrow> errors_Is e ErrUnauthorized | Inr _ \<Rightarrow> False" by code_simp
  have usr: "email_view plain_server (db w_users) ''bob@x'' \<noteq> None" by code_simp
  obtain r w' where run: "?m = (r, w')" by fastforce
  with ok obtain e where "r = Inl e" "errors_Is e ErrUnauthorized" by (cases r) auto
  with auth_Login_contract [OF plain_laws ex_ok(1) run] run usr show ?thesis by auto
qed

text \<open>C15. From registration to an authenticated request: a user who registered and logs in with the
  same password gets a token with which, until it expires, the middleware identifies exactly
  the account of that address.\<close>

theorem login_authenticates:
  assumes "server_laws srv" and "redis_laws rds" and "runtime_laws rt" and "world_ok srv w"
    and "run_state (auth_Login (authSvc srv rt cfg) email pw) w = (Inr token, w')"
  shows "\<exists>usr issued. email_view srv (db w) email = Some usr \<and>
    (\<forall>now. now < Unix (issued + cfg_JWTExpiry cfg) * 1000000000 \<longrightarrow>
       authenticate rt (cfg_JWTSecret cfg) now (''Bearer '' @ token) = Inr (Some (user_ID usr)))"
proof -
  from auth_svc.Login_run [OF sys_invI [OF assms(1-4)] assms(5)] obtain usr issued
    where "email_view srv (db w) email = Some usr"
      and "rt_Sign rt (cfg_JWTSecret cfg) (rt_String rt (user_ID usr), Unix (issued + cfg_JWTExpiry cfg)) = Inr token"
    by (auto simp: authSvc_def)
  then show ?thesis using authenticate_issued [OF assms(3)] by blast
qed

lemma login_authenticates_witness:
  "\<exists>token w' usr. run_state (auth_Login ex_auth ''bob@x'' ''pw'') w_users = (Inr token, w') \<and>
     email_view plain_server (db w_users) ''bob@x'' = Some usr \<and> user_ID usr = bob"
proof -
  let ?m = "run_state (auth_Login ex_auth ''bob@x'' ''pw'') w_users"
  have ok: "\<not> isl (fst ?m)" by code_simp
  have id: "map_option user_ID (email_view plain_server (db w_users) ''bob@x'') = Some bob" by code_simp
  obtain r w' where run: "?m = (r, w')" by fastforce
  with ok obtain token where "r = Inr token" by (cases r) auto
  with login_authenticates [OF plain_laws ex_ok(1)] run id show ?thesis by fastforce
qed

section \<open>Comments\<close>

text \<open>C21. Adding a comment: on success the caller is a member of the task's team and exactly one
  comment is appended to the task's comments; the answer carries the new identifier but the
  zero time as creation time, whatever the database stored; errors leave everything as it was
  or have appended the comment.\<close>

theorem comment_Add_contract:
  assumes "server_laws srv" and "redis_laws rds" and "runtime_laws rt" and "world_ok srv w"
    and "run_state (comment_Add (commentSvc srv) c i body) w = (r, w')"
  shows "outside w' = outside w \<and>
    (case r of
       Inr k \<Rightarrow> may_comment (task_view (db w)) (role_view (db w)) c i \<and>
         comment_TaskID k = i \<and> comment_UserID k = c \<and> comment_Body k = body \<and> comment_CreatedAt k = zero_time \<and>
         (\<exists>s. comment_stored srv (k\<lparr>comment_ID := 0\<rparr>) s \<and> comment_ID s = comment_ID k \<and>
            comment_added comment_view non_comment_tables i s (db w) (db w'))
     | Inl e \<Rightarrow> (db w' = db w \<or> may_comment (task_view (db w)) (role_view (db w)) c i \<and>
         (\<exists>s. comment_added comment_view non_comment_tables i s (db w) (db w'))) \<and>
         \<not> (errors_Is e ErrForbidden \<and> may_comment (task_view (db w)) (role_view (db w)) c i))"
  using comment_svc.Add_run [OF sys_invI [OF assms(1-4)] assms(5)] by simp

lemma comment_Add_contract_witness:
  "\<exists>k w'. run_state (comment_Add ex_comments bob ex_task ''ok'') w_task = (Inr k, w') \<and> comment_CreatedAt k = zero_time \<and>
     length (comment_view (db w') ex_task) = 1"
proof -
  let ?m = "run_state (comment_Add ex_comments bob ex_task ''ok'') w_task"
  have ok: "\<not> isl (fst ?m)" by code_simp
  have len: "length (comment_view (db (snd ?m)) ex_task) = 1" by code_simp
  obtain r w' where run: "?m = (r, w')" by fastforce
  with ok obtain k where "r = Inr k" by (cases r) auto
  with comment_Add_contract [OF plain_laws ex_ok(4) run] run len show ?thesis by auto
qed

text \<open>Listing comments changes nothing; on success the caller is a member of the task's team and
  the answer is all comments of the task, oldest first.\<close>

theorem comment_List_contract:
  assumes "server_laws srv" and "redis_laws rds" and "runtime_laws rt" and "world_ok srv w"
    and "run_state (comment_List (commentSvc srv) c i) w = (r, w')"
  shows "db w' = db w \<and> outside w' = outside w \<and>
    (case r of
       Inr cs \<Rightarrow> may_comment (task_view (db w)) (role_view (db w)) c i \<and> mset cs = mset (comment_view (db w) i) \<and>
         sorted_wrt (\<lambda>a b. comment_CreatedAt a \<le> comment_CreatedAt b) cs
     | Inl e \<Rightarrow> \<not> (errors_Is e ErrForbidden \<and> may_comment (task_view (db w)) (role_view (db w)) c i))"
  using comment_svc.List_run [OF sys_invI [OF assms(1-4)] assms(5)] by simp

lemma comment_List_contract_witness:
  "\<exists>e w'. run_state (comment_List ex_comments ex_team ex_task) w_task = (Inl e, w') \<and> errors_Is e ErrForbidden \<and>
     \<not> may_comment (task_view (db w_task)) (role_view (db w_task)) ex_team ex_task"
proof -
  let ?m = "run_state (comment_List ex_comments ex_team ex_task) w_task"
  have ok: "case fst ?m of Inl e \<Rightarrow> errors_Is e ErrForbidden | Inr _ \<Rightarrow> False" by code_simp
  obtain r w' where run: "?m = (r, w')" by fastforce
  with ok obtain e where "r = Inl e" "errors_Is e ErrForbidden" by (cases r) auto
  with comment_List_contract [OF plain_laws ex_ok(4) run] run show ?thesis by auto
qed

end
